theory Spec2Isabelle
  imports Complex_Main "HOL-Library.Sublist"
begin

section \<open>JavaScript numbers\<close>

text \<open>
  The widget computes with JavaScript Numbers: IEEE 754 binary64 values.  A Number is
  modelled as a finite real (\<open>Fin 0\<close> is \<open>+0\<close>), the negative zero \<open>NZ\<close>, the two
  infinities, or \<open>NaN\<close>.  Every arithmetic result is rounded to the nearest double, ties to
  the even significand, by \<open>fl\<close>; results beyond the largest double become infinite.
\<close>

datatype jsnum = Fin real | NZ | PInf | NInf | NaN

text \<open>Rounding a real to the nearest integer, ties to even.\<close>

definition rhe :: "real \<Rightarrow> int" where
  "rhe t = (let f = \<lfloor>t\<rfloor>; d = t - of_int f in
     if d < 1 / 2 then f else if 1 / 2 < d then f + 1 else if even f then f else f + 1)"

text \<open>
  The binary exponent of a non-zero real, not below the exponent \<open>-1022\<close> of the subnormal
  range, and the spacing of the doubles around it (53 significant bits).
\<close>

definition expo :: "real \<Rightarrow> int" where
  "expo x = max (- 1022) \<lfloor>log 2 \<bar>x\<bar>\<rfloor>"

definition ulp :: "real \<Rightarrow> real" where
  "ulp x = 2 powi (expo x - 52)"

definition rnd :: "real \<Rightarrow> real" where
  "rnd x = of_int (rhe (x / ulp x)) * ulp x"

definition fl :: "real \<Rightarrow> jsnum" where
  "fl x = (if x = 0 then Fin 0
     else let r = rnd x in
       if 2 ^ 1024 \<le> r then PInf
       else if r \<le> - (2 ^ 1024) then NInf
       else if r = 0 then (if x < 0 then NZ else Fin 0)
       else Fin r)"

fun is_fin :: "jsnum \<Rightarrow> bool" where
  "is_fin (Fin x) = True"
| "is_fin NZ = True"
| "is_fin _ = False"

fun val :: "jsnum \<Rightarrow> real" where
  "val (Fin x) = x"
| "val _ = 0"

text \<open>The sign bit of a Number that is not \<open>NaN\<close>.\<close>

fun signbit :: "jsnum \<Rightarrow> bool" where
  "signbit (Fin x) = (x < 0)"
| "signbit NZ = True"
| "signbit NInf = True"
| "signbit _ = False"

definition szero :: "bool \<Rightarrow> jsnum" where
  "szero s = (if s then NZ else Fin 0)"

definition sinf :: "bool \<Rightarrow> jsnum" where
  "sinf s = (if s then NInf else PInf)"

fun jneg :: "jsnum \<Rightarrow> jsnum" where
  "jneg (Fin x) = (if x = 0 then NZ else Fin (- x))"
| "jneg NZ = Fin 0"
| "jneg PInf = NInf"
| "jneg NInf = PInf"
| "jneg NaN = NaN"

fun jadd :: "jsnum \<Rightarrow> jsnum \<Rightarrow> jsnum" where
  "jadd NaN b = NaN"
| "jadd a NaN = NaN"
| "jadd PInf NInf = NaN"
| "jadd NInf PInf = NaN"
| "jadd PInf b = PInf"
| "jadd a PInf = PInf"
| "jadd NInf b = NInf"
| "jadd a NInf = NInf"
| "jadd a b =
     (if val a + val b = 0 then szero (a = NZ \<and> b = NZ) else fl (val a + val b))"

definition jsub :: "jsnum \<Rightarrow> jsnum \<Rightarrow> jsnum" where
  "jsub a b = jadd a (jneg b)"

definition jmul :: "jsnum \<Rightarrow> jsnum \<Rightarrow> jsnum" where
  "jmul a b =
     (if a = NaN \<or> b = NaN then NaN
      else if is_fin a \<and> is_fin b then
        (if val a * val b = 0 then szero (signbit a \<noteq> signbit b) else fl (val a * val b))
      else if (is_fin a \<and> val a = 0) \<or> (is_fin b \<and> val b = 0) then NaN
      else sinf (signbit a \<noteq> signbit b))"

definition jdiv :: "jsnum \<Rightarrow> jsnum \<Rightarrow> jsnum" where
  "jdiv a b =
     (if a = NaN \<or> b = NaN then NaN
      else if is_fin a \<and> is_fin b then
        (if val b = 0 then (if val a = 0 then NaN else sinf (signbit a \<noteq> signbit b))
         else if val a = 0 then szero (signbit a \<noteq> signbit b)
         else fl (val a / val b))
      else if is_fin b then sinf (signbit a \<noteq> signbit b)
      else if is_fin a then szero (signbit a \<noteq> signbit b)
      else NaN)"

text \<open>
  Comparison: \<open>NaN\<close> compares false with everything, the two zeros are equal, the
  infinities lie outside all finite values.
\<close>

fun cls :: "jsnum \<Rightarrow> int" where
  "cls NInf = - 1"
| "cls PInf = 1"
| "cls _ = 0"

definition jlt :: "jsnum \<Rightarrow> jsnum \<Rightarrow> bool" where
  "jlt a b = (a \<noteq> NaN \<and> b \<noteq> NaN \<and> (cls a < cls b \<or> (cls a = cls b \<and> val a < val b)))"

definition jle :: "jsnum \<Rightarrow> jsnum \<Rightarrow> bool" where
  "jle a b = (a \<noteq> NaN \<and> b \<noteq> NaN \<and> (cls a < cls b \<or> (cls a = cls b \<and> val a \<le> val b)))"

definition jeq :: "jsnum \<Rightarrow> jsnum \<Rightarrow> bool" where
  "jeq a b = (a \<noteq> NaN \<and> b \<noteq> NaN \<and> cls a = cls b \<and> val a = val b)"

text \<open>\<open>Math.max\<close> of two Numbers: \<open>NaN\<close> is contagious and \<open>+0\<close> is larger than \<open>-0\<close>.\<close>

definition jmax :: "jsnum \<Rightarrow> jsnum \<Rightarrow> jsnum" where
  "jmax a b =
     (if a = NaN \<or> b = NaN then NaN
      else if jlt a b then b
      else if jlt b a then a
      else if a = NZ then b else a)"

text \<open>A numeric literal of the source denotes the double nearest to its decimal value.\<close>

definition dbl :: "real \<Rightarrow> jsnum" where
  "dbl x = fl x"

section \<open>Strings and the parsing built-ins\<close>

text \<open>
  Strings are lists of 8-bit code units.  White space is what \<open>trim\<close>, \<open>parseFloat\<close> and
  \<open>parseInt\<close> skip in that range: TAB, LF, VT, FF, CR, SPACE and NBSP.
\<close>

definition is_ws :: "char \<Rightarrow> bool" where
  "is_ws c = (c \<in> {CHR 0x09, CHR 0x0A, CHR 0x0B, CHR 0x0C, CHR 0x0D, CHR 0x20, CHR 0xA0})"

definition is_digit :: "char \<Rightarrow> bool" where
  "is_digit c = (c \<in> set ''0123456789'')"

definition digit_val :: "char \<Rightarrow> nat" where
  "digit_val c = of_char c - 48"

definition dec_value :: "string \<Rightarrow> nat" where
  "dec_value ds = foldl (\<lambda>a c. 10 * a + digit_val c) 0 ds"

definition is_hex_digit :: "char \<Rightarrow> bool" where
  "is_hex_digit c = (c \<in> set ''0123456789abcdefABCDEF'')"

definition hex_digit_val :: "char \<Rightarrow> nat" where
  "hex_digit_val c =
     (if is_digit c then of_char c - 48
      else if c \<in> set ''abcdef'' then of_char c - 87
      else of_char c - 55)"

definition hex_value :: "string \<Rightarrow> nat" where
  "hex_value ds = foldl (\<lambda>a c. 16 * a + hex_digit_val c) 0 ds"

definition trim :: "string \<Rightarrow> string" where
  "trim s = rev (dropWhile is_ws (rev (dropWhile is_ws s)))"

text \<open>\<open>s.split(',')\<close>: the pieces between the separators, at least one piece.\<close>

fun split_on :: "char \<Rightarrow> string \<Rightarrow> string \<Rightarrow> string list" where
  "split_on sep piece [] = [piece]"
| "split_on sep piece (c # cs) =
     (if c = sep then piece # split_on sep [] cs else split_on sep (piece @ [c]) cs)"

text \<open>
  \<open>parseFloat\<close>: skip leading white space, read the longest prefix that is a decimal
  literal (sign, \<open>Infinity\<close> or digits with an optional fraction and an optional exponent),
  and round its value to a double; \<open>NaN\<close> when there is no such prefix.
\<close>

definition parse_exponent :: "string \<Rightarrow> int" where
  "parse_exponent s =
     (case s of
        [] \<Rightarrow> 0
      | e # r \<Rightarrow>
          if e \<in> set ''eE'' then
            (let sg = (case r of [] \<Rightarrow> False | c # t \<Rightarrow> c = CHR ''-'');
                 r' = (case r of [] \<Rightarrow> r | c # t \<Rightarrow> if c \<in> set ''+-'' then t else r);
                 ds = takeWhile is_digit r'
             in if ds = [] then 0
                else if sg then - int (dec_value ds) else int (dec_value ds))
          else 0)"

definition parse_unsigned :: "string \<Rightarrow> jsnum" where
  "parse_unsigned s =
     (if prefix ''Infinity'' s then PInf
      else
        let ip = takeWhile is_digit s;
            r = dropWhile is_digit s;
            dot = (case r of [] \<Rightarrow> False | c # t \<Rightarrow> c = CHR ''.'');
            fp = (if dot then takeWhile is_digit (tl r) else []);
            r' = (if dot then dropWhile is_digit (tl r) else r)
        in if ip = [] \<and> fp = [] then NaN
           else fl (real (dec_value (ip @ fp)) * 10 powi (parse_exponent r' - int (length fp))))"

definition parseFloat :: "string \<Rightarrow> jsnum" where
  "parseFloat s =
     (case dropWhile is_ws s of
        [] \<Rightarrow> NaN
      | c # r \<Rightarrow>
          if c = CHR ''-'' then jneg (parse_unsigned r)
          else if c = CHR ''+'' then parse_unsigned r
          else parse_unsigned (c # r))"

text \<open>
  \<open>parseInt\<close> without a radix: white space, a sign, then hexadecimal digits after a
  \<open>0x\<close> prefix or else decimal digits; \<open>NaN\<close> when no digit follows.
\<close>

definition parse_int_unsigned :: "string \<Rightarrow> jsnum" where
  "parse_int_unsigned s =
     (if prefix ''0x'' s \<or> prefix ''0X'' s then
        (let ds = takeWhile is_hex_digit (drop 2 s)
         in if ds = [] then NaN else fl (real (hex_value ds)))
      else
        (let ds = takeWhile is_digit s
         in if ds = [] then NaN else fl (real (dec_value ds))))"

definition parseInt :: "string \<Rightarrow> jsnum" where
  "parseInt s =
     (case dropWhile is_ws s of
        [] \<Rightarrow> NaN
      | c # r \<Rightarrow>
          if c = CHR ''-'' then jneg (parse_int_unsigned r)
          else if c = CHR ''+'' then parse_int_unsigned r
          else parse_int_unsigned (c # r))"

section \<open>The element's attributes (index.ts lines 34-81, test.ts lines 33-76)\<close>

text \<open>
  \<open>getAttribute\<close> gives the raw string of an attribute or \<open>null\<close>.  The getters are read
  afresh at every use; \<open>a || d\<close> takes the default for \<open>null\<close> and for the empty string.
\<close>

type_synonym element = "string \<Rightarrow> string option"

definition getAttribute :: "element \<Rightarrow> string \<Rightarrow> string option" where
  "getAttribute el name = el name"

definition or_default :: "string option \<Rightarrow> string \<Rightarrow> string" where
  "or_default a d = (case a of None \<Rightarrow> d | Some s \<Rightarrow> if s = [] then d else s)"

definition waveColor :: "element \<Rightarrow> string" where
  "waveColor el = or_default (getAttribute el ''wave-color'') ''#1A237E''"

definition backgroundColor :: "element \<Rightarrow> string" where
  "backgroundColor el = or_default (getAttribute el ''background-color'') ''transparent''"

definition height :: "element \<Rightarrow> string" where
  "height el = or_default (getAttribute el ''height'') ''''"

definition speed :: "element \<Rightarrow> jsnum" where
  "speed el = parseFloat (or_default (getAttribute el ''speed'') ''1'')"

definition opacityRange :: "element \<Rightarrow> jsnum list" where
  "opacityRange el =
     (let range = or_default (getAttribute el ''opacity-range'') ''0.3,0.9''
      in map (\<lambda>v. parseFloat (trim v)) (split_on (CHR '','') [] range))"

definition waveCount :: "element \<Rightarrow> jsnum" where
  "waveCount el = parseInt (or_default (getAttribute el ''wave-count'') ''4'')"

definition animationStyle :: "element \<Rightarrow> string" where
  "animationStyle el = or_default (getAttribute el ''animation-style'') ''smooth''"

definition position :: "element \<Rightarrow> string" where
  "position el = or_default (getAttribute el ''position'') ''top''"

definition waveHeight :: "element \<Rightarrow> string" where
  "waveHeight el = or_default (getAttribute el ''wave-height'') ''100px''"

definition contentPadding :: "element \<Rightarrow> string" where
  "contentPadding el = or_default (getAttribute el ''content-padding'') ''20px''"

definition contentBackgroundColor :: "element \<Rightarrow> string" where
  "contentBackgroundColor el =
     or_default (getAttribute el ''content-background-color'') (waveColor el)"

definition responsive :: "element \<Rightarrow> bool" where
  "responsive el = (getAttribute el ''responsive'' \<noteq> Some ''false'')"

section \<open>Loops over the wave count\<close>

text \<open>
  The exception the loops can raise is the engine's \<open>RangeError: Invalid array length\<close>.
  The language allows an array \<open>2^32 - 1\<close> elements, but an array that grows by \<open>push\<close>
  meets the engine's own limit long before: V8 enlarges the backing store of such an array
  from \<open>c\<close> to \<open>(c + 1) + (c + 1) div 2 + 16\<close> elements (17, 43, 82, ...), and a backing
  store holds fewer than \<open>2^27\<close> elements.  The last size of that sequence below \<open>2^27\<close> is
  112,813,858; the next would be 169,220,804, so the push of element number 112,813,859
  raises.  \<open>array_limit\<close> is the number of elements that can be pushed.
\<close>

datatype error = RangeError

definition array_limit :: nat where
  "array_limit = 112813858"

text \<open>
  \<open>for (let i = 0; i < count; i++) { ...push... }\<close>: the number of rounds the loop makes,
  or \<open>None\<close> when a \<open>push\<close> raises first.  The counter takes the values \<open>0, 1, 2, ...\<close>,
  which are exact doubles; \<open>i < count\<close> is false at once for \<open>NaN\<close>.  A count above
  \<open>array_limit\<close> makes the loop push until the engine raises.
\<close>

fun loop_trips :: "jsnum \<Rightarrow> nat option" where
  "loop_trips (Fin c) =
     (if c \<le> 0 then Some 0
      else if c \<le> real array_limit then Some (nat \<lceil>c\<rceil>)
      else None)"
| "loop_trips PInf = None"
| "loop_trips _ = Some 0"

section \<open>getOpacities (index.ts lines 127-137)\<close>

text \<open>
  \<open>const [minOpacity, maxOpacity] = this.opacityRange\<close>: the first piece always exists;
  a missing second piece is \<open>undefined\<close>, which the subtraction turns into \<open>NaN\<close>.
\<close>

definition minOpacity_of :: "jsnum list \<Rightarrow> jsnum" where
  "minOpacity_of r = (case r of [] \<Rightarrow> NaN | a # _ \<Rightarrow> a)"

definition maxOpacity_of :: "jsnum list \<Rightarrow> jsnum" where
  "maxOpacity_of r = (case r of a # b # _ \<Rightarrow> b | _ \<Rightarrow> NaN)"

fun opacities_loop :: "jsnum \<Rightarrow> jsnum \<Rightarrow> nat \<Rightarrow> nat \<Rightarrow> jsnum list" where
  "opacities_loop minOpacity step 0 i = []"
| "opacities_loop minOpacity step (Suc k) i =
     jadd minOpacity (jmul step (Fin (real i))) # opacities_loop minOpacity step k (Suc i)"

definition getOpacities :: "element \<Rightarrow> error + jsnum list" where
  "getOpacities el =
     (let minOpacity = minOpacity_of (opacityRange el);
          maxOpacity = maxOpacity_of (opacityRange el);
          count = waveCount el;
          step = jdiv (jsub maxOpacity minOpacity) (jsub count (dbl 1))
      in case loop_trips count of
           None \<Rightarrow> Inl RangeError
         | Some n \<Rightarrow> Inr (opacities_loop minOpacity step n 0))"

section \<open>Number to string\<close>

text \<open>
  A template literal prints a Number by \<open>Number::toString\<close>.  Its results for \<open>NaN\<close>, the
  zeros and the infinities are fixed; the shortest round-trip decimal of any other value is
  the engine's work and is taken as the parameter \<open>nts\<close>.  \<open>decimal_output\<close> is what the
  results say of it: only digits, the point, the sign and the exponent marker occur, and
  there are at most 25 characters (a sign, \<open>0.\<close>, five zeros and 17 digits).
\<close>

definition num_to_string :: "(real \<Rightarrow> string) \<Rightarrow> jsnum \<Rightarrow> string" where
  "num_to_string nts x =
     (case x of
        Fin r \<Rightarrow> if r = 0 then ''0'' else nts r
      | NZ \<Rightarrow> ''0''
      | PInf \<Rightarrow> ''Infinity''
      | NInf \<Rightarrow> ''-Infinity''
      | NaN \<Rightarrow> ''NaN'')"

definition decimal_output :: "(real \<Rightarrow> string) \<Rightarrow> bool" where
  "decimal_output nts =
     (\<forall>r. set (nts r) \<subseteq> set ''0123456789.e+-'' \<and> length (nts r) \<le> 25)"

text \<open>\<open>${xs[i]}\<close>: an index past the end reads \<open>undefined\<close>.\<close>

definition show_index :: "(real \<Rightarrow> string) \<Rightarrow> jsnum list \<Rightarrow> nat \<Rightarrow> string" where
  "show_index nts xs i = (if i < length xs then num_to_string nts (xs ! i) else ''undefined'')"

section \<open>The random source\<close>

text \<open>
  \<open>Math.random()\<close> is a stream of draws, read in order; each draw is a Number in
  \<open>[0, 1)\<close>.  Every function that draws returns the rest of the stream.
\<close>

type_synonym rand = "nat \<Rightarrow> real"

definition random :: "rand \<Rightarrow> jsnum \<times> rand" where
  "random rs = (Fin (rs 0), \<lambda>n. rs (Suc n))"

definition unit_draws :: "rand \<Rightarrow> bool" where
  "unit_draws rs = (\<forall>n. 0 \<le> rs n \<and> rs n < 1)"

section \<open>getAnimationDurations (index.ts lines 100-113)\<close>

fun durations_loop :: "jsnum \<Rightarrow> nat \<Rightarrow> nat \<Rightarrow> rand \<Rightarrow> jsnum list \<times> rand" where
  "durations_loop baseSpeed 0 i rs = ([], rs)"
| "durations_loop baseSpeed (Suc k) i rs =
     (let baseDuration = jadd (dbl 15) (jmul (Fin (real i)) (dbl 8));
          (r, rs1) = random rs;
          randomVariation = jmul (jsub r (dbl 0.5)) (dbl 10);
          finalDuration = jdiv (jadd baseDuration randomVariation) baseSpeed;
          d = jmax (jdiv (dbl 10) baseSpeed) finalDuration;
          (ds, rs2) = durations_loop baseSpeed k (Suc i) rs1
      in (d # ds, rs2))"

definition getAnimationDurations :: "element \<Rightarrow> rand \<Rightarrow> error + (jsnum list \<times> rand)" where
  "getAnimationDurations el rs =
     (let baseSpeed = speed el;
          count = waveCount el
      in case loop_trips count of
           None \<Rightarrow> Inl RangeError
         | Some n \<Rightarrow> Inr (durations_loop baseSpeed n 0 rs))"

section \<open>getAnimationDelays (index.ts lines 115-125)\<close>

fun delays_loop :: "nat \<Rightarrow> rand \<Rightarrow> jsnum list \<times> rand" where
  "delays_loop 0 rs = ([], rs)"
| "delays_loop (Suc k) rs =
     (let (r, rs1) = random rs;
          randomDelay = jneg (jmul r (dbl 30));
          (ds, rs2) = delays_loop k rs1
      in (randomDelay # ds, rs2))"

definition getAnimationDelays :: "element \<Rightarrow> rand \<Rightarrow> error + (jsnum list \<times> rand)" where
  "getAnimationDelays el rs =
     (let count = waveCount el
      in case loop_trips count of
           None \<Rightarrow> Inl RangeError
         | Some n \<Rightarrow> Inr (delays_loop n rs))"

section \<open>getEasing (index.ts lines 139-148)\<close>

text \<open>
  \<open>styles[key]\<close> reads a property of an object literal: its own five properties first,
  then what every object inherits from \<open>Object.prototype\<close> (eleven built-in functions and
  the \<open>__proto__\<close> accessor, which yields the prototype object); \<open>None\<close> is \<open>undefined\<close>.
  A function and an object are truthy, so \<open>||\<close> keeps them.
\<close>

datatype jsvalue = Str string | NativeFunction string | PrototypeObject

definition easing_styles :: "(string \<times> string) list" where
  "easing_styles =
     [(''smooth'', ''cubic-bezier(.4,0,.2,1)''),
      (''linear'', ''linear''),
      (''ease-in-out'', ''ease-in-out''),
      (''bouncy'', ''cubic-bezier(.68,-0.55,.265,1.55)''),
      (''gentle'', ''cubic-bezier(.25,.46,.45,.94)'')]"

definition object_prototype_functions :: "(string \<times> string) list" where
  "object_prototype_functions =
     [(''constructor'', ''Object''),
      (''__defineGetter__'', ''__defineGetter__''),
      (''__defineSetter__'', ''__defineSetter__''),
      (''hasOwnProperty'', ''hasOwnProperty''),
      (''__lookupGetter__'', ''__lookupGetter__''),
      (''__lookupSetter__'', ''__lookupSetter__''),
      (''isPrototypeOf'', ''isPrototypeOf''),
      (''propertyIsEnumerable'', ''propertyIsEnumerable''),
      (''toString'', ''toString''),
      (''valueOf'', ''valueOf''),
      (''toLocaleString'', ''toLocaleString'')]"

definition get_property :: "(string \<times> string) list \<Rightarrow> string \<Rightarrow> jsvalue option" where
  "get_property obj key =
     (case map_of obj key of
        Some s \<Rightarrow> Some (Str s)
      | None \<Rightarrow>
          (case map_of object_prototype_functions key of
             Some f \<Rightarrow> Some (NativeFunction f)
           | None \<Rightarrow> if key = ''__proto__'' then Some PrototypeObject else None))"

definition truthy :: "jsvalue option \<Rightarrow> bool" where
  "truthy v = (v \<noteq> None \<and> v \<noteq> Some (Str []))"

definition getEasing :: "element \<Rightarrow> jsvalue" where
  "getEasing el =
     (let styles = easing_styles
      in if truthy (get_property styles (animationStyle el))
         then the (get_property styles (animationStyle el))
         else the (get_property styles ''smooth''))"

text \<open>How a template literal prints such a value (a built-in function prints its native stub).\<close>

definition value_to_string :: "jsvalue \<Rightarrow> string" where
  "value_to_string v =
     (case v of
        Str s \<Rightarrow> s
      | NativeFunction f \<Rightarrow> ''function '' @ f @ ''() { [native code] }''
      | PrototypeObject \<Rightarrow> ''[object Object]'')"

section \<open>The length of a string\<close>

text \<open>
  The engine (V8) holds strings of at most \<open>2^29 - 24\<close> characters; an operation that would
  build a longer one raises \<open>RangeError: Invalid string length\<close>.  A string that
  \<open>createWaveSection\<close> or \<open>render\<close> builds is either cut from an attribute value, or the
  print of a Number, or a part of the markup or of the style text that is returned, so the
  limit is tested on what is returned.
\<close>

definition string_limit :: nat where
  "string_limit = 2 ^ 29 - 24"

section \<open>createWaveSection (index.ts lines 150-191)\<close>

text \<open>
  \<open>Array.from({ length: count }, f)\<close>: the length is the count truncated to an integer,
  \<open>0\<close> for \<open>NaN\<close> and for negative counts; the language refuses a length beyond
  \<open>2^32 - 1\<close>.  In \<open>createWaveSection\<close> the call comes after the three loops, so it is
  reached only for a count that is within \<open>array_limit\<close>.
\<close>

definition array_length_max :: nat where
  "array_length_max = 2 ^ 32 - 1"

fun array_from_length :: "jsnum \<Rightarrow> nat option" where
  "array_from_length (Fin c) =
     (if c < 1 then Some 0
      else if \<lfloor>c\<rfloor> \<le> int array_length_max then Some (nat \<lfloor>c\<rfloor>)
      else None)"
| "array_from_length PInf = None"
| "array_from_length _ = Some 0"

record wave_section =
  html :: string
  styles :: string

definition wave_use :: "(real \<Rightarrow> string) \<Rightarrow> jsnum \<Rightarrow> jsnum \<Rightarrow> string" where
  \<open>wave_use nts randomX randomY =
    concat
      [''<use xlink:href="#gentle-wave" x="'',
       num_to_string nts randomX,
       ''" y="'',
       num_to_string nts randomY,
       ''" />'']\<close>

fun wave_elements :: "(real \<Rightarrow> string) \<Rightarrow> nat \<Rightarrow> nat \<Rightarrow> rand \<Rightarrow> string list \<times> rand" where
  "wave_elements nts 0 i rs = ([], rs)"
| "wave_elements nts (Suc k) i rs =
     (let (r1, rs1) = random rs;
          randomX = jadd (dbl 48) (jmul (jsub r1 (dbl 0.5)) (dbl 20));
          (r2, rs2) = random rs1;
          randomY = jadd (jmul (Fin (real i)) (dbl 2)) (jmul (jsub r2 (dbl 0.5)) (dbl 4));
          (es, rs3) = wave_elements nts k (Suc i) rs2
      in (wave_use nts randomX randomY # es, rs3))"

definition wave_style ::
  "(real \<Rightarrow> string) \<Rightarrow> element \<Rightarrow> bool \<Rightarrow> jsnum list \<Rightarrow> jsnum list \<Rightarrow> jsnum list \<Rightarrow> nat \<Rightarrow> string" where
  \<open>wave_style nts el isBottom durations delays opacities i =
    (let animationName =
           ''wave-animation-'' @ num_to_string nts (jadd (Fin (real (i mod 4))) (dbl 1));
         sectionClass = (if isBottom then ''bottom-waves'' else ''top-waves'')
     in concat
         [''\<newline>'',
          ''        .'',
          sectionClass,
          '' .parallax use:nth-child('',
          num_to_string nts (jadd (Fin (real i)) (dbl 1)),
          '') {\<newline>'',
          ''          fill: '',
          waveColor el,
          '';\<newline>'',
          ''          opacity: '',
          show_index nts opacities i,
          '';\<newline>'',
          ''          animation: '',
          animationName,
          '' '',
          show_index nts durations i,
          ''s '',
          value_to_string (getEasing el),
          '' infinite;\<newline>'',
          ''          animation-delay: '',
          show_index nts delays i,
          ''s;\<newline>'',
          ''        }\<newline>'',
          ''      ''])\<close>

definition section_html :: "bool \<Rightarrow> string \<Rightarrow> string \<Rightarrow> string" where
  \<open>section_html isBottom transformRotation waveElements =
    concat
      [''\<newline>'',
       ''        <div class="wave-section '',
       (if isBottom then ''bottom-waves'' else ''top-waves''),
       ''">\<newline>'',
       ''          <svg class="waves" xmlns="http://www.w3.org/2000/svg" xmlns:xlink="http://www.w3.org/1999/xlink"\<newline>'',
       ''          viewBox="0 24 150 28" preserveAspectRatio="none" style="'',
       transformRotation,
       ''">\<newline>'',
       ''            <defs>\<newline>'',
       ''              <path id="gentle-wave" d="M-320 44c30 0 58-18 88-18s 58 18 88 18 58-18 88-18 58 18 88 18 58-18 88-18s 58 18 88 18 58-18 88-18 58 18 88 18 v44h-704z" />\<newline>'',
       ''            </defs>\<newline>'',
       ''            <g class="parallax">\<newline>'',
       ''              '',
       waveElements,
       ''\<newline>'',
       ''            </g>\<newline>'',
       ''          </svg>\<newline>'',
       ''        </div>\<newline>'',
       ''      '']\<close>

definition createWaveSection ::
  "(real \<Rightarrow> string) \<Rightarrow> element \<Rightarrow> bool \<Rightarrow> rand \<Rightarrow> error + (wave_section \<times> rand)" where
  "createWaveSection nts el isBottom rs =
     (case getAnimationDurations el rs of
        Inl e \<Rightarrow> Inl e
      | Inr (durations, rs1) \<Rightarrow>
     (case getAnimationDelays el rs1 of
        Inl e \<Rightarrow> Inl e
      | Inr (delays, rs2) \<Rightarrow>
     (case getOpacities el of
        Inl e \<Rightarrow> Inl e
      | Inr opacities \<Rightarrow>
     (case array_from_length (waveCount el) of
        None \<Rightarrow> Inl RangeError
      | Some n \<Rightarrow>
          (let transformRotation = (if isBottom then ''transform: rotate(180deg);'' else '''');
               (elems, rs3) = wave_elements nts n 0 rs2;
               waveElements = concat elems;
               waveStyles =
                 concat (map (wave_style nts el isBottom durations delays opacities) [0..<n]);
               sectionHtml = section_html isBottom transformRotation waveElements
           in if length sectionHtml \<le> string_limit \<and> length waveStyles \<le> string_limit
              then Inr (\<lparr>html = sectionHtml, styles = waveStyles\<rparr>, rs3)
              else Inl RangeError)))))"

section \<open>getResponsiveWaveHeight (index.ts lines 83-98)\<close>

record breakpoints =
  base :: string
  mobile :: string
  tablet :: string
  desktop :: string

datatype heights = HeightString string | HeightObject breakpoints

definition getResponsiveWaveHeight :: "(real \<Rightarrow> string) \<Rightarrow> element \<Rightarrow> heights" where
  "getResponsiveWaveHeight nts el =
     (if \<not> responsive el then HeightString (waveHeight el)
      else
        let baseHeight = parseFloat (waveHeight el);
            unit = filter (\<lambda>c. c \<notin> set ''0123456789.'') (waveHeight el)
        in HeightObject
             \<lparr>base = waveHeight el,
              mobile = num_to_string nts (jmax (jmul baseHeight (dbl 0.6)) (dbl 40)) @ unit,
              tablet = num_to_string nts (jmax (jmul baseHeight (dbl 0.8)) (dbl 60)) @ unit,
              desktop = waveHeight el\<rparr>)"

section \<open>render (index.ts lines 193-331)\<close>

text \<open>\<open>s.replace(/(\d+)/g, f)\<close>: every maximal run of decimal digits is replaced by \<open>f\<close> of it.\<close>

fun replace_runs :: "(string \<Rightarrow> string) \<Rightarrow> string \<Rightarrow> string \<Rightarrow> string" where
  "replace_runs f run [] = (if run = [] then [] else f run)"
| "replace_runs f run (c # cs) =
     (if is_digit c then replace_runs f (run @ [c]) cs
      else (if run = [] then [] else f run) @ c # replace_runs f [] cs)"

definition replace_digit_runs :: "(string \<Rightarrow> string) \<Rightarrow> string \<Rightarrow> string" where
  "replace_digit_runs f s = replace_runs f [] s"

definition content_section :: string where
  \<open>content_section =
    concat
      [''\<newline>'',
       ''        <div class="content-section">\<newline>'',
       ''          <slot></slot>\<newline>'',
       ''        </div>\<newline>'',
       ''      '']\<close>

text \<open>The breakpoint overrides of lines 290-319: three media rules, or nothing.\<close>

definition responsive_block :: "(real \<Rightarrow> string) \<Rightarrow> element \<Rightarrow> heights \<Rightarrow> string" where
  \<open>responsive_block nts el responsiveHeights =
    (case responsiveHeights of
       HeightString s \<Rightarrow> ''''
     | HeightObject h \<Rightarrow>
         if responsive el then
           concat
             [''\<newline>'',
              ''          /* Mobile styles */\<newline>'',
              ''          @media (max-width: 768px) {\<newline>'',
              ''            .wave-section {\<newline>'',
              ''              height: '',
              mobile h,
              '';\<newline>'',
              ''            }\<newline>'',
              ''            \<newline>'',
              ''            .content-section {\<newline>'',
              ''              padding: '',
              replace_digit_runs (\<lambda>match. num_to_string nts (jmax (jmul (parseInt match) (dbl 0.7)) (dbl 10))) (contentPadding el),
              '';\<newline>'',
              ''            }\<newline>'',
              ''          }\<newline>'',
              ''          \<newline>'',
              ''          /* Tablet styles */\<newline>'',
              ''          @media (min-width: 769px) and (max-width: 1024px) {\<newline>'',
              ''            .wave-section {\<newline>'',
              ''              height: '',
              tablet h,
              '';\<newline>'',
              ''            }\<newline>'',
              ''          }\<newline>'',
              ''          \<newline>'',
              ''          /* Small mobile styles */\<newline>'',
              ''          @media (max-width: 480px) {\<newline>'',
              ''            .wave-section {\<newline>'',
              ''              height: '',
              mobile h,
              '';\<newline>'',
              ''            }\<newline>'',
              ''            \<newline>'',
              ''            .content-section {\<newline>'',
              ''              padding: '',
              replace_digit_runs (\<lambda>match. num_to_string nts (jmax (jmul (parseInt match) (dbl 0.5)) (dbl 8))) (contentPadding el),
              '';\<newline>'',
              ''            }\<newline>'',
              ''          }\<newline>'',
              ''        '']
         else '''')\<close>

definition empty_section :: wave_section where
  "empty_section = \<lparr>html = '''', styles = ''''\<rparr>"

text \<open>
  The result is the string assigned to \<open>shadowRoot.innerHTML\<close>, or the \<open>RangeError\<close> of a
  loop or of a string too long.
\<close>

text \<open>The template literal of lines 223-330, as a function of what it interpolates.\<close>

definition render_template ::
  "(real \<Rightarrow> string) \<Rightarrow> element \<Rightarrow> string \<Rightarrow> wave_section \<Rightarrow> wave_section \<Rightarrow> string \<Rightarrow> string \<Rightarrow> heights \<Rightarrow> string" where
  \<open>render_template nts el pos topWaves bottomWaves contentSection containerHeight responsiveHeights =
    concat
     [''\<newline>'',
      ''      <style>\<newline>'',
      ''        :host {\<newline>'',
      ''          display: block;\<newline>'',
      ''          width: 100%;\<newline>'',
      ''        }\<newline>'',
      ''        \<newline>'',
      ''        .container {\<newline>'',
      ''          background: '',
      backgroundColor el,
      '';\<newline>'',
      ''          width: 100%;\<newline>'',
      ''          height: '',
      containerHeight,
      '';\<newline>'',
      ''          min-height: '',
      (if pos = ''both'' then ''auto'' else ''100px''),
      '';\<newline>'',
      ''          overflow: hidden;\<newline>'',
      ''          display: flex;\<newline>'',
      ''          flex-direction: column;\<newline>'',
      ''        }\<newline>'',
      ''\<newline>'',
      ''        .wave-section {\<newline>'',
      ''          width: 100%;\<newline>'',
      ''          height: '',
      (case responsiveHeights of HeightString s \<Rightarrow> s | HeightObject h \<Rightarrow> desktop h),
      '';\<newline>'',
      ''          overflow: hidden;\<newline>'',
      ''          flex-shrink: 0;\<newline>'',
      ''        }\<newline>'',
      ''\<newline>'',
      ''        .content-section {\<newline>'',
      ''          flex: 1;\<newline>'',
      ''          padding: '',
      contentPadding el,
      '';\<newline>'',
      ''          background: '',
      contentBackgroundColor el,
      '';\<newline>'',
      ''          display: flex;\<newline>'',
      ''          flex-direction: column;\<newline>'',
      ''          justify-content: center;\<newline>'',
      ''          align-items: center;\<newline>'',
      ''          min-height: 0;\<newline>'',
      ''        }\<newline>'',
      ''\<newline>'',
      ''        .waves {\<newline>'',
      ''          position: relative;\<newline>'',
      ''          display: block;\<newline>'',
      ''          width: 100%;\<newline>'',
      ''          height: 100%;\<newline>'',
      ''          transform: translateZ(0);\<newline>'',
      ''          will-change: transform;\<newline>'',
      ''        }\<newline>'',
      ''\<newline>'',
      ''        @keyframes wave-animation-1 {\<newline>'',
      ''          0% { transform: translateX(-90px) translateZ(0); }\<newline>'',
      ''          100% { transform: translateX(85px) translateZ(0); }\<newline>'',
      ''        }\<newline>'',
      ''        @keyframes wave-animation-2 {\<newline>'',
      ''          0% { transform: translateX(-85px) translateZ(0); }\<newline>'',
      ''          100% { transform: translateX(90px) translateZ(0); }\<newline>'',
      ''        }\<newline>'',
      ''        @keyframes wave-animation-3 {\<newline>'',
      ''          0% { transform: translateX(-100px) translateZ(0); }\<newline>'',
      ''          100% { transform: translateX(75px) translateZ(0); }\<newline>'',
      ''        }\<newline>'',
      ''        @keyframes wave-animation-4 {\<newline>'',
      ''          0% { transform: translateX(-80px) translateZ(0); }\<newline>'',
      ''          100% { transform: translateX(95px) translateZ(0); }\<newline>'',
      ''        }\<newline>'',
      ''\<newline>'',
      ''        .parallax use {\<newline>'',
      ''          will-change: transform;\<newline>'',
      ''          transform: translateZ(0);\<newline>'',
      ''          backface-visibility: hidden;\<newline>'',
      ''        }\<newline>'',
      ''\<newline>'',
      ''        '',
      responsive_block nts el responsiveHeights,
      ''\<newline>'',
      ''\<newline>'',
      ''        '',
      styles topWaves,
      ''\<newline>'',
      ''        '',
      styles bottomWaves,
      ''\<newline>'',
      ''      </style>\<newline>'',
      ''      \<newline>'',
      ''      <div class="container">\<newline>'',
      ''        '',
      html topWaves,
      ''\<newline>'',
      ''        '',
      contentSection,
      ''\<newline>'',
      ''        '',
      html bottomWaves,
      ''\<newline>'',
      ''      </div>\<newline>'',
      ''    '']\<close>

definition render :: "(real \<Rightarrow> string) \<Rightarrow> element \<Rightarrow> rand \<Rightarrow> error + (string \<times> rand)" where
  \<open>render nts el rs =
    (let position = position el
     in case (if position = ''top'' \<or> position = ''both''
              then createWaveSection nts el False rs else Inr (empty_section, rs)) of
          Inl e \<Rightarrow> Inl e
        | Inr (topWaves, rs1) \<Rightarrow>
       (case (if position = ''bottom'' \<or> position = ''both''
              then createWaveSection nts el True rs1 else Inr (empty_section, rs1)) of
          Inl e \<Rightarrow> Inl e
        | Inr (bottomWaves, rs2) \<Rightarrow>
            (let contentSection = (if position = ''both'' then content_section else '''');
                 containerHeight = (if position = ''both'' then ''auto'' else height el);
                 responsiveHeights = getResponsiveWaveHeight nts el;
                 innerHTML = render_template nts el position topWaves bottomWaves contentSection
                               containerHeight responsiveHeights
             in if length innerHTML \<le> string_limit then Inr (innerHTML, rs2)
                else Inl RangeError)))\<close>

section \<open>The earlier variant (test.ts)\<close>

text \<open>
  test.ts has the same getters except \<open>responsive\<close>, its own copies of the four parameter
  generators, a wave section whose view box follows the wave height, and a render without
  breakpoint overrides.  Its definitions carry the suffix \<open>_t\<close>.
\<close>

fun durations_loop_t :: "jsnum \<Rightarrow> nat \<Rightarrow> nat \<Rightarrow> rand \<Rightarrow> jsnum list \<times> rand" where
  "durations_loop_t baseSpeed 0 i rs = ([], rs)"
| "durations_loop_t baseSpeed (Suc k) i rs =
     (let baseDuration = jadd (dbl 15) (jmul (Fin (real i)) (dbl 8));
          (r, rs1) = random rs;
          randomVariation = jmul (jsub r (dbl 0.5)) (dbl 10);
          finalDuration = jdiv (jadd baseDuration randomVariation) baseSpeed;
          d = jmax (jdiv (dbl 10) baseSpeed) finalDuration;
          (ds, rs2) = durations_loop_t baseSpeed k (Suc i) rs1
      in (d # ds, rs2))"

definition getAnimationDurations_t :: "element \<Rightarrow> rand \<Rightarrow> error + (jsnum list \<times> rand)" where
  "getAnimationDurations_t el rs =
     (let baseSpeed = speed el;
          count = waveCount el
      in case loop_trips count of
           None \<Rightarrow> Inl RangeError
         | Some n \<Rightarrow> Inr (durations_loop_t baseSpeed n 0 rs))"

fun delays_loop_t :: "nat \<Rightarrow> rand \<Rightarrow> jsnum list \<times> rand" where
  "delays_loop_t 0 rs = ([], rs)"
| "delays_loop_t (Suc k) rs =
     (let (r, rs1) = random rs;
          randomDelay = jneg (jmul r (dbl 30));
          (ds, rs2) = delays_loop_t k rs1
      in (randomDelay # ds, rs2))"

definition getAnimationDelays_t :: "element \<Rightarrow> rand \<Rightarrow> error + (jsnum list \<times> rand)" where
  "getAnimationDelays_t el rs =
     (let count = waveCount el
      in case loop_trips count of
           None \<Rightarrow> Inl RangeError
         | Some n \<Rightarrow> Inr (delays_loop_t n rs))"

fun opacities_loop_t :: "jsnum \<Rightarrow> jsnum \<Rightarrow> nat \<Rightarrow> nat \<Rightarrow> jsnum list" where
  "opacities_loop_t minOpacity step 0 i = []"
| "opacities_loop_t minOpacity step (Suc k) i =
     jadd minOpacity (jmul step (Fin (real i))) # opacities_loop_t minOpacity step k (Suc i)"

definition getOpacities_t :: "element \<Rightarrow> error + jsnum list" where
  "getOpacities_t el =
     (let minOpacity = minOpacity_of (opacityRange el);
          maxOpacity = maxOpacity_of (opacityRange el);
          count = waveCount el;
          step = jdiv (jsub maxOpacity minOpacity) (jsub count (dbl 1))
      in case loop_trips count of
           None \<Rightarrow> Inl RangeError
         | Some n \<Rightarrow> Inr (opacities_loop_t minOpacity step n 0))"

definition easing_styles_t :: "(string \<times> string) list" where
  "easing_styles_t =
     [(''smooth'', ''cubic-bezier(.4,0,.2,1)''),
      (''linear'', ''linear''),
      (''ease-in-out'', ''ease-in-out''),
      (''bouncy'', ''cubic-bezier(.68,-0.55,.265,1.55)''),
      (''gentle'', ''cubic-bezier(.25,.46,.45,.94)'')]"

definition getEasing_t :: "element \<Rightarrow> jsvalue" where
  "getEasing_t el =
     (let styles = easing_styles_t
      in if truthy (get_property styles (animationStyle el))
         then the (get_property styles (animationStyle el))
         else the (get_property styles ''smooth''))"

definition wave_use_t :: "(real \<Rightarrow> string) \<Rightarrow> jsnum \<Rightarrow> jsnum \<Rightarrow> string" where
  \<open>wave_use_t nts randomX randomY =
    concat
      [''<use xlink:href="#gentle-wave" x="'',
       num_to_string nts randomX,
       ''" y="'',
       num_to_string nts randomY,
       ''" />'']\<close>

fun wave_elements_t ::
  "(real \<Rightarrow> string) \<Rightarrow> jsnum \<Rightarrow> jsnum \<Rightarrow> nat \<Rightarrow> nat \<Rightarrow> rand \<Rightarrow> string list \<times> rand" where
  "wave_elements_t nts viewBoxWidth viewBoxHeight 0 i rs = ([], rs)"
| "wave_elements_t nts viewBoxWidth viewBoxHeight (Suc k) i rs =
     (let (r1, rs1) = random rs;
          randomX = jadd (jmul viewBoxWidth (dbl 0.32))
                      (jmul (jsub r1 (dbl 0.5)) (jmul viewBoxWidth (dbl 0.13)));
          (r2, rs2) = random rs1;
          randomY = jadd (jmul (Fin (real i)) (jmul viewBoxHeight (dbl 0.025)))
                      (jmul (jsub r2 (dbl 0.5)) (jmul viewBoxHeight (dbl 0.05)));
          (es, rs3) = wave_elements_t nts viewBoxWidth viewBoxHeight k (Suc i) rs2
      in (wave_use_t nts randomX randomY # es, rs3))"

definition wave_style_t ::
  "(real \<Rightarrow> string) \<Rightarrow> element \<Rightarrow> bool \<Rightarrow> jsnum list \<Rightarrow> jsnum list \<Rightarrow> jsnum list \<Rightarrow> nat \<Rightarrow> string" where
  \<open>wave_style_t nts el isBottom durations delays opacities i =
    (let animationName =
           ''wave-animation-'' @ num_to_string nts (jadd (Fin (real (i mod 4))) (dbl 1));
         sectionClass = (if isBottom then ''bottom-waves'' else ''top-waves'')
     in concat
         [''\<newline>'',
          ''        .'',
          sectionClass,
          '' .parallax use:nth-child('',
          num_to_string nts (jadd (Fin (real i)) (dbl 1)),
          '') {\<newline>'',
          ''          fill: '',
          waveColor el,
          '';\<newline>'',
          ''          opacity: '',
          show_index nts opacities i,
          '';\<newline>'',
          ''          animation: '',
          animationName,
          '' '',
          show_index nts durations i,
          ''s '',
          value_to_string (getEasing_t el),
          '' infinite;\<newline>'',
          ''          animation-delay: '',
          show_index nts delays i,
          ''s;\<newline>'',
          ''        }\<newline>'',
          ''      ''])\<close>

definition section_html_t ::
  "(real \<Rightarrow> string) \<Rightarrow> bool \<Rightarrow> string \<Rightarrow> jsnum \<Rightarrow> jsnum \<Rightarrow> jsnum \<Rightarrow> jsnum \<Rightarrow> string \<Rightarrow> string" where
  \<open>section_html_t nts isBottom transformRotation viewBoxWidth viewBoxHeight waveBaseline
      waveAmplitude waveElements =
    concat
      [''\<newline>'',
       ''        <div class="wave-section '',
       (if isBottom then ''bottom-waves'' else ''top-waves''),
       ''">\<newline>'',
       ''          <svg class="waves" xmlns="http://www.w3.org/2000/svg" xmlns:xlink="http://www.w3.org/1999/xlink"\<newline>'',
       ''          viewBox="0 0 '',
       num_to_string nts viewBoxWidth,
       '' '',
       num_to_string nts viewBoxHeight,
       ''" preserveAspectRatio="none" style="'',
       transformRotation,
       ''">\<newline>'',
       ''            <defs>\<newline>'',
       ''              <path id="gentle-wave" d="M-'',
       num_to_string nts (jmul viewBoxWidth (dbl 2.13)),
       '' '',
       num_to_string nts waveBaseline,
       ''c'',
       num_to_string nts (jmul viewBoxWidth (dbl 0.2)),
       '' 0 '',
       num_to_string nts (jmul viewBoxWidth (dbl 0.39)),
       ''-'',
       num_to_string nts waveAmplitude,
       '' '',
       num_to_string nts (jmul viewBoxWidth (dbl 0.59)),
       ''-'',
       num_to_string nts waveAmplitude,
       ''s '',
       num_to_string nts (jmul viewBoxWidth (dbl 0.39)),
       '' '',
       num_to_string nts waveAmplitude,
       '' '',
       num_to_string nts (jmul viewBoxWidth (dbl 0.59)),
       '' '',
       num_to_string nts waveAmplitude,
       '' '',
       num_to_string nts (jmul viewBoxWidth (dbl 0.39)),
       ''-'',
       num_to_string nts waveAmplitude,
       '' '',
       num_to_string nts (jmul viewBoxWidth (dbl 0.59)),
       ''-'',
       num_to_string nts waveAmplitude,
       '' '',
       num_to_string nts (jmul viewBoxWidth (dbl 0.39)),
       '' '',
       num_to_string nts waveAmplitude,
       '' '',
       num_to_string nts (jmul viewBoxWidth (dbl 0.59)),
       '' '',
       num_to_string nts waveAmplitude,
       '' '',
       num_to_string nts (jmul viewBoxWidth (dbl 0.39)),
       ''-'',
       num_to_string nts waveAmplitude,
       '' '',
       num_to_string nts (jmul viewBoxWidth (dbl 0.59)),
       ''-'',
       num_to_string nts waveAmplitude,
       ''s '',
       num_to_string nts (jmul viewBoxWidth (dbl 0.39)),
       '' '',
       num_to_string nts waveAmplitude,
       '' '',
       num_to_string nts (jmul viewBoxWidth (dbl 0.59)),
       '' '',
       num_to_string nts waveAmplitude,
       '' '',
       num_to_string nts (jmul viewBoxWidth (dbl 0.39)),
       ''-'',
       num_to_string nts waveAmplitude,
       '' '',
       num_to_string nts (jmul viewBoxWidth (dbl 0.59)),
       ''-'',
       num_to_string nts waveAmplitude,
       '' '',
       num_to_string nts (jmul viewBoxWidth (dbl 0.39)),
       '' '',
       num_to_string nts waveAmplitude,
       '' '',
       num_to_string nts (jmul viewBoxWidth (dbl 0.59)),
       '' '',
       num_to_string nts waveAmplitude,
       '' v'',
       num_to_string nts (jsub viewBoxHeight waveBaseline),
       ''h-'',
       num_to_string nts (jmul viewBoxWidth (dbl 4.69)),
       ''z" />\<newline>'',
       ''            </defs>\<newline>'',
       ''            <g class="parallax">\<newline>'',
       ''              '',
       waveElements,
       ''\<newline>'',
       ''            </g>\<newline>'',
       ''          </svg>\<newline>'',
       ''        </div>\<newline>'',
       ''      '']\<close>

definition createWaveSection_t ::
  "(real \<Rightarrow> string) \<Rightarrow> element \<Rightarrow> bool \<Rightarrow> rand \<Rightarrow> error + (wave_section \<times> rand)" where
  "createWaveSection_t nts el isBottom rs =
     (case getAnimationDurations_t el rs of
        Inl e \<Rightarrow> Inl e
      | Inr (durations, rs1) \<Rightarrow>
     (case getAnimationDelays_t el rs1 of
        Inl e \<Rightarrow> Inl e
      | Inr (delays, rs2) \<Rightarrow>
     (case getOpacities_t el of
        Inl e \<Rightarrow> Inl e
      | Inr opacities \<Rightarrow>
     (case array_from_length (waveCount el) of
        None \<Rightarrow> Inl RangeError
      | Some n \<Rightarrow>
          (let transformRotation = (if isBottom then ''transform: rotate(180deg);'' else '''');
               waveHeightValue = parseFloat (waveHeight el);
               viewBoxHeight = jmax (dbl 20) (jmul waveHeightValue (dbl 0.3));
               viewBoxWidth = jmax (dbl 100) (jmul viewBoxHeight (dbl 3.75));
               waveBaseline = jmul viewBoxHeight (dbl 0.7);
               waveAmplitude = jmax (dbl 8) (jmul viewBoxHeight (dbl 0.25));
               (elems, rs3) = wave_elements_t nts viewBoxWidth viewBoxHeight n 0 rs2;
               waveElements = concat elems;
               waveStyles =
                 concat (map (wave_style_t nts el isBottom durations delays opacities) [0..<n]);
               sectionHtml = section_html_t nts isBottom transformRotation viewBoxWidth
                               viewBoxHeight waveBaseline waveAmplitude waveElements
           in if length sectionHtml \<le> string_limit \<and> length waveStyles \<le> string_limit
              then Inr (\<lparr>html = sectionHtml, styles = waveStyles\<rparr>, rs3)
              else Inl RangeError)))))"

definition content_section_t :: string where
  \<open>content_section_t =
    concat
      [''\<newline>'',
       ''        <div class="content-section">\<newline>'',
       ''          <slot></slot>\<newline>'',
       ''        </div>\<newline>'',
       ''      '']\<close>

text \<open>The template literal of test.ts lines 209-285, as a function of what it interpolates.\<close>

definition render_template_t ::
  "(real \<Rightarrow> string) \<Rightarrow> element \<Rightarrow> string \<Rightarrow> wave_section \<Rightarrow> wave_section \<Rightarrow> string \<Rightarrow> string \<Rightarrow> string" where
  \<open>render_template_t nts el pos topWaves bottomWaves contentSection containerHeight =
    concat
     [''\<newline>'',
      ''      <style>\<newline>'',
      ''        :host {\<newline>'',
      ''          display: block;\<newline>'',
      ''          width: 100%;\<newline>'',
      ''        }\<newline>'',
      ''        \<newline>'',
      ''        .container {\<newline>'',
      ''          background: '',
      backgroundColor el,
      '';\<newline>'',
      ''          width: 100%;\<newline>'',
      ''          height: '',
      containerHeight,
      '';\<newline>'',
      ''          min-height: '',
      (if pos = ''both'' then ''auto'' else ''100px''),
      '';\<newline>'',
      ''          overflow: hidden;\<newline>'',
      ''          display: flex;\<newline>'',
      ''          flex-direction: column;\<newline>'',
      ''        }\<newline>'',
      ''\<newline>'',
      ''        .wave-section {\<newline>'',
      ''          width: 100%;\<newline>'',
      ''          height: '',
      waveHeight el,
      '';\<newline>'',
      ''          overflow: hidden;\<newline>'',
      ''          flex-shrink: 0;\<newline>'',
      ''        }\<newline>'',
      ''\<newline>'',
      ''        .content-section {\<newline>'',
      ''          flex: 1;\<newline>'',
      ''          padding: '',
      contentPadding el,
      '';\<newline>'',
      ''          background: '',
      contentBackgroundColor el,
      '';\<newline>'',
      ''          display: flex;\<newline>'',
      ''          flex-direction: column;\<newline>'',
      ''          justify-content: center;\<newline>'',
      ''          align-items: center;\<newline>'',
      ''          min-height: 0;\<newline>'',
      ''        }\<newline>'',
      ''\<newline>'',
      ''        .waves {\<newline>'',
      ''          position: relative;\<newline>'',
      ''          display: block;\<newline>'',
      ''          width: 100%;\<newline>'',
      ''          height: 100%;\<newline>'',
      ''          transform: translateZ(0);\<newline>'',
      ''          will-change: transform;\<newline>'',
      ''        }\<newline>'',
      ''\<newline>'',
      ''        @keyframes wave-animation-1 {\<newline>'',
      ''          0% { transform: translateX(-90px) translateZ(0); }\<newline>'',
      ''          100% { transform: translateX(85px) translateZ(0); }\<newline>'',
      ''        }\<newline>'',
      ''        @keyframes wave-animation-2 {\<newline>'',
      ''          0% { transform: translateX(-85px) translateZ(0); }\<newline>'',
      ''          100% { transform: translateX(90px) translateZ(0); }\<newline>'',
      ''        }\<newline>'',
      ''        @keyframes wave-animation-3 {\<newline>'',
      ''          0% { transform: translateX(-100px) translateZ(0); }\<newline>'',
      ''          100% { transform: translateX(75px) translateZ(0); }\<newline>'',
      ''        }\<newline>'',
      ''        @keyframes wave-animation-4 {\<newline>'',
      ''          0% { transform: translateX(-80px) translateZ(0); }\<newline>'',
      ''          100% { transform: translateX(95px) translateZ(0); }\<newline>'',
      ''        }\<newline>'',
      ''\<newline>'',
      ''        .parallax use {\<newline>'',
      ''          will-change: transform;\<newline>'',
      ''          transform: translateZ(0);\<newline>'',
      ''          backface-visibility: hidden;\<newline>'',
      ''        }\<newline>'',
      ''\<newline>'',
      ''        '',
      styles topWaves,
      ''\<newline>'',
      ''        '',
      styles bottomWaves,
      ''\<newline>'',
      ''      </style>\<newline>'',
      ''      \<newline>'',
      ''      <div class="container">\<newline>'',
      ''        '',
      html topWaves,
      ''\<newline>'',
      ''        '',
      contentSection,
      ''\<newline>'',
      ''        '',
      html bottomWaves,
      ''\<newline>'',
      ''      </div>\<newline>'',
      ''    '']\<close>

definition render_t :: "(real \<Rightarrow> string) \<Rightarrow> element \<Rightarrow> rand \<Rightarrow> error + (string \<times> rand)" where
  \<open>render_t nts el rs =
    (let position = position el
     in case (if position = ''top'' \<or> position = ''both''
              then createWaveSection_t nts el False rs else Inr (empty_section, rs)) of
          Inl e \<Rightarrow> Inl e
        | Inr (topWaves, rs1) \<Rightarrow>
       (case (if position = ''bottom'' \<or> position = ''both''
              then createWaveSection_t nts el True rs1 else Inr (empty_section, rs1)) of
          Inl e \<Rightarrow> Inl e
        | Inr (bottomWaves, rs2) \<Rightarrow>
            (let contentSection = (if position = ''both'' then content_section_t else '''');
                 containerHeight = (if position = ''both'' then ''auto'' else height el);
                 innerHTML = render_template_t nts el position topWaves bottomWaves contentSection
                               containerHeight
             in if length innerHTML \<le> string_limit then Inr (innerHTML, rs2)
                else Inl RangeError)))\<close>


section \<open>What the claims say about the output\<close>

text \<open>
  The number of places at which the text \<open>p\<close> occurs in a string, and the attribute sets
  none of whose values contain a given character.
\<close>

fun occurrences :: "string \<Rightarrow> string \<Rightarrow> nat" where
  "occurrences p [] = 0"
| "occurrences p (c # s) = (if prefix p (c # s) then 1 else 0) + occurrences p s"

definition attrs_avoid :: "char \<Rightarrow> element \<Rightarrow> bool" where
  "attrs_avoid c el = (\<forall>name v. getAttribute el name = Some v \<longrightarrow> c \<notin> set v)"

text \<open>The attribute sets none of whose values is longer than \<open>k\<close> characters.\<close>

definition attrs_within :: "nat \<Rightarrow> element \<Rightarrow> bool" where
  "attrs_within k el = (\<forall>name v. getAttribute el name = Some v \<longrightarrow> length v \<le> k)"

text \<open>
  How often the opening tags of a top wave section, a bottom wave section and a content
  section, and the \<open>slot\<close> tag occur in a rendered string.
\<close>

definition section_counts :: "string \<Rightarrow> nat \<times> nat \<times> nat \<times> nat" where
  \<open>section_counts out =
    (occurrences ''<div class="wave-section top-waves">'' out,
     occurrences ''<div class="wave-section bottom-waves">'' out,
     occurrences ''<div class="content-section">'' out,
     occurrences ''<slot>'' out)\<close>

section \<open>Facts about the arithmetic\<close>

subsection \<open>Rounding\<close>

lemma powi_pos [simp]: "0 < (2::real) powi e"
  by (simp add: power_int_def)

lemma floor_log2_iff:
  assumes "0 < a"
  shows "\<lfloor>log 2 a\<rfloor> = e \<longleftrightarrow> 2 powi e \<le> a \<and> a < 2 powi (e + 1)"
proof -
  have p: "(2::real) powi k = 2 powr (of_int k)" for k
    by (simp add: powr_real_of_int')
  have "\<lfloor>log 2 a\<rfloor> = e \<longleftrightarrow> of_int e \<le> log 2 a \<and> log 2 a < of_int e + 1"
    by (rule floor_eq_iff)
  also have "of_int e \<le> log 2 a \<longleftrightarrow> 2 powi e \<le> a"
    using assms by (simp add: p le_log_iff)
  also have "log 2 a < of_int e + 1 \<longleftrightarrow> a < 2 powi (e + 1)"
    using assms by (simp add: p log_less_iff)
  finally show ?thesis .
qed

lemma rhe_of_int [simp]: "rhe (of_int k) = k"
  by (simp add: rhe_def)

lemma rhe_bounds: "\<bar>of_int (rhe t) - t\<bar> \<le> 1 / 2"
  unfolding rhe_def Let_def by (auto; linarith)

lemma rhe_floor: "\<lfloor>t\<rfloor> \<le> rhe t" "rhe t \<le> \<lfloor>t\<rfloor> + 1"
  unfolding rhe_def Let_def by auto

lemma rhe_mono: 
  assumes "s \<le> t" shows "rhe s \<le> rhe t"
proof (cases "\<lfloor>s\<rfloor> = \<lfloor>t\<rfloor>")
  case True
  with assms show ?thesis unfolding rhe_def Let_def by auto
next
  case False
  with assms have "\<lfloor>s\<rfloor> + 1 \<le> \<lfloor>t\<rfloor>"
    using floor_mono [of s t] by linarith
  with rhe_floor(2) [of s] rhe_floor(1) [of t] show ?thesis by linarith
qed

lemma rhe_minus: "rhe (- t) = - rhe t"
proof (cases "t = of_int \<lfloor>t\<rfloor>")
  case True
  then obtain k where "t = of_int k" ..
  then have "- t = of_int (- k)" by simp
  then show ?thesis using \<open>t = of_int k\<close> by (metis rhe_of_int)
next
  case False
  then have lt: "of_int \<lfloor>t\<rfloor> < t" using of_int_floor_le [of t] by linarith
  have ub: "t < of_int \<lfloor>t\<rfloor> + 1" by linarith
  have fm: "\<lfloor>- t\<rfloor> = - \<lfloor>t\<rfloor> - 1"
  proof (rule floor_unique)
    show "of_int (- \<lfloor>t\<rfloor> - 1) \<le> - t" by simp linarith
    show "- t < of_int (- \<lfloor>t\<rfloor> - 1) + 1" using lt by simp
  qed
  show ?thesis
    unfolding rhe_def Let_def fm using lt by auto
qed


lemma expo_abs [simp]: "expo (- x) = expo x" by (simp add: expo_def)
lemma ulp_minus [simp]: "ulp (- x) = ulp x" by (simp add: ulp_def)
lemma ulp_pos [simp]: "0 < ulp x" by (simp add: ulp_def)
lemma ulp_nonneg [simp]: "0 \<le> ulp x" by (simp add: ulp_def)
lemma ulp_neq0 [simp]: "ulp x \<noteq> 0" by (simp add: ulp_def)
lemma rnd_minus: "rnd (- x) = - rnd x" by (simp add: rnd_def rhe_minus)

lemma expo_ge: "- 1022 \<le> expo x" by (simp add: expo_def)

lemma expo_upper: "x \<noteq> 0 \<Longrightarrow> \<bar>x\<bar> < 2 powi (expo x + 1)"
proof -
  assume "x \<noteq> 0"
  then have a: "0 < \<bar>x\<bar>" by simp
  from floor_log2_iff [OF a, of "\<lfloor>log 2 \<bar>x\<bar>\<rfloor>"]
  have "\<bar>x\<bar> < 2 powi (\<lfloor>log 2 \<bar>x\<bar>\<rfloor> + 1)" by simp
  also have "\<dots> \<le> 2 powi (expo x + 1)"
    by (rule power_int_increasing) (simp_all add: expo_def)
  finally show ?thesis .
qed

lemma expo_lower: "x \<noteq> 0 \<Longrightarrow> - 1022 < expo x \<Longrightarrow> 2 powi (expo x) \<le> \<bar>x\<bar>"
proof -
  assume "x \<noteq> 0" and n: "- 1022 < expo x"
  then have a: "0 < \<bar>x\<bar>" by simp
  from n have "expo x = \<lfloor>log 2 \<bar>x\<bar>\<rfloor>" by (simp add: expo_def max_def split: if_splits)
  with floor_log2_iff [OF a, of "\<lfloor>log 2 \<bar>x\<bar>\<rfloor>"] show ?thesis by simp
qed

lemma expo_eqI:
  assumes "2 powi e \<le> \<bar>x\<bar>" "\<bar>x\<bar> < 2 powi (e + 1)" "- 1022 \<le> e"
  shows "expo x = e"
proof -
  have "0 < \<bar>x\<bar>" using assms(1) powi_pos [of e] by linarith
  with assms floor_log2_iff [of "\<bar>x\<bar>" e] show ?thesis by (simp add: expo_def)
qed

lemma expo_subnormal:
  assumes "\<bar>x\<bar> < 2 powi (- 1022)" "x \<noteq> 0"
  shows "expo x = - 1022"
proof -
  from assms have a: "0 < \<bar>x\<bar>" by simp
  have "\<lfloor>log 2 \<bar>x\<bar>\<rfloor> < - 1022"
  proof (rule ccontr)
    assume "\<not> ?thesis"
    then have "- 1022 \<le> \<lfloor>log 2 \<bar>x\<bar>\<rfloor>" by simp
    then have "(2::real) powi (- 1022) \<le> 2 powi \<lfloor>log 2 \<bar>x\<bar>\<rfloor>"
      by (intro power_int_increasing) simp_all
    also have "\<dots> \<le> \<bar>x\<bar>" using floor_log2_iff [OF a, of "\<lfloor>log 2 \<bar>x\<bar>\<rfloor>"] by simp
    finally show False using assms by simp
  qed
  then show ?thesis by (simp add: expo_def)
qed



lemma rhe_zero [simp]: "rhe 0 = 0" by (simp add: rhe_def)

lemma rnd_zero [simp]: "rnd 0 = 0" by (simp add: rnd_def)

lemma p2_add: "(2::real) powi (a + b) = 2 powi a * 2 powi b"
  by (rule power_int_add) simp

lemma p2_less_cancel: "(2::real) powi a < 2 powi b \<Longrightarrow> a < b"
proof (rule ccontr)
  assume l: "(2::real) powi a < 2 powi b" and "\<not> a < b"
  then have "b \<le> a" by simp
  then have "(2::real) powi b \<le> 2 powi a" by (intro power_int_increasing) simp_all
  with l show False by simp
qed

lemma abs_of_int_less: "\<bar>m\<bar> < 2 ^ n \<Longrightarrow> \<bar>real_of_int m\<bar> < 2 ^ n"
proof -
  assume "\<bar>m\<bar> < 2 ^ n"
  then have "real_of_int \<bar>m\<bar> < real_of_int (2 ^ n)" by (simp only: of_int_less_iff)
  then show ?thesis by simp
qed

lemma ulp_scale: "2 powi (expo x + 1) = 2 ^ 53 * ulp x" "2 powi (expo x) = 2 ^ 52 * ulp x"
proof -
  have "(2::real) powi (expo x + 1) = 2 powi (53 + (expo x - 52))"
    by (rule arg_cong [where f = "\<lambda>e. 2 powi e"]) simp
  also have "\<dots> = 2 powi 53 * 2 powi (expo x - 52)" by (rule p2_add)
  finally show "2 powi (expo x + 1) = 2 ^ 53 * ulp x" by (simp add: ulp_def)
  have "(2::real) powi (expo x) = 2 powi (52 + (expo x - 52))"
    by (rule arg_cong [where f = "\<lambda>e. 2 powi e"]) simp
  also have "\<dots> = 2 powi 52 * 2 powi (expo x - 52)" by (rule p2_add)
  finally show "2 powi (expo x) = 2 ^ 52 * ulp x" by (simp add: ulp_def)
qed

lemma rnd_exact:
  assumes x: "x = of_int m * 2 powi k" and m: "m \<noteq> 0" "\<bar>m\<bar> < 2 ^ 53" and k: "- 1074 \<le> k"
  shows "rnd x = x"
proof -
  have x0: "x \<noteq> 0" using x m by simp
  have le: "expo x \<le> k + 52"
  proof (cases "- 1022 < expo x")
    case True
    have "2 powi (expo x) \<le> \<bar>x\<bar>" by (rule expo_lower [OF x0 True])
    also have "\<bar>x\<bar> = \<bar>of_int m\<bar> * 2 powi k" by (simp add: x abs_mult)
    also have "\<dots> < 2 ^ 53 * 2 powi k"
      using abs_of_int_less [OF m(2)] by (intro mult_strict_right_mono) simp_all
    also have "\<dots> = 2 powi (53 + k)" by (simp add: p2_add)
    finally have "expo x < 53 + k" by (rule p2_less_cancel)
    then show ?thesis by simp
  next
    case False
    with expo_ge [of x] have "expo x = - 1022" by simp
    with k show ?thesis by simp
  qed
  define n where "n = nat (k + 52 - expo x)"
  have kk: "k = int n + (expo x - 52)" using le by (simp add: n_def)
  have pk: "2 powi k = 2 ^ n * ulp x"
    by (subst kk, subst p2_add) (simp add: ulp_def)
  have xe: "x = of_int m * (2 ^ n * ulp x)"
    by (rule trans [OF x]) (simp only: pk)
  have "x / ulp x = (of_int m * (2 ^ n * ulp x)) / ulp x"
    by (rule arg_cong [where f = "\<lambda>t. t / ulp x", OF xe])
  also have "\<dots> = of_int (m * 2 ^ n)" by simp
  finally have "rhe (x / ulp x) = m * 2 ^ n" by (simp only: rhe_of_int)
  then have "rnd x = of_int m * (2 ^ n * ulp x)" by (simp add: rnd_def)
  with xe show ?thesis by (simp only:)
qed

lemma rnd_nonneg: "0 \<le> x \<Longrightarrow> 0 \<le> rnd x"
proof -
  assume "0 \<le> x"
  then have "0 \<le> x / ulp x" by (intro divide_nonneg_pos) simp_all
  from rhe_mono [OF this] show ?thesis by (simp add: rnd_def)
qed

lemma rnd_upper:
  assumes "0 < x" shows "rnd x \<le> 2 powi (expo x + 1)"
proof -
  have "x < 2 ^ 53 * ulp x" using expo_upper [of x] assms by (simp only: ulp_scale) simp
  then have "x / ulp x < 2 ^ 53" using ulp_pos [of x] by (simp only: pos_divide_less_eq)
  then have "x / ulp x \<le> of_int (2 ^ 53)" by simp
  from rhe_mono [OF this] have "rhe (x / ulp x) \<le> 2 ^ 53" by (simp only: rhe_of_int)
  then have "real_of_int (rhe (x / ulp x)) \<le> real_of_int (2 ^ 53)" by (simp only: of_int_le_iff)
  then have "real_of_int (rhe (x / ulp x)) * ulp x \<le> 2 ^ 53 * ulp x"
    by (intro mult_right_mono) simp_all
  then show ?thesis by (simp only: ulp_scale rnd_def)
qed

lemma rnd_lower:
  assumes "2 powi (expo x) \<le> x" shows "2 powi (expo x) \<le> rnd x"
proof -
  have "2 ^ 52 * ulp x \<le> x" using assms by (simp only: ulp_scale)
  then have "2 ^ 52 \<le> x / ulp x" using ulp_pos [of x] by (simp only: pos_le_divide_eq)
  then have "of_int (2 ^ 52) \<le> x / ulp x" by simp
  from rhe_mono [OF this] have "2 ^ 52 \<le> rhe (x / ulp x)" by (simp only: rhe_of_int)
  then have "real_of_int (2 ^ 52) \<le> real_of_int (rhe (x / ulp x))" by (simp only: of_int_le_iff)
  then have "2 ^ 52 * ulp x \<le> real_of_int (rhe (x / ulp x)) * ulp x"
    by (intro mult_right_mono) simp_all
  then show ?thesis by (simp only: ulp_scale rnd_def)
qed

lemma expo_mono: 
  assumes "0 < x" "x \<le> y" shows "expo x \<le> expo y"
proof -
  have "log 2 x \<le> log 2 y" using assms by simp
  then have "\<lfloor>log 2 x\<rfloor> \<le> \<lfloor>log 2 y\<rfloor>" by (rule floor_mono)
  then show ?thesis using assms by (simp add: expo_def)
qed

lemma rnd_mono_pos:
  assumes "0 < x" "x \<le> y" shows "rnd x \<le> rnd y"
proof (cases "expo x = expo y")
  case True
  then have u: "ulp x = ulp y" by (simp add: ulp_def)
  have "x / ulp y \<le> y / ulp y" using assms by (intro divide_right_mono) simp_all
  from rhe_mono [OF this] show ?thesis by (simp add: rnd_def u)
next
  case False
  with expo_mono [OF assms] have lt: "expo x < expo y" by simp
  have "rnd x \<le> 2 powi (expo x + 1)" by (rule rnd_upper [OF assms(1)])
  also have "\<dots> \<le> 2 powi (expo y)" using lt by (intro power_int_increasing) simp_all
  also have "\<dots> \<le> rnd y"
  proof (rule rnd_lower)
    have "- 1022 < expo y" using lt expo_ge [of x] by linarith
    from expo_lower [OF _ this] assms show "2 powi expo y \<le> y" by simp
  qed
  finally show ?thesis .
qed

lemma rnd_mono: 
  assumes "x \<le> y" shows "rnd x \<le> rnd y"
proof -
  consider "0 < x" | "x \<le> 0" "0 \<le> y" | "y < 0" by linarith
  then show ?thesis
  proof cases
    case 1 then show ?thesis using assms by (rule rnd_mono_pos)
  next
    case 2
    have "0 \<le> rnd (- x)" using 2 by (intro rnd_nonneg) simp
    then have "rnd x \<le> 0" by (simp add: rnd_minus)
    also have "0 \<le> rnd y" using 2 by (intro rnd_nonneg)
    finally show ?thesis .
  next
    case 3
    have "rnd (- y) \<le> rnd (- x)" using 3 assms by (intro rnd_mono_pos) simp_all
    then show ?thesis by (simp add: rnd_minus)
  qed
qed

lemma fl_not_NaN [simp]: "fl x \<noteq> NaN"
  by (simp add: fl_def Let_def)

lemma fl_zero [simp]: "fl 0 = Fin 0"
  by (simp add: fl_def)

lemma cls_fl: "cls (fl x) = (if 2 ^ 1024 \<le> rnd x then 1 else if rnd x \<le> - (2 ^ 1024) then - 1 else 0)"
  by (simp add: fl_def Let_def)

lemma val_fl: "val (fl x) = (if 2 ^ 1024 \<le> rnd x \<or> rnd x \<le> - (2 ^ 1024) then 0 else rnd x)"
  by (simp add: fl_def Let_def)

lemma fl_mono: "x \<le> y \<Longrightarrow> jle (fl x) (fl y)"
  using rnd_mono [of x y] by (auto simp add: jle_def cls_fl val_fl)

lemma fl_exact:
  assumes "x = of_int m * 2 powi k" "\<bar>m\<bar> < 2 ^ 53" "- 1074 \<le> k" "\<bar>x\<bar> < 2 ^ 1024"
  shows "fl x = Fin x"
proof (cases "m = 0")
  case True then show ?thesis using assms by (simp add: fl_def)
next
  case False
  from rnd_exact [OF assms(1) False assms(2,3)] have "rnd x = x" .
  moreover have "x \<noteq> 0" using assms(1) False by simp
  ultimately show ?thesis using assms(4) by (auto simp add: fl_def Let_def)
qed

lemma fl_of_int: 
  assumes "\<bar>z\<bar> < 2 ^ 53" shows "fl (of_int z) = Fin (of_int z)"
proof (rule fl_exact [where m = z and k = 0])
  show "real_of_int z = real_of_int z * 2 powi 0" by simp
  show "\<bar>z\<bar> < 2 ^ 53" by fact
  show "- 1074 \<le> (0::int)" by simp
  have "\<bar>real_of_int z\<bar> < 2 ^ 53" using assms by (rule abs_of_int_less)
  also have "(2::real) ^ 53 < 2 ^ 1024" by (rule power_strict_increasing) simp_all
  finally show "\<bar>real_of_int z\<bar> < 2 ^ 1024" .
qed

lemma fl_of_nat: "n < 2 ^ 53 \<Longrightarrow> fl (real n) = Fin (real n)"
  using fl_of_int [of "int n"] by simp

lemma fl_numeral [simp]: "numeral w < (2::int) ^ 53 \<Longrightarrow> fl (numeral w) = Fin (numeral w)"
  using fl_of_int [of "numeral w"] by simp

lemma fl_one [simp]: "fl 1 = Fin 1"
  using fl_of_int [of 1] by simp

lemma dbl_numeral [simp]: "numeral w < (2::int) ^ 53 \<Longrightarrow> dbl (numeral w) = Fin (numeral w)"
  by (simp add: dbl_def)

lemma dbl_one [simp]: "dbl 1 = Fin 1"
  by (simp add: dbl_def)

lemma dbl_half [simp]: "dbl (1 / 2) = Fin (1 / 2)"
proof -
  have "fl (1 / 2) = Fin (1 / 2)"
    by (rule fl_exact [where m = 1 and k = "- 1"]) simp_all
  then show ?thesis by (simp add: dbl_def)
qed

lemma fl_neg_numeral [simp]:
  "numeral w < (2::int) ^ 53 \<Longrightarrow> fl (- numeral w) = Fin (- numeral w)"
  using fl_of_int [of "- numeral w"] by simp

lemma fl_eqI:
  assumes "2 powi e \<le> \<bar>x\<bar>" "\<bar>x\<bar> < 2 powi (e + 1)" "- 1022 \<le> e"
    "rhe (x / 2 powi (e - 52)) = m" "m \<noteq> 0" "\<bar>real_of_int m * 2 powi (e - 52)\<bar> < 2 ^ 1024"
  shows "fl x = Fin (of_int m * 2 powi (e - 52))"
proof -
  have e: "expo x = e" by (rule expo_eqI [OF assms(1-3)])
  have x0: "x \<noteq> 0" using assms(1) powi_pos [of e] by (cases "x = 0") simp_all
  have r: "rnd x = of_int m * 2 powi (e - 52)" by (simp add: rnd_def ulp_def e assms(4))
  have "rnd x \<noteq> 0" unfolding r using assms(5) by simp
  moreover have "\<not> 2 ^ 1024 \<le> rnd x" "\<not> rnd x \<le> - (2 ^ 1024)"
    using assms(6) unfolding r by linarith+
  ultimately show ?thesis using x0 unfolding fl_def Let_def r by (simp only: if_False)
qed

lemma fl_1_49: "fl (1 / 49) = Fin (5882252574524729 / 2 ^ 58)"
proof -
  have "fl (1 / 49) = Fin (of_int 5882252574524729 * 2 powi (- 6 - 52))"
    by (rule fl_eqI) (simp_all add: rhe_def)
  then show ?thesis by simp
qed

lemma fl_49_step: "fl (5882252574524729 / 2 ^ 58 * 49) = Fin (9007199254740991 / 2 ^ 53)"
proof -
  have "fl (5882252574524729 / 2 ^ 58 * 49) = Fin (of_int 9007199254740991 * 2 powi (- 1 - 52))"
    by (rule fl_eqI) (simp_all add: rhe_def)
  then show ?thesis by simp
qed

lemma fl_below_one: "fl (9007199254740991 / 2 ^ 53) = Fin (9007199254740991 / 2 ^ 53)"
  by (rule fl_exact [where m = 9007199254740991 and k = "- 53"]) simp_all

subsection \<open>Doubles, rounding error and finite arithmetic\<close>

lemma rhe_ulp_bound:
  assumes "x \<noteq> 0" shows "\<bar>rhe (x / ulp x)\<bar> \<le> 2 ^ 53"
proof -
  have pos: "0 \<le> rhe (y / ulp y) \<and> rhe (y / ulp y) \<le> 2 ^ 53" if "0 < y" for y
  proof
    have "0 \<le> y / ulp y" using that by (intro divide_nonneg_pos) simp_all
    from rhe_mono [OF this] show "0 \<le> rhe (y / ulp y)" by simp
    have "y < 2 ^ 53 * ulp y" using expo_upper [of y] that by (simp only: ulp_scale) simp
    then have "y / ulp y < 2 ^ 53" using ulp_pos [of y] by (simp only: pos_divide_less_eq)
    then have "y / ulp y \<le> of_int (2 ^ 53)" by simp
    from rhe_mono [OF this] show "rhe (y / ulp y) \<le> 2 ^ 53" by (simp only: rhe_of_int)
  qed
  show ?thesis
  proof (cases "0 < x")
    case True
    with pos [of x] show ?thesis by simp
  next
    case False
    with assms have "0 < - x" by simp
    from pos [OF this] show ?thesis by (simp add: rhe_minus)
  qed
qed

lemma rnd_double:
  assumes "\<bar>rnd x\<bar> < 2 ^ 1024"
  shows "fl (rnd x) = Fin (rnd x)"
proof (cases "x = 0")
  case True
  then show ?thesis by simp
next
  case False
  define m where "m = rhe (x / ulp x)"
  define k where "k = expo x - 52"
  have r: "rnd x = of_int m * 2 powi k" by (simp add: rnd_def m_def k_def ulp_def)
  have k: "- 1074 \<le> k" using expo_ge [of x] by (simp add: k_def)
  have m: "\<bar>m\<bar> \<le> 2 ^ 53" unfolding m_def by (rule rhe_ulp_bound [OF False])
  show ?thesis
  proof (cases "\<bar>m\<bar> < 2 ^ 53")
    case True
    show ?thesis by (rule fl_exact [OF r True k assms])
  next
    case False
    with m have "\<bar>m\<bar> = 2 ^ 53" by simp
    then consider "m = 2 ^ 53" | "m = - (2 ^ 53)" by (auto simp add: abs_if split: if_splits)
    then show ?thesis
    proof cases
      case 1
      have "rnd x = of_int 1 * 2 powi (53 + k)" unfolding r 1 by (simp add: p2_add)
      then show ?thesis by (rule fl_exact) (use k assms in simp_all)
    next
      case 2
      have "rnd x = of_int (- 1) * 2 powi (53 + k)" unfolding r 2 by (simp add: p2_add)
      then show ?thesis by (rule fl_exact) (use k assms in simp_all)
    qed
  qed
qed

lemma fl_idem: "fl x = Fin y \<Longrightarrow> fl y = Fin y"
proof -
  assume a: "fl x = Fin y"
  show ?thesis
  proof (cases "y = 0")
    case True then show ?thesis by simp
  next
    case False
    with a have "y = rnd x \<and> \<bar>rnd x\<bar> < 2 ^ 1024"
      by (auto simp add: fl_def Let_def split: if_splits)
    with rnd_double [of x] show ?thesis by simp
  qed
qed

lemma rnd_error: "x \<noteq> 0 \<Longrightarrow> \<bar>rnd x - x\<bar> \<le> \<bar>x\<bar> / 2 ^ 53 + 2 powi (- 1075)"
proof -
  assume x: "x \<noteq> 0"
  have "rnd x - x = (of_int (rhe (x / ulp x)) - x / ulp x) * ulp x"
    by (simp add: rnd_def left_diff_distrib)
  then have "\<bar>rnd x - x\<bar> = \<bar>of_int (rhe (x / ulp x)) - x / ulp x\<bar> * ulp x"
    by (simp add: abs_mult)
  also have "\<dots> \<le> 1 / 2 * ulp x"
    by (intro mult_right_mono rhe_bounds) simp
  finally have h: "\<bar>rnd x - x\<bar> \<le> ulp x / 2" by simp
  show ?thesis
  proof (cases "- 1022 < expo x")
    case True
    from expo_lower [OF x True] have "2 ^ 52 * ulp x \<le> \<bar>x\<bar>" by (simp only: ulp_scale)
    then have "ulp x / 2 \<le> \<bar>x\<bar> / 2 ^ 53" by simp
    with h show ?thesis by (smt (verit) powi_pos)
  next
    case False
    with expo_ge [of x] have "expo x = - 1022" by simp
    then have "ulp x / 2 = 2 powi (- 1075)" by (simp add: ulp_def)
    with h show ?thesis by (smt (verit) abs_ge_zero divide_nonneg_pos zero_less_power zero_less_numeral)
  qed
qed


lemma rnd_top: "rnd (2 ^ 1023) = 2 ^ 1023"
  by (rule rnd_exact [where m = 1 and k = 1023]) simp_all

lemma rnd_in_range:
  assumes "\<bar>x\<bar> \<le> 2 ^ 1023" shows "\<bar>rnd x\<bar> \<le> 2 ^ 1023"
proof -
  have "rnd x \<le> rnd (2 ^ 1023)" using assms by (intro rnd_mono) simp
  then have u: "rnd x \<le> 2 ^ 1023" by (simp only: rnd_top)
  have "rnd (- (2 ^ 1023)) \<le> rnd x" using assms by (intro rnd_mono) simp
  then have l: "- (2 ^ 1023) \<le> rnd x" by (simp only: rnd_top rnd_minus)
  from u l show ?thesis by (simp add: abs_le_iff)
qed

lemma val_fl_rnd:
  assumes "\<bar>x\<bar> \<le> 2 ^ 1023" shows "is_fin (fl x) \<and> val (fl x) = rnd x"
proof -
  have "\<bar>rnd x\<bar> \<le> 2 ^ 1023" by (rule rnd_in_range [OF assms])
  moreover have "(2::real) ^ 1023 < 2 ^ 1024" by simp
  ultimately have "\<not> 2 ^ 1024 \<le> rnd x" "\<not> rnd x \<le> - (2 ^ 1024)" by linarith+
  then show ?thesis by (simp add: fl_def Let_def)
qed

lemma fl_error:
  assumes "\<bar>x\<bar> \<le> 2 ^ 1023"
  shows "\<bar>val (fl x) - x\<bar> \<le> \<bar>x\<bar> / 2 ^ 53 + 2 powi (- 1075)"
proof (cases "x = 0")
  case True then show ?thesis by simp
next
  case False
  from rnd_error [OF False] val_fl_rnd [OF assms] show ?thesis by simp
qed

lemma val_fl_mono:
  assumes "x \<le> y" "\<bar>x\<bar> \<le> 2 ^ 1023" "\<bar>y\<bar> \<le> 2 ^ 1023"
  shows "val (fl x) \<le> val (fl y)"
  using rnd_mono [OF assms(1)] val_fl_rnd [OF assms(2)] val_fl_rnd [OF assms(3)] by simp

lemma is_fin_iff: "is_fin a \<longleftrightarrow> a = NZ \<or> (\<exists>x. a = Fin x)"
  by (cases a) simp_all

lemma jadd_fin:
  assumes "is_fin a" "is_fin b" "\<bar>val a + val b\<bar> \<le> 2 ^ 1023"
  shows "is_fin (jadd a b) \<and> val (jadd a b) = val (fl (val a + val b))"
  using assms val_fl_rnd [OF assms(3)]
  by (cases a; cases b) (auto simp add: szero_def)

lemma jneg_fin: "is_fin a \<Longrightarrow> is_fin (jneg a) \<and> val (jneg a) = - val a"
  by (cases a) simp_all

lemma jsub_fin:
  assumes "is_fin a" "is_fin b" "\<bar>val a - val b\<bar> \<le> 2 ^ 1023"
  shows "is_fin (jsub a b) \<and> val (jsub a b) = val (fl (val a - val b))"
  unfolding jsub_def using jadd_fin [of a "jneg b"] jneg_fin [of b] assms by simp

lemma jmul_fin:
  assumes "is_fin a" "is_fin b" "\<bar>val a * val b\<bar> \<le> 2 ^ 1023"
  shows "is_fin (jmul a b) \<and> val (jmul a b) = val (fl (val a * val b))"
  using assms val_fl_rnd [OF assms(3)]
  by (cases a; cases b) (auto simp add: jmul_def szero_def)

lemma jdiv_fin:
  assumes "is_fin a" "is_fin b" "val b \<noteq> 0" "\<bar>val a / val b\<bar> \<le> 2 ^ 1023"
  shows "is_fin (jdiv a b) \<and> val (jdiv a b) = val (fl (val a / val b))"
  using assms val_fl_rnd [OF assms(4)]
  by (cases a; cases b) (auto simp add: jdiv_def szero_def)

subsection \<open>Special values\<close>

lemma jdiv_zero_times_zero: "jmul (jdiv z (Fin 0)) (Fin 0) = NaN"
  by (cases z) (simp_all add: jdiv_def jmul_def sinf_def)

lemma jadd_NaN_right [simp]: "jadd a NaN = NaN"
  by (cases a) simp_all

lemma jsub_one_one: "jsub (Fin 1) (Fin 1) = Fin 0"
  by (simp add: jsub_def szero_def)

lemma jmul_Fin:
  "jmul (Fin x) (Fin y) = (if x * y = 0 then szero ((x < 0) \<noteq> (y < 0)) else fl (x * y))"
  by (simp add: jmul_def)

lemma jadd_Fin: "jadd (Fin x) (Fin y) = (if x + y = 0 then Fin 0 else fl (x + y))"
  by (simp add: szero_def)

lemma jsub_Fin: "jsub (Fin x) (Fin y) = (if x = y then Fin 0 else fl (x - y))"
  by (simp add: jsub_def szero_def)

lemma jdiv_Fin:
  "y \<noteq> 0 \<Longrightarrow> jdiv (Fin x) (Fin y) = (if x = 0 then szero (y < 0) else fl (x / y))"
  by (simp add: jdiv_def)

lemma jmax_Fin: "jmax (Fin x) (Fin y) = Fin (max x y)"
  by (simp add: jmax_def jlt_def max_def)

subsection \<open>Order\<close>

lemma jmul_commute: "jmul a b = jmul b a"
  by (cases "signbit a"; cases "signbit b") (auto simp add: jmul_def mult.commute)

lemma jle_Fin_iff: "jle (Fin a) y \<and> jle y (Fin b) \<longleftrightarrow> is_fin y \<and> a \<le> val y \<and> val y \<le> b"
  by (cases y) (auto simp add: jle_def)

lemma fl_between:
  assumes "a \<le> x" "x \<le> b" "fl a = Fin a" "fl b = Fin b"
  shows "is_fin (fl x) \<and> a \<le> val (fl x) \<and> val (fl x) \<le> b"
  using fl_mono [OF assms(1)] fl_mono [OF assms(2)] assms(3,4) jle_Fin_iff [of a "fl x" b]
  by simp

lemma jneg_mono: "jle a b \<Longrightarrow> jle (jneg b) (jneg a)"
  by (cases a; cases b) (auto simp add: jle_def)

lemma is_fin_cls: "is_fin a \<Longrightarrow> a \<noteq> NaN \<and> cls a = 0"
  by (cases a) simp_all

lemma fl_minus_double:
  assumes "fl y = Fin y" shows "fl (- y) = Fin (- y)"
proof (cases "y = 0")
  case True then show ?thesis by simp
next
  case False
  with assms have "rnd y = y \<and> \<bar>rnd y\<bar> < 2 ^ 1024"
    by (auto simp add: fl_def Let_def split: if_splits)
  with False show ?thesis by (auto simp add: fl_def Let_def rnd_minus)
qed

subsection \<open>Parsing small numbers and the default configuration\<close>

lemma parseInt_1: "parseInt ''1'' = Fin 1"
  by (simp add: parseInt_def is_ws_def parse_int_unsigned_def is_digit_def dec_value_def
      digit_val_def)

lemma parseInt_4: "parseInt ''4'' = Fin 4"
  by (simp add: parseInt_def is_ws_def parse_int_unsigned_def is_digit_def dec_value_def
      digit_val_def)

lemma jmul_zero_30: "jmul (Fin 0) (Fin 30) = Fin 0"
  by (simp add: jmul_def szero_def)

lemma random_zero: "random (\<lambda>n. 0) = (Fin 0, \<lambda>n. 0)"
  by (simp add: random_def)

lemma waveCount_default: "waveCount Map.empty = Fin 4"
  by (simp add: waveCount_def getAttribute_def or_default_def parseInt_4)

lemma loop_trips_4: "loop_trips (Fin 4) = Some (Suc (Suc (Suc (Suc 0))))"
  by (simp add: array_limit_def)

lemma parseFloat_1: "parseFloat ''1'' = Fin 1"
  by (simp add: parseFloat_def is_ws_def parse_unsigned_def is_digit_def dec_value_def
      digit_val_def parse_exponent_def)

lemma speed_default: "speed Map.empty = Fin 1"
  by (simp add: speed_def getAttribute_def or_default_def parseFloat_1)

lemma parseInt_50: "parseInt ''50'' = Fin 50"
  by (simp add: parseInt_def is_ws_def parse_int_unsigned_def is_digit_def dec_value_def
      digit_val_def)

lemma parseFloat_0: "parseFloat ''0'' = Fin 0"
  by (simp add: parseFloat_def is_ws_def parse_unsigned_def is_digit_def dec_value_def
      digit_val_def parse_exponent_def)

lemma range_0_1:
  "opacityRange (Map.empty(''wave-count'' \<mapsto> ''50'', ''opacity-range'' \<mapsto> ''0,1'')) = [Fin 0, Fin 1]"
  by (simp add: opacityRange_def getAttribute_def or_default_def trim_def is_ws_def
      parseFloat_0 parseFloat_1)

lemma count_50:
  "waveCount (Map.empty(''wave-count'' \<mapsto> ''50'', ''opacity-range'' \<mapsto> ''0,1'')) = Fin 50"
  by (simp add: waveCount_def getAttribute_def or_default_def parseInt_50)

lemma parse_unsigned_double: "parse_unsigned s = Fin x \<Longrightarrow> fl x = Fin x"
  by (auto simp add: parse_unsigned_def Let_def split: if_splits dest: fl_idem)

lemma parseFloat_double: "parseFloat s = Fin x \<Longrightarrow> fl x = Fin x"
proof -
  assume a: "parseFloat s = Fin x"
  have neg: "fl x = Fin x" if "jneg (parse_unsigned r) = Fin x" for r
  proof (cases "parse_unsigned r")
    case (Fin y)
    with that have "x = - y" by (simp split: if_splits)
    with parse_unsigned_double [OF Fin] show ?thesis by (simp add: fl_minus_double)
  qed (use that in simp_all)
  from a show ?thesis
    by (auto simp add: parseFloat_def split: list.splits if_splits
        dest: parse_unsigned_double neg)
qed

lemma minOpacity_double: "minOpacity_of (opacityRange el) = Fin x \<Longrightarrow> fl x = Fin x"
  by (auto simp add: minOpacity_of_def opacityRange_def Let_def split: list.splits
      dest: parseFloat_double)

section \<open>Facts about the generators\<close>

lemma unit_draws_head: "unit_draws rs \<Longrightarrow> 0 \<le> rs n \<and> rs n < 1"
  by (simp add: unit_draws_def)

lemma unit_draws_tail: "unit_draws rs \<Longrightarrow> unit_draws (\<lambda>n. rs (Suc n))"
  by (simp add: unit_draws_def)

lemma delay_step:
  assumes "0 \<le> x" "x < 1"
  shows "jle (Fin (- 30)) (jneg (jmul (Fin x) (Fin 30))) \<and> jle (jneg (jmul (Fin x) (Fin 30))) (Fin 0)"
proof (cases "x = 0")
  case True
  then show ?thesis by (simp add: jmul_def szero_def jle_def)
next
  case False
  have "is_fin (fl (x * 30)) \<and> 0 \<le> val (fl (x * 30)) \<and> val (fl (x * 30)) \<le> 30"
    using assms by (intro fl_between) simp_all
  then show ?thesis using False
    by (cases "fl (x * 30)") (auto simp add: jmul_def jle_def)
qed

lemma delays_loop_range:
  "unit_draws rs \<Longrightarrow>
   length (fst (delays_loop k rs)) = k \<and>
   (\<forall>d\<in>set (fst (delays_loop k rs)). jle (Fin (- 30)) d \<and> jle d (Fin 0))"
proof (induction k arbitrary: rs)
  case 0
  then show ?case by simp
next
  case (Suc k)
  from Suc.IH [OF unit_draws_tail [OF Suc.prems]] unit_draws_head [OF Suc.prems, of 0]
  show ?case
    by (auto simp add: random_def Let_def delay_step split: prod.splits)
qed

lemma durations_loop_t_eq: "durations_loop_t s k i rs = durations_loop s k i rs"
  by (induction k arbitrary: i rs) (simp_all add: Let_def split: prod.splits)

lemma delays_loop_t_eq: "delays_loop_t k rs = delays_loop k rs"
  by (induction k arbitrary: rs) (simp_all add: Let_def split: prod.splits)

lemma opacities_loop_t_eq: "opacities_loop_t m st k i = opacities_loop m st k i"
  by (induction k arbitrary: i) simp_all

lemma opacities_count_one:
  "waveCount el = Fin 1 \<Longrightarrow> getOpacities el = Inr [NaN]"
  by (simp add: getOpacities_def array_limit_def jsub_one_one jdiv_zero_times_zero Let_def)

lemma durations_loop_length: "length (fst (durations_loop s k i rs)) = k"
  by (induction k arbitrary: i rs) (simp_all add: Let_def random_def split_beta)

lemma durations_loop_nth:
  "j < k \<Longrightarrow>
   fst (durations_loop s k i rs) ! j =
     jmax (jdiv (Fin 10) s)
       (jdiv (jadd (jadd (Fin 15) (jmul (Fin (real (i + j))) (Fin 8)))
                (jmul (jsub (Fin (rs j)) (Fin (1 / 2))) (Fin 10))) s)"
proof (induction k arbitrary: i rs j)
  case 0
  then show ?case by simp
next
  case (Suc k)
  show ?case
  proof (cases j)
    case 0
    then show ?thesis by (simp add: Let_def random_def split_beta)
  next
    case (Suc j')
    with Suc.prems have "j' < k" by simp
    from Suc.IH [OF this, of "Suc i" "\<lambda>n. rs (Suc n)"] Suc show ?thesis
      by (simp add: Let_def random_def split_beta)
  qed
qed

lemma base_duration:
  assumes "n < 2 ^ 32"
  shows "jadd (Fin 15) (jmul (Fin (real n)) (Fin 8)) = Fin (real (15 + 8 * n))"
proof -
  have a: "8 * n < 2 ^ 53" "15 + 8 * n < 2 ^ 53" using assms by simp_all
  have e: "real n * 8 = real (8 * n)" "15 + real (8 * n) = real (15 + 8 * n)" by simp_all
  have m: "jmul (Fin (real n)) (Fin 8) = Fin (real (8 * n))"
  proof (cases "n = 0")
    case True then show ?thesis by (simp add: jmul_def szero_def)
  next
    case False
    then have "jmul (Fin (real n)) (Fin 8) = fl (real n * 8)" by (simp add: jmul_def)
    also have "\<dots> = Fin (real (8 * n))" by (simp only: e fl_of_nat [OF a(1)])
    finally show ?thesis .
  qed
  have "jadd (Fin 15) (Fin (real (8 * n))) = fl (15 + real (8 * n))"
    by (simp del: of_nat_mult)
  also have "\<dots> = Fin (real (15 + 8 * n))" by (simp only: e fl_of_nat [OF a(2)])
  finally show ?thesis by (simp only: m)
qed

lemma jitter_range:
  assumes "0 \<le> x" "x < 1"
  shows "is_fin (jmul (jsub (Fin x) (Fin (1 / 2))) (Fin 10)) \<and>
         - 5 \<le> val (jmul (jsub (Fin x) (Fin (1 / 2))) (Fin 10)) \<and>
         val (jmul (jsub (Fin x) (Fin (1 / 2))) (Fin 10)) \<le> 5"
proof -
  have h: "fl (1 / 2) = Fin (1 / 2)" "fl (- (1 / 2)) = Fin (- (1 / 2))"
    by (rule fl_exact [where m = 1 and k = "- 1"], simp_all)
       (rule fl_exact [where m = "- 1" and k = "- 1"], simp_all)
  define t where "t = jsub (Fin x) (Fin (1 / 2))"
  have t: "is_fin t \<and> - (1 / 2) \<le> val t \<and> val t \<le> 1 / 2"
  proof (cases "x = 1 / 2")
    case True then show ?thesis by (simp add: t_def jsub_def szero_def)
  next
    case False
    have "is_fin (fl (x - 1 / 2)) \<and> - (1 / 2) \<le> val (fl (x - 1 / 2)) \<and> val (fl (x - 1 / 2)) \<le> 1 / 2"
      using assms h by (intro fl_between) simp_all
    with False show ?thesis by (simp add: t_def jsub_def)
  qed
  show ?thesis
  proof (cases "val t = 0")
    case True
    with t show ?thesis unfolding t_def [symmetric] by (cases t) (simp_all add: jmul_def szero_def)
  next
    case False
    have "is_fin (fl (val t * 10)) \<and> - 5 \<le> val (fl (val t * 10)) \<and> val (fl (val t * 10)) \<le> 5"
      using t by (intro fl_between) simp_all
    with False t show ?thesis unfolding t_def [symmetric]
      by (cases t) (simp_all add: jmul_def)
  qed
qed


lemma jmax_ge_left: "a \<noteq> NaN \<Longrightarrow> b \<noteq> NaN \<Longrightarrow> jle a (jmax a b)"
  by (cases a; cases b) (auto simp add: jmax_def jle_def jlt_def)

lemma jdiv_pos_not_NaN:
  assumes "is_fin y" "0 < val y" "jlt (Fin 0) s"
  shows "jdiv y s \<noteq> NaN"
  using assms by (cases y; cases s) (auto simp add: jdiv_def jlt_def szero_def sinf_def)

lemma numerator_pos:
  assumes "n < 2 ^ 32" "is_fin rv" "- 5 \<le> val rv" "val rv \<le> 5"
  shows "is_fin (jadd (Fin (real (15 + 8 * n))) rv) \<and> 0 < val (jadd (Fin (real (15 + 8 * n))) rv)"
proof -
  have b: "15 + 8 * n + 5 < 2 ^ 53" using assms(1) by simp
  have "is_fin (fl (real (15 + 8 * n) + val rv)) \<and> 10 \<le> val (fl (real (15 + 8 * n) + val rv))
      \<and> val (fl (real (15 + 8 * n) + val rv)) \<le> real (15 + 8 * n + 5)"
    using assms(3,4) fl_of_nat [OF b] by (intro fl_between) simp_all
  moreover have "real (15 + 8 * n) + val rv \<noteq> 0" using assms(3) by simp
  ultimately show ?thesis using assms(2) by (cases rv) simp_all
qed

lemma durations_default_half:
  "getAnimationDurations Map.empty (\<lambda>n. 1 / 2) =
     Inr ([Fin 15, Fin 23, Fin 31, Fin 39], \<lambda>n. 1 / 2)"
  by (simp add: getAnimationDurations_def waveCount_default speed_default loop_trips_4
      random_def jsub_Fin jmul_Fin jdiv_Fin jmax_Fin jadd_Fin szero_def
      del: loop_trips.simps)

lemma opacities_loop_length: "length (opacities_loop m st k i) = k"
  by (induction k arbitrary: i) simp_all

lemma opacities_loop_nth:
  "j < k \<Longrightarrow> opacities_loop m st k i ! j = jadd m (jmul st (Fin (real (i + j))))"
proof (induction k arbitrary: i j)
  case 0
  then show ?case by simp
next
  case (Suc k)
  show ?case
  proof (cases j)
    case 0
    then show ?thesis by simp
  next
    case (Suc j')
    with Suc.prems have "j' < k" by simp
    from Suc.IH [OF this, of "Suc i"] Suc show ?thesis by simp
  qed
qed

lemma step_49: "jdiv (jsub (Fin 1) (Fin 0)) (jsub (Fin 50) (Fin 1)) = Fin (5882252574524729 / 2 ^ 58)"
  by (simp add: jsub_Fin jdiv_Fin fl_1_49)

lemma last_49:
  "jadd (Fin 0) (jmul (Fin (5882252574524729 / 2 ^ 58)) (Fin 49)) = Fin (9007199254740991 / 2 ^ 53)"
  using fl_49_step fl_below_one by (simp add: jmul_Fin jadd_Fin)

subsection \<open>The opacity interpolation\<close>

lemma wave_count_minus_one:
  assumes "2 \<le> n" "n \<le> array_limit"
  shows "jsub (Fin (real n)) (dbl 1) = Fin (real (n - 1))"
proof -
  have "n - 1 < 2 ^ 53" using assms(2) by (simp add: array_limit_def)
  from fl_of_nat [OF this] assms(1) show ?thesis
    by (simp add: jsub_Fin of_nat_diff)
qed

lemma interpolation_error:
  fixes a b vd sN vp vo N eta :: real
  assumes "a \<le> b" "0 \<le> eta" "1 \<le> N" "N \<le> 2 ^ 32"
    "\<bar>vd - (b - a)\<bar> \<le> (b - a) / 2 ^ 53 + eta" "0 \<le> vd"
    "\<bar>sN - vd\<bar> \<le> vd / 2 ^ 53 + N * eta" "0 \<le> sN"
    "\<bar>vp - sN\<bar> \<le> sN / 2 ^ 53 + eta" "0 \<le> vp"
    "\<bar>vo - (a + vp)\<bar> \<le> \<bar>a + vp\<bar> / 2 ^ 53 + eta"
  shows "\<bar>vo - b\<bar> \<le> (\<bar>a\<bar> + \<bar>b\<bar>) / 2 ^ 49 + (N + 1) * (8 * eta)"
proof -
  have D: "b - a \<le> \<bar>a\<bar> + \<bar>b\<bar>" by argo
  have Ne: "0 \<le> N * eta" using assms(2,3) by simp
  have Ne2: "N * eta / 2 ^ 53 \<le> eta" 
  proof -
    have "N * eta \<le> 2 ^ 32 * eta" using assms(2,4) by (intro mult_right_mono)
    then show ?thesis using assms(2) by simp
  qed
  have vd: "vd \<le> 2 * (b - a) + eta" using assms(1,5) by (simp; argo)
  have sN: "sN \<le> 2 * vd + N * eta" using assms(6,7) by (simp; argo)
  have vp: "vp \<le> 2 * sN + eta" using assms(8,9) by (simp; argo)
  have e1: "\<bar>vd - (b - a)\<bar> \<le> (\<bar>a\<bar> + \<bar>b\<bar>) / 2 ^ 53 + eta" using assms(5) D by (simp; argo)
  have e2: "\<bar>sN - vd\<bar> \<le> 2 * (\<bar>a\<bar> + \<bar>b\<bar>) / 2 ^ 53 + eta + N * eta"
    using assms(7) vd D assms(2) by (simp; argo)
  have sN': "sN \<le> 4 * (\<bar>a\<bar> + \<bar>b\<bar>) + 2 * eta + N * eta" using sN vd D by argo
  have e3: "\<bar>vp - sN\<bar> \<le> 4 * (\<bar>a\<bar> + \<bar>b\<bar>) / 2 ^ 53 + 3 * eta"
    using assms(9) sN' Ne2 assms(2) by (simp; argo)
  have vp': "vp \<le> 8 * (\<bar>a\<bar> + \<bar>b\<bar>) + 5 * eta + 2 * (N * eta)" using vp sN' by argo
  have "\<bar>a + vp\<bar> \<le> \<bar>a\<bar> + vp" using assms(10) by argo
  then have e4: "\<bar>vo - (a + vp)\<bar> \<le> 9 * (\<bar>a\<bar> + \<bar>b\<bar>) / 2 ^ 53 + 4 * eta"
    using assms(11) vp' Ne2 assms(2) by (simp; argo)
  have "vo - b = (vo - (a + vp)) + (vp - sN) + (sN - vd) + (vd - (b - a))" by simp
  have "\<bar>vo - b\<bar> \<le> 16 * (\<bar>a\<bar> + \<bar>b\<bar>) / 2 ^ 53 + 9 * eta + N * eta"
    using e1 e2 e3 e4 by (simp; argo)
  also have "\<dots> \<le> (\<bar>a\<bar> + \<bar>b\<bar>) / 2 ^ 49 + (N + 1) * (8 * eta)"
  proof -
    have "1 * eta \<le> N * eta" using assms(2,3) by (intro mult_right_mono)
    then show ?thesis using assms(2) by (simp add: algebra_simps; argo)
  qed
  finally show ?thesis .
qed


lemma eta_small: "0 \<le> (2::real) powi (- 1075)" "(2::real) powi (- 1075) \<le> 1"
  by (simp_all add: power_int_minus inverse_le_1_iff)

lemma val_fl_bounds:
  assumes "0 \<le> x" "x \<le> 2 ^ 1022"
  shows "is_fin (fl x)" "0 \<le> val (fl x)" "\<bar>val (fl x) - x\<bar> \<le> x / 2 ^ 53 + 2 powi (- 1075)"
    "val (fl x) \<le> 2 * x + 1"
proof -
  have r: "\<bar>x\<bar> \<le> 2 ^ 1023" using assms by simp
  show "is_fin (fl x)" using val_fl_rnd [OF r] by simp
  show nn: "0 \<le> val (fl x)" using val_fl_mono [of 0 x] assms r by simp
  show e: "\<bar>val (fl x) - x\<bar> \<le> x / 2 ^ 53 + 2 powi (- 1075)"
    using fl_error [OF r] assms(1) by simp
  have "x / 2 ^ 53 \<le> x" using assms(1) by (simp add: field_simps)
  with e eta_small(2) show "val (fl x) \<le> 2 * x + 1" by argo
qed

lemma opacity_difference:
  assumes "is_fin mn" "is_fin mx" "val mn \<le> val mx" "\<bar>val mn\<bar> \<le> 2 ^ 1000" "\<bar>val mx\<bar> \<le> 2 ^ 1000"
  shows "is_fin (jsub mx mn)" "0 \<le> val (jsub mx mn)"
    "\<bar>val (jsub mx mn) - (val mx - val mn)\<bar> \<le> (val mx - val mn) / 2 ^ 53 + 2 powi (- 1075)"
    "val (jsub mx mn) \<le> 2 ^ 1003"
proof -
  have D: "0 \<le> val mx - val mn" "val mx - val mn \<le> 2 ^ 1022" using assms(3-5) by simp_all
  then have r: "\<bar>val mx - val mn\<bar> \<le> 2 ^ 1023" by simp
  note j = jsub_fin [OF assms(2,1) r]
  note v = val_fl_bounds [OF D]
  show "is_fin (jsub mx mn)" using j by simp
  show "0 \<le> val (jsub mx mn)" using j v(2) by simp
  show "\<bar>val (jsub mx mn) - (val mx - val mn)\<bar> \<le> (val mx - val mn) / 2 ^ 53 + 2 powi (- 1075)"
    using j v(3) by simp
  have "val mx - val mn \<le> 2 ^ 1001" using assms(3-5) by simp
  with v(4) j show "val (jsub mx mn) \<le> 2 ^ 1003" by simp
qed

lemma opacity_step:
  assumes "is_fin d" "0 \<le> val d" "val d \<le> 2 ^ 1003" "1 \<le> N"
  shows "is_fin (jdiv d (Fin N))" "0 \<le> val (jdiv d (Fin N))"
    "\<bar>val (jdiv d (Fin N)) * N - val d\<bar> \<le> val d / 2 ^ 53 + N * 2 powi (- 1075)"
proof -
  have q: "0 \<le> val d / N" "val d / N \<le> 2 ^ 1022"
  proof -
    show "0 \<le> val d / N" using assms(2,4) by simp
    have "val d / N \<le> val d / 1" using assms(2,4) by (intro divide_left_mono) simp_all
    with assms(3) show "val d / N \<le> 2 ^ 1022" by simp
  qed
  then have r: "\<bar>val d / N\<bar> \<le> 2 ^ 1023" by simp
  have "is_fin (jdiv d (Fin N)) \<and> val (jdiv d (Fin N)) = val (fl (val (Fin N) / val (Fin N) * 0 + val d / val (Fin N)))"
    using jdiv_fin [of d "Fin N"] assms(1,4) r by simp
  then have j: "is_fin (jdiv d (Fin N))" "val (jdiv d (Fin N)) = val (fl (val d / N))" by simp_all
  note v = val_fl_bounds [OF q]
  show "is_fin (jdiv d (Fin N))" by (rule j)
  show "0 \<le> val (jdiv d (Fin N))" using j v(2) by simp
  have "\<bar>val (fl (val d / N)) - val d / N\<bar> * N \<le> (val d / N / 2 ^ 53 + 2 powi (- 1075)) * N"
    using v(3) assms(4) by (intro mult_right_mono) simp_all
  moreover have "\<bar>val (fl (val d / N)) - val d / N\<bar> * N = \<bar>val (fl (val d / N)) * N - val d\<bar>"
  proof -
    have "\<bar>val (fl (val d / N)) - val d / N\<bar> * N = \<bar>(val (fl (val d / N)) - val d / N) * N\<bar>"
      using assms(4) by (simp add: abs_mult)
    also have "(val (fl (val d / N)) - val d / N) * N = val (fl (val d / N)) * N - val d"
      using assms(4) by (simp add: left_diff_distrib)
    finally show ?thesis .
  qed
  moreover have "(val d / N / 2 ^ 53 + 2 powi (- 1075)) * N = val d / 2 ^ 53 + N * 2 powi (- 1075)"
    using assms(4) by (simp add: distrib_right)
  ultimately show "\<bar>val (jdiv d (Fin N)) * N - val d\<bar> \<le> val d / 2 ^ 53 + N * 2 powi (- 1075)"
    by (simp only: j)
qed


lemma opacity_product:
  assumes "is_fin st" "0 \<le> val st" "0 \<le> x" "val st * x \<le> 2 ^ 1006"
  shows "is_fin (jmul st (Fin x))" "val (jmul st (Fin x)) = val (fl (val st * x))"
    "0 \<le> val (jmul st (Fin x))" "val (jmul st (Fin x)) \<le> 2 ^ 1008"
proof -
  have q: "0 \<le> val st * x" "val st * x \<le> 2 ^ 1022" using assms(2-4) by simp_all
  then have r: "\<bar>val st * val (Fin x)\<bar> \<le> 2 ^ 1023" by simp
  note j = jmul_fin [OF assms(1) _ r, simplified]
  note v = val_fl_bounds [OF q]
  show "is_fin (jmul st (Fin x))" using j by simp
  show "val (jmul st (Fin x)) = val (fl (val st * x))" using j by simp
  show "0 \<le> val (jmul st (Fin x))" using j v(2) by simp
  show "val (jmul st (Fin x)) \<le> 2 ^ 1008" using j v(4) assms(4) by simp
qed

lemma opacity_sum:
  assumes "is_fin mn" "is_fin p" "\<bar>val mn\<bar> \<le> 2 ^ 1000" "0 \<le> val p" "val p \<le> 2 ^ 1008"
  shows "is_fin (jadd mn p)" "val (jadd mn p) = val (fl (val mn + val p))"
    "\<bar>val mn + val p\<bar> \<le> 2 ^ 1023"
proof -
  show r: "\<bar>val mn + val p\<bar> \<le> 2 ^ 1023" using assms(3-5) by simp
  note j = jadd_fin [OF assms(1,2) r]
  show "is_fin (jadd mn p)" using j by simp
  show "val (jadd mn p) = val (fl (val mn + val p))" using j by simp
qed

subsection \<open>Other configurations\<close>

lemma parseFloat_2: "parseFloat ''2'' = Fin 2"
  by (simp add: parseFloat_def is_ws_def parse_unsigned_def is_digit_def dec_value_def
      digit_val_def parse_exponent_def)

lemma parseInt_3: "parseInt ''3'' = Fin 3"
  by (simp add: parseInt_def is_ws_def parse_int_unsigned_def is_digit_def dec_value_def
      digit_val_def)

lemma speed_2_count_3:
  "speed (Map.empty(''speed'' \<mapsto> ''2'', ''wave-count'' \<mapsto> ''3'')) = Fin 2"
  "waveCount (Map.empty(''speed'' \<mapsto> ''2'', ''wave-count'' \<mapsto> ''3'')) = Fin 3"
  by (simp_all add: speed_def waveCount_def getAttribute_def or_default_def parseFloat_2 parseInt_3)

lemma loop_trips_3: "loop_trips (Fin 3) = Some (Suc (Suc (Suc 0)))"
  by (simp add: array_limit_def)

lemma fl_halves:
  "fl (- (1 / 2)) = Fin (- (1 / 2))" "fl (23 / 2) = Fin (23 / 2)" "fl (31 / 2) = Fin (31 / 2)"
  by (rule fl_exact [where m = "- 1" and k = "- 1"], simp_all)
     (rule fl_exact [where m = 23 and k = "- 1"], simp_all,
      rule fl_exact [where m = 31 and k = "- 1"], simp_all)

lemma durations_speed_2:
  "getAnimationDurations (Map.empty(''speed'' \<mapsto> ''2'', ''wave-count'' \<mapsto> ''3''))
     (\<lambda>k. if k = 0 then 0 else 1 / 2) =
     Inr ([Fin 5, Fin (23 / 2), Fin (31 / 2)], \<lambda>k. 1 / 2)"
  by (simp add: getAnimationDurations_def speed_2_count_3 loop_trips_3
      random_def jsub_Fin jmul_Fin jdiv_Fin jmax_Fin jadd_Fin szero_def fl_halves
      del: loop_trips.simps)

lemma parseInt_over: "parseInt ''112813859'' = Fin 112813859"
  by (simp add: parseInt_def is_ws_def parse_int_unsigned_def is_digit_def dec_value_def
      digit_val_def)

lemma count_over: "waveCount (Map.empty(''wave-count'' \<mapsto> ''112813859'')) = Fin 112813859"
  by (simp add: waveCount_def getAttribute_def or_default_def parseInt_over)

lemma loop_trips_over: "loop_trips (Fin 112813859) = None"
  by (simp add: array_limit_def)

lemma opacities_over:
  "getOpacities (Map.empty(''wave-count'' \<mapsto> ''112813859'')) = Inl RangeError"
  by (simp add: getOpacities_def Let_def count_over loop_trips_over del: loop_trips.simps)

lemma durations_over:
  "getAnimationDurations (Map.empty(''wave-count'' \<mapsto> ''112813859'')) rs = Inl RangeError"
  by (simp add: getAnimationDurations_def Let_def count_over loop_trips_over del: loop_trips.simps)

section \<open>Facts about the markup\<close>

text \<open>
  Counting the places of a tag in the rendered text: text without the first character of
  the tag is skipped, the literal parts of the templates are read character by character.
\<close>

lemma occurrences_skip:
  "c \<notin> set v \<Longrightarrow> occurrences (c # q) (v @ s) = occurrences (c # q) s"
  by (induction v) auto

lemma occurrences_skip0:
  "c \<notin> set v \<Longrightarrow> occurrences (c # q) (v @ s) = 0 + occurrences (c # q) s"
  by (simp add: occurrences_skip)

lemma occurrences_none: "c \<notin> set v \<Longrightarrow> occurrences (c # q) v = 0"
  using occurrences_skip [of c v q "[]"] by simp

lemma occurrences_other: "a \<noteq> c \<Longrightarrow> occurrences (c # q) (a # s) = occurrences (c # q) s"
  by simp

lemma occurrences_same:
  "occurrences (c # q) (c # s) = (if prefix q s then 1 else 0) + occurrences (c # q) s"
  by simp

lemmas occ = occurrences_other occurrences_same occurrences_skip

subsection \<open>Text free of a character\<close>

lemma avoid_or_default:
  "attrs_avoid c el \<Longrightarrow> c \<notin> set d \<Longrightarrow> c \<notin> set (or_default (getAttribute el name) d)"
  by (auto simp add: attrs_avoid_def or_default_def split: option.splits)

lemma avoid_getters:
  assumes "attrs_avoid c el" "c = CHR ''<'' \<or> c = CHR ''@''"
  shows "c \<notin> set (waveColor el)" "c \<notin> set (backgroundColor el)" "c \<notin> set (height el)"
    "c \<notin> set (waveHeight el)" "c \<notin> set (contentPadding el)"
    "c \<notin> set (contentBackgroundColor el)"
proof -
  show w: "c \<notin> set (waveColor el)"
    unfolding waveColor_def using assms(2) by (intro avoid_or_default [OF assms(1)]) auto
  show "c \<notin> set (backgroundColor el)"
    unfolding backgroundColor_def using assms(2) by (intro avoid_or_default [OF assms(1)]) auto
  show "c \<notin> set (height el)"
    unfolding height_def by (intro avoid_or_default [OF assms(1)]) simp
  show "c \<notin> set (waveHeight el)"
    unfolding waveHeight_def using assms(2) by (intro avoid_or_default [OF assms(1)]) auto
  show "c \<notin> set (contentPadding el)"
    unfolding contentPadding_def using assms(2) by (intro avoid_or_default [OF assms(1)]) auto
  show "c \<notin> set (contentBackgroundColor el)"
    unfolding contentBackgroundColor_def by (intro avoid_or_default [OF assms(1)] w)
qed

lemma avoid_num:
  assumes "decimal_output nts" "c = CHR ''<'' \<or> c = CHR ''@''"
  shows "c \<notin> set (num_to_string nts x)"
proof -
  have "c \<notin> set (nts r)" for r
    using assms by (auto simp add: decimal_output_def)
  then show ?thesis using assms(2) by (cases x) (auto simp add: num_to_string_def)
qed

lemma avoid_show_index:
  assumes "decimal_output nts" "c = CHR ''<'' \<or> c = CHR ''@''"
  shows "c \<notin> set (show_index nts xs i)"
  using avoid_num [OF assms] assms(2) by (auto simp add: show_index_def)

lemma easing_values:
  "get_property easing_styles key \<in> insert None (Some ` (set (map (Str \<circ> snd) easing_styles) \<union>
      set (map (NativeFunction \<circ> snd) object_prototype_functions) \<union> {PrototypeObject}))"
  unfolding get_property_def
  by (auto split: option.splits dest!: map_of_SomeD simp add: image_iff) force+

lemma avoid_easing:
  assumes "c = CHR ''<'' \<or> c = CHR ''@''"
  shows "c \<notin> set (value_to_string (getEasing el))"
proof -
  have v: "c \<notin> set (value_to_string x)"
    if "x \<in> set (map (Str \<circ> snd) easing_styles) \<union>
          set (map (NativeFunction \<circ> snd) object_prototype_functions) \<union> {PrototypeObject}" for x
    using that assms
    by (auto simp add: easing_styles_def object_prototype_functions_def value_to_string_def)
  have smooth: "get_property easing_styles ''smooth'' = Some (Str ''cubic-bezier(.4,0,.2,1)'')"
    by (simp add: get_property_def easing_styles_def)
  show ?thesis
  proof (cases "truthy (get_property easing_styles (animationStyle el))")
    case True
    then obtain x where x: "get_property easing_styles (animationStyle el) = Some x"
      by (auto simp add: truthy_def)
    with easing_values [of "animationStyle el"] have "x \<in> set (map (Str \<circ> snd) easing_styles) \<union>
          set (map (NativeFunction \<circ> snd) object_prototype_functions) \<union> {PrototypeObject}"
      by auto
    from v [OF this] True x show ?thesis by (simp add: getEasing_def)
  next
    case False
    then show ?thesis using assms by (auto simp add: getEasing_def smooth value_to_string_def)
  qed
qed

lemma avoid_wave_style:
  assumes "c \<notin> set (waveColor el)" "decimal_output nts" "c = CHR ''<'' \<or> c = CHR ''@''"
  shows "c \<notin> set (wave_style nts el isBottom durations delays opacities i)"
  using assms(1) avoid_num [OF assms(2,3)] avoid_show_index [OF assms(2,3)]
    avoid_easing [OF assms(3)] assms(3)
  by (auto simp add: wave_style_def Let_def)

lemma avoid_styles:
  assumes "c \<notin> set (waveColor el)" "decimal_output nts" "c = CHR ''<'' \<or> c = CHR ''@''"
  shows "c \<notin> set (concat (map (wave_style nts el isBottom durations delays opacities) is))"
  using avoid_wave_style [OF assms] by auto

lemma avoid_replace_runs:
  assumes "\<And>run. c \<notin> set (f run)" "c \<notin> set s"
  shows "c \<notin> set (replace_runs f acc s)"
  using assms(2) by (induction s arbitrary: acc) (auto simp add: assms(1))

lemma avoid_heights:
  assumes "c \<notin> set (waveHeight el)" "decimal_output nts" "c = CHR ''<'' \<or> c = CHR ''@''"
  shows "case getResponsiveWaveHeight nts el of
           HeightString s \<Rightarrow> c \<notin> set s
         | HeightObject h \<Rightarrow> c \<notin> set (mobile h) \<and> c \<notin> set (tablet h) \<and> c \<notin> set (desktop h)"
  using assms(1) avoid_num [OF assms(2,3)]
  by (auto simp add: getResponsiveWaveHeight_def Let_def)

lemma avoid_desktop:
  assumes "c \<notin> set (waveHeight el)"
  shows "c \<notin> set (case getResponsiveWaveHeight nts el of HeightString s \<Rightarrow> s
     | HeightObject h \<Rightarrow> desktop h)"
  using assms by (auto simp add: getResponsiveWaveHeight_def Let_def)

lemma avoid_responsive_block:
  assumes "CHR ''<'' \<notin> set (waveHeight el)" "CHR ''<'' \<notin> set (contentPadding el)"
    "decimal_output nts"
  shows "CHR ''<'' \<notin> set (responsive_block nts el (getResponsiveWaveHeight nts el))"
proof -
  have r: "CHR ''<'' \<notin> set (replace_digit_runs (\<lambda>match. num_to_string nts (g match)) (contentPadding el))" for g
    unfolding replace_digit_runs_def
    using assms(2) avoid_num [OF assms(3), where c = "CHR ''<''"]
    by (intro avoid_replace_runs) simp_all
  show ?thesis
    using avoid_heights [OF assms(1,3)] r
    by (auto simp add: responsive_block_def split: heights.splits)
qed


lemma avoid_wave_use:
  assumes "decimal_output nts"
  shows "CHR ''@'' \<notin> set (wave_use nts x y)"
  using avoid_num [OF assms, where c = "CHR ''@''"] by (simp add: wave_use_def)

lemma avoid_wave_elements:
  assumes "decimal_output nts"
  shows "CHR ''@'' \<notin> set (concat (fst (wave_elements nts k i rs)))"
  using avoid_wave_use [OF assms]
  by (induction k arbitrary: i rs) (simp_all add: Let_def split_beta)

lemma wave_use_skip:
  assumes "decimal_output nts" "a \<noteq> CHR ''u''"
  shows "occurrences (CHR ''<'' # a # q) (wave_use nts x y @ s) = occurrences (CHR ''<'' # a # q) s"
  using avoid_num [OF assms(1), where c = "CHR ''<''"] assms(2)
  by (simp add: wave_use_def occ del: occurrences.simps(2))

lemma wave_elements_skip:
  assumes "decimal_output nts" "a \<noteq> CHR ''u''"
  shows "occurrences (CHR ''<'' # a # q) (concat (fst (wave_elements nts k i rs)) @ s) =
         occurrences (CHR ''<'' # a # q) s"
  by (induction k arbitrary: i rs)
     (simp_all add: Let_def split_beta wave_use_skip [OF assms] del: occurrences.simps(2))

lemma createWaveSection_Inr:
  assumes "createWaveSection nts el b rs = Inr (sec, rs')"
  obtains ds dl ops n rs2 where
    "html sec = section_html b (if b then ''transform: rotate(180deg);'' else [])
                  (concat (fst (wave_elements nts n 0 rs2)))"
    "styles sec = concat (map (wave_style nts el b ds dl ops) [0..<n])"
  using assms
  by (auto simp add: createWaveSection_def Let_def split_beta
      split: sum.splits option.splits prod.splits if_splits)

lemma section_styles_avoid:
  assumes "createWaveSection nts el b rs = Inr (sec, rs')"
    "c \<notin> set (waveColor el)" "decimal_output nts" "c = CHR ''<'' \<or> c = CHR ''@''"
  shows "c \<notin> set (styles sec)"
  using createWaveSection_Inr [OF assms(1)] avoid_styles [OF assms(2-4)] by metis

lemma section_html_occurrences:
  assumes "createWaveSection nts el b rs = Inr (sec, rs')" "decimal_output nts"
  shows \<open>occurrences ''<div class="wave-section top-waves">'' (html sec @ s) =
           (if b then 0 else 1) + occurrences ''<div class="wave-section top-waves">'' s\<close>
    \<open>occurrences ''<div class="wave-section bottom-waves">'' (html sec @ s) =
           (if b then 1 else 0) + occurrences ''<div class="wave-section bottom-waves">'' s\<close>
    \<open>occurrences ''<div class="content-section">'' (html sec @ s) =
           0 + occurrences ''<div class="content-section">'' s\<close>
    \<open>occurrences ''<slot>'' (html sec @ s) = 0 + occurrences ''<slot>'' s\<close>
    \<open>occurrences ''@media'' (html sec @ s) = 0 + occurrences ''@media'' s\<close>
proof -
  from createWaveSection_Inr [OF assms(1)] obtain n rs2 where
    h: "html sec = section_html b (if b then ''transform: rotate(180deg);'' else [])
                  (concat (fst (wave_elements nts n 0 rs2)))" by metis
  note sk = wave_elements_skip [OF assms(2)]
  show \<open>occurrences ''<div class="wave-section top-waves">'' (html sec @ s) =
           (if b then 0 else 1) + occurrences ''<div class="wave-section top-waves">'' s\<close>
    unfolding h by (cases b) (simp_all add: section_html_def occ sk del: occurrences.simps(2))
  show \<open>occurrences ''<div class="wave-section bottom-waves">'' (html sec @ s) =
           (if b then 1 else 0) + occurrences ''<div class="wave-section bottom-waves">'' s\<close>
    unfolding h by (cases b) (simp_all add: section_html_def occ sk del: occurrences.simps(2))
  show \<open>occurrences ''<div class="content-section">'' (html sec @ s) =
           0 + occurrences ''<div class="content-section">'' s\<close>
    unfolding h by (cases b) (simp_all add: section_html_def occ sk del: occurrences.simps(2))
  show \<open>occurrences ''<slot>'' (html sec @ s) = 0 + occurrences ''<slot>'' s\<close>
    unfolding h by (cases b) (simp_all add: section_html_def occ sk del: occurrences.simps(2))
  show \<open>occurrences ''@media'' (html sec @ s) = 0 + occurrences ''@media'' s\<close>
    unfolding h
    by (cases b) (simp_all add: section_html_def occ
        occurrences_skip [OF avoid_wave_elements [OF assms(2)]] del: occurrences.simps(2))
qed

subsection \<open>Tags in the templates\<close>

lemma template_top:
  assumes holes: "CHR ''<'' \<notin> set ch"
      "CHR ''<'' \<notin> set (case rh of HeightString s \<Rightarrow> s | HeightObject h \<Rightarrow> desktop h)"
      "CHR ''<'' \<notin> set (contentPadding el)" "CHR ''<'' \<notin> set (contentBackgroundColor el)"
      "CHR ''<'' \<notin> set (responsive_block nts el rh)"
      "CHR ''<'' \<notin> set (styles tw)" "CHR ''<'' \<notin> set (styles bw)"
    and hx: \<open>\<And>s. occurrences ''<div class="wave-section top-waves">'' (backgroundColor el @ s) =
                kx + occurrences ''<div class="wave-section top-waves">'' s\<close>
    and ht: \<open>\<And>s. occurrences ''<div class="wave-section top-waves">'' (html tw @ s) =
                kt + occurrences ''<div class="wave-section top-waves">'' s\<close>
    and hb: \<open>\<And>s. occurrences ''<div class="wave-section top-waves">'' (html bw @ s) =
                kb + occurrences ''<div class="wave-section top-waves">'' s\<close>
    and hc: \<open>\<And>s. occurrences ''<div class="wave-section top-waves">'' (cs @ s) =
                kc + occurrences ''<div class="wave-section top-waves">'' s\<close>
  shows \<open>occurrences ''<div class="wave-section top-waves">'' (render_template nts el pos tw bw cs ch rh) =
           kx + kt + kc + kb\<close>
proof -
  have m: "CHR ''<'' \<notin> set (if pos = ''both'' then ''auto'' else ''100px'')" by simp
  show ?thesis
    unfolding render_template_def
    by (simp add: occ holes m hx ht hb hc del: occurrences.simps(2) set_simps
        cong: if_cong heights.case_cong)
qed

lemma template_bottom:
  assumes holes: "CHR ''<'' \<notin> set ch"
      "CHR ''<'' \<notin> set (case rh of HeightString s \<Rightarrow> s | HeightObject h \<Rightarrow> desktop h)"
      "CHR ''<'' \<notin> set (contentPadding el)" "CHR ''<'' \<notin> set (contentBackgroundColor el)"
      "CHR ''<'' \<notin> set (responsive_block nts el rh)"
      "CHR ''<'' \<notin> set (styles tw)" "CHR ''<'' \<notin> set (styles bw)"
    and hx: \<open>\<And>s. occurrences ''<div class="wave-section bottom-waves">'' (backgroundColor el @ s) =
                kx + occurrences ''<div class="wave-section bottom-waves">'' s\<close>
    and ht: \<open>\<And>s. occurrences ''<div class="wave-section bottom-waves">'' (html tw @ s) =
                kt + occurrences ''<div class="wave-section bottom-waves">'' s\<close>
    and hb: \<open>\<And>s. occurrences ''<div class="wave-section bottom-waves">'' (html bw @ s) =
                kb + occurrences ''<div class="wave-section bottom-waves">'' s\<close>
    and hc: \<open>\<And>s. occurrences ''<div class="wave-section bottom-waves">'' (cs @ s) =
                kc + occurrences ''<div class="wave-section bottom-waves">'' s\<close>
  shows \<open>occurrences ''<div class="wave-section bottom-waves">'' (render_template nts el pos tw bw cs ch rh) =
           kx + kt + kc + kb\<close>
proof -
  have m: "CHR ''<'' \<notin> set (if pos = ''both'' then ''auto'' else ''100px'')" by simp
  show ?thesis
    unfolding render_template_def
    by (simp add: occ holes m hx ht hb hc del: occurrences.simps(2) set_simps
        cong: if_cong heights.case_cong)
qed

lemma template_content:
  assumes holes: "CHR ''<'' \<notin> set ch"
      "CHR ''<'' \<notin> set (case rh of HeightString s \<Rightarrow> s | HeightObject h \<Rightarrow> desktop h)"
      "CHR ''<'' \<notin> set (contentPadding el)" "CHR ''<'' \<notin> set (contentBackgroundColor el)"
      "CHR ''<'' \<notin> set (responsive_block nts el rh)"
      "CHR ''<'' \<notin> set (styles tw)" "CHR ''<'' \<notin> set (styles bw)"
    and hx: \<open>\<And>s. occurrences ''<div class="content-section">'' (backgroundColor el @ s) =
                kx + occurrences ''<div class="content-section">'' s\<close>
    and ht: \<open>\<And>s. occurrences ''<div class="content-section">'' (html tw @ s) =
                kt + occurrences ''<div class="content-section">'' s\<close>
    and hb: \<open>\<And>s. occurrences ''<div class="content-section">'' (html bw @ s) =
                kb + occurrences ''<div class="content-section">'' s\<close>
    and hc: \<open>\<And>s. occurrences ''<div class="content-section">'' (cs @ s) =
                kc + occurrences ''<div class="content-section">'' s\<close>
  shows \<open>occurrences ''<div class="content-section">'' (render_template nts el pos tw bw cs ch rh) =
           kx + kt + kc + kb\<close>
proof -
  have m: "CHR ''<'' \<notin> set (if pos = ''both'' then ''auto'' else ''100px'')" by simp
  show ?thesis
    unfolding render_template_def
    by (simp add: occ holes m hx ht hb hc del: occurrences.simps(2) set_simps
        cong: if_cong heights.case_cong)
qed

lemma template_slot:
  assumes holes: "CHR ''<'' \<notin> set ch"
      "CHR ''<'' \<notin> set (case rh of HeightString s \<Rightarrow> s | HeightObject h \<Rightarrow> desktop h)"
      "CHR ''<'' \<notin> set (contentPadding el)" "CHR ''<'' \<notin> set (contentBackgroundColor el)"
      "CHR ''<'' \<notin> set (responsive_block nts el rh)"
      "CHR ''<'' \<notin> set (styles tw)" "CHR ''<'' \<notin> set (styles bw)"
    and hx: \<open>\<And>s. occurrences ''<slot>'' (backgroundColor el @ s) =
                kx + occurrences ''<slot>'' s\<close>
    and ht: \<open>\<And>s. occurrences ''<slot>'' (html tw @ s) =
                kt + occurrences ''<slot>'' s\<close>
    and hb: \<open>\<And>s. occurrences ''<slot>'' (html bw @ s) =
                kb + occurrences ''<slot>'' s\<close>
    and hc: \<open>\<And>s. occurrences ''<slot>'' (cs @ s) =
                kc + occurrences ''<slot>'' s\<close>
  shows \<open>occurrences ''<slot>'' (render_template nts el pos tw bw cs ch rh) =
           kx + kt + kc + kb\<close>
proof -
  have m: "CHR ''<'' \<notin> set (if pos = ''both'' then ''auto'' else ''100px'')" by simp
  show ?thesis
    unfolding render_template_def
    by (simp add: occ holes m hx ht hb hc del: occurrences.simps(2) set_simps
        cong: if_cong heights.case_cong)
qed


text \<open>The same for the template of test.ts.\<close>

lemma template_t_top:
  assumes holes: "CHR ''<'' \<notin> set ch" "CHR ''<'' \<notin> set (waveHeight el)"
      "CHR ''<'' \<notin> set (contentPadding el)" "CHR ''<'' \<notin> set (contentBackgroundColor el)"
      "CHR ''<'' \<notin> set (styles tw)" "CHR ''<'' \<notin> set (styles bw)"
    and hx: \<open>\<And>s. occurrences ''<div class="wave-section top-waves">'' (backgroundColor el @ s) =
                kx + occurrences ''<div class="wave-section top-waves">'' s\<close>
    and ht: \<open>\<And>s. occurrences ''<div class="wave-section top-waves">'' (html tw @ s) =
                kt + occurrences ''<div class="wave-section top-waves">'' s\<close>
    and hb: \<open>\<And>s. occurrences ''<div class="wave-section top-waves">'' (html bw @ s) =
                kb + occurrences ''<div class="wave-section top-waves">'' s\<close>
    and hc: \<open>\<And>s. occurrences ''<div class="wave-section top-waves">'' (cs @ s) =
                kc + occurrences ''<div class="wave-section top-waves">'' s\<close>
  shows \<open>occurrences ''<div class="wave-section top-waves">'' (render_template_t nts el pos tw bw cs ch) =
           kx + kt + kc + kb\<close>
proof -
  have m: "CHR ''<'' \<notin> set (if pos = ''both'' then ''auto'' else ''100px'')" by simp
  show ?thesis
    unfolding render_template_t_def
    by (simp add: occ holes m hx ht hb hc del: occurrences.simps(2) set_simps
        cong: if_cong)
qed

lemma template_t_bottom:
  assumes holes: "CHR ''<'' \<notin> set ch" "CHR ''<'' \<notin> set (waveHeight el)"
      "CHR ''<'' \<notin> set (contentPadding el)" "CHR ''<'' \<notin> set (contentBackgroundColor el)"
      "CHR ''<'' \<notin> set (styles tw)" "CHR ''<'' \<notin> set (styles bw)"
    and hx: \<open>\<And>s. occurrences ''<div class="wave-section bottom-waves">'' (backgroundColor el @ s) =
                kx + occurrences ''<div class="wave-section bottom-waves">'' s\<close>
    and ht: \<open>\<And>s. occurrences ''<div class="wave-section bottom-waves">'' (html tw @ s) =
                kt + occurrences ''<div class="wave-section bottom-waves">'' s\<close>
    and hb: \<open>\<And>s. occurrences ''<div class="wave-section bottom-waves">'' (html bw @ s) =
                kb + occurrences ''<div class="wave-section bottom-waves">'' s\<close>
    and hc: \<open>\<And>s. occurrences ''<div class="wave-section bottom-waves">'' (cs @ s) =
                kc + occurrences ''<div class="wave-section bottom-waves">'' s\<close>
  shows \<open>occurrences ''<div class="wave-section bottom-waves">'' (render_template_t nts el pos tw bw cs ch) =
           kx + kt + kc + kb\<close>
proof -
  have m: "CHR ''<'' \<notin> set (if pos = ''both'' then ''auto'' else ''100px'')" by simp
  show ?thesis
    unfolding render_template_t_def
    by (simp add: occ holes m hx ht hb hc del: occurrences.simps(2) set_simps
        cong: if_cong)
qed

lemma template_t_content:
  assumes holes: "CHR ''<'' \<notin> set ch" "CHR ''<'' \<notin> set (waveHeight el)"
      "CHR ''<'' \<notin> set (contentPadding el)" "CHR ''<'' \<notin> set (contentBackgroundColor el)"
      "CHR ''<'' \<notin> set (styles tw)" "CHR ''<'' \<notin> set (styles bw)"
    and hx: \<open>\<And>s. occurrences ''<div class="content-section">'' (backgroundColor el @ s) =
                kx + occurrences ''<div class="content-section">'' s\<close>
    and ht: \<open>\<And>s. occurrences ''<div class="content-section">'' (html tw @ s) =
                kt + occurrences ''<div class="content-section">'' s\<close>
    and hb: \<open>\<And>s. occurrences ''<div class="content-section">'' (html bw @ s) =
                kb + occurrences ''<div class="content-section">'' s\<close>
    and hc: \<open>\<And>s. occurrences ''<div class="content-section">'' (cs @ s) =
                kc + occurrences ''<div class="content-section">'' s\<close>
  shows \<open>occurrences ''<div class="content-section">'' (render_template_t nts el pos tw bw cs ch) =
           kx + kt + kc + kb\<close>
proof -
  have m: "CHR ''<'' \<notin> set (if pos = ''both'' then ''auto'' else ''100px'')" by simp
  show ?thesis
    unfolding render_template_t_def
    by (simp add: occ holes m hx ht hb hc del: occurrences.simps(2) set_simps
        cong: if_cong)
qed

lemma template_t_slot:
  assumes holes: "CHR ''<'' \<notin> set ch" "CHR ''<'' \<notin> set (waveHeight el)"
      "CHR ''<'' \<notin> set (contentPadding el)" "CHR ''<'' \<notin> set (contentBackgroundColor el)"
      "CHR ''<'' \<notin> set (styles tw)" "CHR ''<'' \<notin> set (styles bw)"
    and hx: \<open>\<And>s. occurrences ''<slot>'' (backgroundColor el @ s) =
                kx + occurrences ''<slot>'' s\<close>
    and ht: \<open>\<And>s. occurrences ''<slot>'' (html tw @ s) =
                kt + occurrences ''<slot>'' s\<close>
    and hb: \<open>\<And>s. occurrences ''<slot>'' (html bw @ s) =
                kb + occurrences ''<slot>'' s\<close>
    and hc: \<open>\<And>s. occurrences ''<slot>'' (cs @ s) =
                kc + occurrences ''<slot>'' s\<close>
  shows \<open>occurrences ''<slot>'' (render_template_t nts el pos tw bw cs ch) =
           kx + kt + kc + kb\<close>
proof -
  have m: "CHR ''<'' \<notin> set (if pos = ''both'' then ''auto'' else ''100px'')" by simp
  show ?thesis
    unfolding render_template_t_def
    by (simp add: occ holes m hx ht hb hc del: occurrences.simps(2) set_simps
        cong: if_cong)
qed

lemma content_section_occurrences:
  \<open>occurrences ''<div class="wave-section top-waves">'' (content_section @ s) =
     0 + occurrences ''<div class="wave-section top-waves">'' s\<close>
  \<open>occurrences ''<div class="wave-section bottom-waves">'' (content_section @ s) =
     0 + occurrences ''<div class="wave-section bottom-waves">'' s\<close>
  \<open>occurrences ''<div class="content-section">'' (content_section @ s) =
     1 + occurrences ''<div class="content-section">'' s\<close>
  \<open>occurrences ''<slot>'' (content_section @ s) = 1 + occurrences ''<slot>'' s\<close>
  \<open>occurrences ''@media'' (content_section @ s) = 0 + occurrences ''@media'' s\<close>
  by (simp_all add: content_section_def occ del: occurrences.simps(2))

lemma empty_section_occurrences:
  "occurrences p (html empty_section @ s) = 0 + occurrences p s"
  "occurrences p ([] @ s) = 0 + occurrences p s"
  "c \<notin> set (styles empty_section)"
  by (simp_all add: empty_section_def)

lemma render_Inr:
  assumes "render nts el rs = Inr (out, rs')"
  obtains tw rs1 bw where
    "if position el = ''top'' \<or> position el = ''both''
     then createWaveSection nts el False rs = Inr (tw, rs1)
     else tw = empty_section \<and> rs1 = rs"
    "if position el = ''bottom'' \<or> position el = ''both''
     then createWaveSection nts el True rs1 = Inr (bw, rs')
     else bw = empty_section \<and> rs' = rs1"
    "out = render_template nts el (position el) tw bw
             (if position el = ''both'' then content_section else [])
             (if position el = ''both'' then ''auto'' else height el)
             (getResponsiveWaveHeight nts el)"
  using assms
  by (auto simp add: render_def Let_def split: sum.splits prod.splits if_splits)

text \<open>What is known of the two sections and the slot part that a render puts together.\<close>

lemma render_parts:
  assumes r: "render nts el rs = Inr (out, rs')" and d: "decimal_output nts"
    and w: "CHR ''<'' \<notin> set (waveColor el)"
  obtains tw bw cs ch where
    "out = render_template nts el (position el) tw bw cs ch (getResponsiveWaveHeight nts el)"
    "CHR ''<'' \<notin> set (styles tw)" "CHR ''<'' \<notin> set (styles bw)"
    "ch = (if position el = ''both'' then ''auto'' else height el)"
    \<open>\<And>s. occurrences ''<div class="wave-section top-waves">'' (html tw @ s) =
       (if position el = ''top'' \<or> position el = ''both'' then 1 else 0) +
       occurrences ''<div class="wave-section top-waves">'' s\<close>
    \<open>\<And>s. occurrences ''<div class="wave-section bottom-waves">'' (html tw @ s) =
       0 + occurrences ''<div class="wave-section bottom-waves">'' s\<close>
    \<open>\<And>s. occurrences ''<div class="content-section">'' (html tw @ s) =
       0 + occurrences ''<div class="content-section">'' s\<close>
    \<open>\<And>s. occurrences ''<slot>'' (html tw @ s) = 0 + occurrences ''<slot>'' s\<close>
    \<open>\<And>s. occurrences ''<div class="wave-section top-waves">'' (html bw @ s) =
       0 + occurrences ''<div class="wave-section top-waves">'' s\<close>
    \<open>\<And>s. occurrences ''<div class="wave-section bottom-waves">'' (html bw @ s) =
       (if position el = ''bottom'' \<or> position el = ''both'' then 1 else 0) +
       occurrences ''<div class="wave-section bottom-waves">'' s\<close>
    \<open>\<And>s. occurrences ''<div class="content-section">'' (html bw @ s) =
       0 + occurrences ''<div class="content-section">'' s\<close>
    \<open>\<And>s. occurrences ''<slot>'' (html bw @ s) = 0 + occurrences ''<slot>'' s\<close>
    \<open>\<And>s. occurrences ''<div class="wave-section top-waves">'' (cs @ s) =
       0 + occurrences ''<div class="wave-section top-waves">'' s\<close>
    \<open>\<And>s. occurrences ''<div class="wave-section bottom-waves">'' (cs @ s) =
       0 + occurrences ''<div class="wave-section bottom-waves">'' s\<close>
    \<open>\<And>s. occurrences ''<div class="content-section">'' (cs @ s) =
       (if position el = ''both'' then 1 else 0) + occurrences ''<div class="content-section">'' s\<close>
    \<open>\<And>s. occurrences ''<slot>'' (cs @ s) =
       (if position el = ''both'' then 1 else 0) + occurrences ''<slot>'' s\<close>
proof -
  from render_Inr [OF r] obtain tw rs1 bw where
    t: "if position el = ''top'' \<or> position el = ''both''
     then createWaveSection nts el False rs = Inr (tw, rs1)
     else tw = empty_section \<and> rs1 = rs" and
    b: "if position el = ''bottom'' \<or> position el = ''both''
     then createWaveSection nts el True rs1 = Inr (bw, rs')
     else bw = empty_section \<and> rs' = rs1" and
    o: "out = render_template nts el (position el) tw bw
             (if position el = ''both'' then content_section else [])
             (if position el = ''both'' then ''auto'' else height el)
             (getResponsiveWaveHeight nts el)"
    by blast
  have lt: "CHR ''<'' = CHR ''<'' \<or> CHR ''<'' = CHR ''@''" by simp
  note sa = section_styles_avoid [OF _ w d lt]
  note sh = section_html_occurrences [OF _ d]
  note es = empty_section_occurrences
  note co = content_section_occurrences
  show thesis
  proof (rule that [OF o])
    show "CHR ''<'' \<notin> set (styles tw)"
      using t sa es(3) by (auto split: if_splits)
    show "CHR ''<'' \<notin> set (styles bw)"
      using b sa es(3) by (auto split: if_splits)
    show \<open>occurrences ''<div class="wave-section top-waves">'' (html tw @ s) =
       (if position el = ''top'' \<or> position el = ''both'' then 1 else 0) +
       occurrences ''<div class="wave-section top-waves">'' s\<close> for s
      using t sh(1) [of _ False] es(1) by (simp split: if_splits)
    show \<open>occurrences ''<div class="wave-section bottom-waves">'' (html tw @ s) =
       0 + occurrences ''<div class="wave-section bottom-waves">'' s\<close> for s
      using t sh(2) [of _ False] es(1) by (simp split: if_splits)
    show \<open>occurrences ''<div class="content-section">'' (html tw @ s) =
       0 + occurrences ''<div class="content-section">'' s\<close> for s
      using t sh(3) [of _ False] es(1) by (simp split: if_splits)
    show \<open>occurrences ''<slot>'' (html tw @ s) = 0 + occurrences ''<slot>'' s\<close> for s
      using t sh(4) [of _ False] es(1) by (simp split: if_splits)
    show \<open>occurrences ''<div class="wave-section top-waves">'' (html bw @ s) =
       0 + occurrences ''<div class="wave-section top-waves">'' s\<close> for s
      using b sh(1) [of _ True] es(1) by (simp split: if_splits)
    show \<open>occurrences ''<div class="wave-section bottom-waves">'' (html bw @ s) =
       (if position el = ''bottom'' \<or> position el = ''both'' then 1 else 0) +
       occurrences ''<div class="wave-section bottom-waves">'' s\<close> for s
      using b sh(2) [of _ True] es(1) by (simp split: if_splits)
    show \<open>occurrences ''<div class="content-section">'' (html bw @ s) =
       0 + occurrences ''<div class="content-section">'' s\<close> for s
      using b sh(3) [of _ True] es(1) by (simp split: if_splits)
    show \<open>occurrences ''<slot>'' (html bw @ s) = 0 + occurrences ''<slot>'' s\<close> for s
      using b sh(4) [of _ True] es(1) by (simp split: if_splits)
  qed (simp_all add: co del: occurrences.simps(2))
qed

lemma render_counts_gen:
  assumes g: "CHR ''<'' \<notin> set (waveColor el)" "CHR ''<'' \<notin> set (height el)"
      "CHR ''<'' \<notin> set (waveHeight el)" "CHR ''<'' \<notin> set (contentPadding el)"
      "CHR ''<'' \<notin> set (contentBackgroundColor el)"
    and x1: \<open>\<And>s. occurrences ''<div class="wave-section top-waves">'' (backgroundColor el @ s) =
       k1 + occurrences ''<div class="wave-section top-waves">'' s\<close>
    and x2: \<open>\<And>s. occurrences ''<div class="wave-section bottom-waves">'' (backgroundColor el @ s) =
       k2 + occurrences ''<div class="wave-section bottom-waves">'' s\<close>
    and x3: \<open>\<And>s. occurrences ''<div class="content-section">'' (backgroundColor el @ s) =
       k3 + occurrences ''<div class="content-section">'' s\<close>
    and x4: \<open>\<And>s. occurrences ''<slot>'' (backgroundColor el @ s) =
       k4 + occurrences ''<slot>'' s\<close>
    and d: "decimal_output nts"
    and r: "render nts el rs = Inr (out, rs')"
  shows "section_counts out =
           (k1 + (if position el = ''top'' \<or> position el = ''both'' then 1 else 0),
            k2 + (if position el = ''bottom'' \<or> position el = ''both'' then 1 else 0),
            k3 + (if position el = ''both'' then 1 else 0),
            k4 + (if position el = ''both'' then 1 else 0))"
proof -
  from render_parts [OF r d g(1)] obtain tw bw cs ch where
    o: "out = render_template nts el (position el) tw bw cs ch (getResponsiveWaveHeight nts el)"
    and st: "CHR ''<'' \<notin> set (styles tw)" "CHR ''<'' \<notin> set (styles bw)"
    and ch: "ch = (if position el = ''both'' then ''auto'' else height el)"
    and t1: \<open>\<And>s. occurrences ''<div class="wave-section top-waves">'' (html tw @ s) =
       (if position el = ''top'' \<or> position el = ''both'' then 1 else 0) +
       occurrences ''<div class="wave-section top-waves">'' s\<close>
    and t2: \<open>\<And>s. occurrences ''<div class="wave-section bottom-waves">'' (html tw @ s) =
       0 + occurrences ''<div class="wave-section bottom-waves">'' s\<close>
    and t3: \<open>\<And>s. occurrences ''<div class="content-section">'' (html tw @ s) =
       0 + occurrences ''<div class="content-section">'' s\<close>
    and t4: \<open>\<And>s. occurrences ''<slot>'' (html tw @ s) = 0 + occurrences ''<slot>'' s\<close>
    and b1: \<open>\<And>s. occurrences ''<div class="wave-section top-waves">'' (html bw @ s) =
       0 + occurrences ''<div class="wave-section top-waves">'' s\<close>
    and b2: \<open>\<And>s. occurrences ''<div class="wave-section bottom-waves">'' (html bw @ s) =
       (if position el = ''bottom'' \<or> position el = ''both'' then 1 else 0) +
       occurrences ''<div class="wave-section bottom-waves">'' s\<close>
    and b3: \<open>\<And>s. occurrences ''<div class="content-section">'' (html bw @ s) =
       0 + occurrences ''<div class="content-section">'' s\<close>
    and b4: \<open>\<And>s. occurrences ''<slot>'' (html bw @ s) = 0 + occurrences ''<slot>'' s\<close>
    and c1: \<open>\<And>s. occurrences ''<div class="wave-section top-waves">'' (cs @ s) =
       0 + occurrences ''<div class="wave-section top-waves">'' s\<close>
    and c2: \<open>\<And>s. occurrences ''<div class="wave-section bottom-waves">'' (cs @ s) =
       0 + occurrences ''<div class="wave-section bottom-waves">'' s\<close>
    and c3: \<open>\<And>s. occurrences ''<div class="content-section">'' (cs @ s) =
       (if position el = ''both'' then 1 else 0) + occurrences ''<div class="content-section">'' s\<close>
    and c4: \<open>\<And>s. occurrences ''<slot>'' (cs @ s) =
       (if position el = ''both'' then 1 else 0) + occurrences ''<slot>'' s\<close>
    by blast
  have h: "CHR ''<'' \<notin> set ch" using ch g(2) by simp
  note holes = h avoid_desktop [OF g(3)] g(4) g(5) avoid_responsive_block [OF g(3) g(4) d] st
  show ?thesis
    unfolding section_counts_def o
    by (simp only: template_top [OF holes x1 t1 b1 c1] template_bottom [OF holes x2 t2 b2 c2]
        template_content [OF holes x3 t3 b3 c3] template_slot [OF holes x4 t4 b4 c4]
        add_0 add_0_right)
qed

lemma render_counts:
  assumes a: "attrs_avoid (CHR ''<'') el" and d: "decimal_output nts"
    and r: "render nts el rs = Inr (out, rs')"
  shows "section_counts out =
           (if position el = ''top'' \<or> position el = ''both'' then 1 else 0,
            if position el = ''bottom'' \<or> position el = ''both'' then 1 else 0,
            if position el = ''both'' then 1 else 0,
            if position el = ''both'' then 1 else 0)"
proof -
  note g = avoid_getters [OF a, simplified]
  note x = occurrences_skip0 [OF g(2)]
  show ?thesis
    using render_counts_gen [OF g(1) g(3-6) x x x x d r] by simp
qed

text \<open>The same for test.ts.\<close>

lemma getEasing_t_eq: "getEasing_t el = getEasing el"
  by (simp add: getEasing_t_def getEasing_def easing_styles_t_def easing_styles_def)

lemma wave_style_t_eq: "wave_style_t nts el b ds dl ops = wave_style nts el b ds dl ops"
  by (rule ext) (simp add: wave_style_t_def wave_style_def getEasing_t_eq)

lemma wave_use_t_eq: "wave_use_t nts x y = wave_use nts x y"
  by (simp add: wave_use_t_def wave_use_def)

lemma wave_elements_t_skip:
  assumes "decimal_output nts" "a \<noteq> CHR ''u''"
  shows "occurrences (CHR ''<'' # a # q) (concat (fst (wave_elements_t nts vw vh k i rs)) @ s) =
         occurrences (CHR ''<'' # a # q) s"
  by (induction k arbitrary: i rs)
     (simp_all add: Let_def split_beta wave_use_t_eq wave_use_skip [OF assms]
        del: occurrences.simps(2))

lemma createWaveSection_t_Inr:
  assumes "createWaveSection_t nts el b rs = Inr (sec, rs')"
  obtains ds dl ops n rs2 vw vh wb wa where
    "html sec = section_html_t nts b (if b then ''transform: rotate(180deg);'' else []) vw vh wb wa
                  (concat (fst (wave_elements_t nts vw vh n 0 rs2)))"
    "styles sec = concat (map (wave_style nts el b ds dl ops) [0..<n])"
  using assms
  by (auto simp add: createWaveSection_t_def Let_def split_beta wave_style_t_eq
      split: sum.splits option.splits prod.splits if_splits)

lemma section_styles_avoid_t:
  assumes "createWaveSection_t nts el b rs = Inr (sec, rs')"
    "c \<notin> set (waveColor el)" "decimal_output nts" "c = CHR ''<'' \<or> c = CHR ''@''"
  shows "c \<notin> set (styles sec)"
  using createWaveSection_t_Inr [OF assms(1)] avoid_styles [OF assms(2-4)] by metis

lemma section_html_occurrences_t:
  assumes "createWaveSection_t nts el b rs = Inr (sec, rs')" "decimal_output nts"
  shows \<open>occurrences ''<div class="wave-section top-waves">'' (html sec @ s) =
           (if b then 0 else 1) + occurrences ''<div class="wave-section top-waves">'' s\<close>
    \<open>occurrences ''<div class="wave-section bottom-waves">'' (html sec @ s) =
           (if b then 1 else 0) + occurrences ''<div class="wave-section bottom-waves">'' s\<close>
    \<open>occurrences ''<div class="content-section">'' (html sec @ s) =
           0 + occurrences ''<div class="content-section">'' s\<close>
    \<open>occurrences ''<slot>'' (html sec @ s) = 0 + occurrences ''<slot>'' s\<close>
proof -
  from createWaveSection_t_Inr [OF assms(1)] obtain n rs2 vw vh wb wa where
    h: "html sec = section_html_t nts b (if b then ''transform: rotate(180deg);'' else []) vw vh wb wa
                  (concat (fst (wave_elements_t nts vw vh n 0 rs2)))" by metis
  note sk = wave_elements_t_skip [OF assms(2)]
  note nm = avoid_num [OF assms(2), where c = "CHR ''<''", simplified]
  show \<open>occurrences ''<div class="wave-section top-waves">'' (html sec @ s) =
           (if b then 0 else 1) + occurrences ''<div class="wave-section top-waves">'' s\<close>
    unfolding h by (cases b) (simp_all add: section_html_t_def occ sk nm del: occurrences.simps(2))
  show \<open>occurrences ''<div class="wave-section bottom-waves">'' (html sec @ s) =
           (if b then 1 else 0) + occurrences ''<div class="wave-section bottom-waves">'' s\<close>
    unfolding h by (cases b) (simp_all add: section_html_t_def occ sk nm del: occurrences.simps(2))
  show \<open>occurrences ''<div class="content-section">'' (html sec @ s) =
           0 + occurrences ''<div class="content-section">'' s\<close>
    unfolding h by (cases b) (simp_all add: section_html_t_def occ sk nm del: occurrences.simps(2))
  show \<open>occurrences ''<slot>'' (html sec @ s) = 0 + occurrences ''<slot>'' s\<close>
    unfolding h by (cases b) (simp_all add: section_html_t_def occ sk nm del: occurrences.simps(2))
qed

lemma render_t_Inr:
  assumes "render_t nts el rs = Inr (out, rs')"
  obtains tw rs1 bw where
    "if position el = ''top'' \<or> position el = ''both''
     then createWaveSection_t nts el False rs = Inr (tw, rs1)
     else tw = empty_section \<and> rs1 = rs"
    "if position el = ''bottom'' \<or> position el = ''both''
     then createWaveSection_t nts el True rs1 = Inr (bw, rs')
     else bw = empty_section \<and> rs' = rs1"
    "out = render_template_t nts el (position el) tw bw
             (if position el = ''both'' then content_section_t else [])
             (if position el = ''both'' then ''auto'' else height el)"
  using assms
  by (auto simp add: render_t_def Let_def split: sum.splits prod.splits if_splits)

lemma content_section_t_eq: "content_section_t = content_section"
  by (simp add: content_section_t_def content_section_def)

lemma render_t_parts:
  assumes r: "render_t nts el rs = Inr (out, rs')" and d: "decimal_output nts"
    and w: "CHR ''<'' \<notin> set (waveColor el)"
  obtains tw bw cs ch where
    "out = render_template_t nts el (position el) tw bw cs ch"
    "CHR ''<'' \<notin> set (styles tw)" "CHR ''<'' \<notin> set (styles bw)"
    "ch = (if position el = ''both'' then ''auto'' else height el)"
    \<open>\<And>s. occurrences ''<div class="wave-section top-waves">'' (html tw @ s) =
       (if position el = ''top'' \<or> position el = ''both'' then 1 else 0) +
       occurrences ''<div class="wave-section top-waves">'' s\<close>
    \<open>\<And>s. occurrences ''<div class="wave-section bottom-waves">'' (html tw @ s) =
       0 + occurrences ''<div class="wave-section bottom-waves">'' s\<close>
    \<open>\<And>s. occurrences ''<div class="content-section">'' (html tw @ s) =
       0 + occurrences ''<div class="content-section">'' s\<close>
    \<open>\<And>s. occurrences ''<slot>'' (html tw @ s) = 0 + occurrences ''<slot>'' s\<close>
    \<open>\<And>s. occurrences ''<div class="wave-section top-waves">'' (html bw @ s) =
       0 + occurrences ''<div class="wave-section top-waves">'' s\<close>
    \<open>\<And>s. occurrences ''<div class="wave-section bottom-waves">'' (html bw @ s) =
       (if position el = ''bottom'' \<or> position el = ''both'' then 1 else 0) +
       occurrences ''<div class="wave-section bottom-waves">'' s\<close>
    \<open>\<And>s. occurrences ''<div class="content-section">'' (html bw @ s) =
       0 + occurrences ''<div class="content-section">'' s\<close>
    \<open>\<And>s. occurrences ''<slot>'' (html bw @ s) = 0 + occurrences ''<slot>'' s\<close>
    \<open>\<And>s. occurrences ''<div class="wave-section top-waves">'' (cs @ s) =
       0 + occurrences ''<div class="wave-section top-waves">'' s\<close>
    \<open>\<And>s. occurrences ''<div class="wave-section bottom-waves">'' (cs @ s) =
       0 + occurrences ''<div class="wave-section bottom-waves">'' s\<close>
    \<open>\<And>s. occurrences ''<div class="content-section">'' (cs @ s) =
       (if position el = ''both'' then 1 else 0) + occurrences ''<div class="content-section">'' s\<close>
    \<open>\<And>s. occurrences ''<slot>'' (cs @ s) =
       (if position el = ''both'' then 1 else 0) + occurrences ''<slot>'' s\<close>
proof -
  from render_t_Inr [OF r] obtain tw rs1 bw where
    t: "if position el = ''top'' \<or> position el = ''both''
     then createWaveSection_t nts el False rs = Inr (tw, rs1)
     else tw = empty_section \<and> rs1 = rs" and
    b: "if position el = ''bottom'' \<or> position el = ''both''
     then createWaveSection_t nts el True rs1 = Inr (bw, rs')
     else bw = empty_section \<and> rs' = rs1" and
    o: "out = render_template_t nts el (position el) tw bw
             (if position el = ''both'' then content_section_t else [])
             (if position el = ''both'' then ''auto'' else height el)"
    by blast
  have lt: "CHR ''<'' = CHR ''<'' \<or> CHR ''<'' = CHR ''@''" by simp
  note sa = section_styles_avoid_t [OF _ w d lt]
  note sh = section_html_occurrences_t [OF _ d]
  note es = empty_section_occurrences
  note co = content_section_occurrences
  show thesis
  proof (rule that [OF o])
    show "CHR ''<'' \<notin> set (styles tw)"
      using t sa es(3) by (auto split: if_splits)
    show "CHR ''<'' \<notin> set (styles bw)"
      using b sa es(3) by (auto split: if_splits)
    show \<open>occurrences ''<div class="wave-section top-waves">'' (html tw @ s) =
       (if position el = ''top'' \<or> position el = ''both'' then 1 else 0) +
       occurrences ''<div class="wave-section top-waves">'' s\<close> for s
      using t sh(1) [of _ False] es(1) by (simp split: if_splits)
    show \<open>occurrences ''<div class="wave-section bottom-waves">'' (html tw @ s) =
       0 + occurrences ''<div class="wave-section bottom-waves">'' s\<close> for s
      using t sh(2) [of _ False] es(1) by (simp split: if_splits)
    show \<open>occurrences ''<div class="content-section">'' (html tw @ s) =
       0 + occurrences ''<div class="content-section">'' s\<close> for s
      using t sh(3) [of _ False] es(1) by (simp split: if_splits)
    show \<open>occurrences ''<slot>'' (html tw @ s) = 0 + occurrences ''<slot>'' s\<close> for s
      using t sh(4) [of _ False] es(1) by (simp split: if_splits)
    show \<open>occurrences ''<div class="wave-section top-waves">'' (html bw @ s) =
       0 + occurrences ''<div class="wave-section top-waves">'' s\<close> for s
      using b sh(1) [of _ True] es(1) by (simp split: if_splits)
    show \<open>occurrences ''<div class="wave-section bottom-waves">'' (html bw @ s) =
       (if position el = ''bottom'' \<or> position el = ''both'' then 1 else 0) +
       occurrences ''<div class="wave-section bottom-waves">'' s\<close> for s
      using b sh(2) [of _ True] es(1) by (simp split: if_splits)
    show \<open>occurrences ''<div class="content-section">'' (html bw @ s) =
       0 + occurrences ''<div class="content-section">'' s\<close> for s
      using b sh(3) [of _ True] es(1) by (simp split: if_splits)
    show \<open>occurrences ''<slot>'' (html bw @ s) = 0 + occurrences ''<slot>'' s\<close> for s
      using b sh(4) [of _ True] es(1) by (simp split: if_splits)
  qed (simp_all add: co content_section_t_eq del: occurrences.simps(2))
qed

lemma render_t_counts_gen:
  assumes g: "CHR ''<'' \<notin> set (waveColor el)" "CHR ''<'' \<notin> set (height el)"
      "CHR ''<'' \<notin> set (waveHeight el)" "CHR ''<'' \<notin> set (contentPadding el)"
      "CHR ''<'' \<notin> set (contentBackgroundColor el)"
    and x1: \<open>\<And>s. occurrences ''<div class="wave-section top-waves">'' (backgroundColor el @ s) =
       k1 + occurrences ''<div class="wave-section top-waves">'' s\<close>
    and x2: \<open>\<And>s. occurrences ''<div class="wave-section bottom-waves">'' (backgroundColor el @ s) =
       k2 + occurrences ''<div class="wave-section bottom-waves">'' s\<close>
    and x3: \<open>\<And>s. occurrences ''<div class="content-section">'' (backgroundColor el @ s) =
       k3 + occurrences ''<div class="content-section">'' s\<close>
    and x4: \<open>\<And>s. occurrences ''<slot>'' (backgroundColor el @ s) =
       k4 + occurrences ''<slot>'' s\<close>
    and d: "decimal_output nts"
    and r: "render_t nts el rs = Inr (out, rs')"
  shows "section_counts out =
           (k1 + (if position el = ''top'' \<or> position el = ''both'' then 1 else 0),
            k2 + (if position el = ''bottom'' \<or> position el = ''both'' then 1 else 0),
            k3 + (if position el = ''both'' then 1 else 0),
            k4 + (if position el = ''both'' then 1 else 0))"
proof -
  from render_t_parts [OF r d g(1)] obtain tw bw cs ch where
    o: "out = render_template_t nts el (position el) tw bw cs ch"
    and st: "CHR ''<'' \<notin> set (styles tw)" "CHR ''<'' \<notin> set (styles bw)"
    and ch: "ch = (if position el = ''both'' then ''auto'' else height el)"
    and t1: \<open>\<And>s. occurrences ''<div class="wave-section top-waves">'' (html tw @ s) =
       (if position el = ''top'' \<or> position el = ''both'' then 1 else 0) +
       occurrences ''<div class="wave-section top-waves">'' s\<close>
    and t2: \<open>\<And>s. occurrences ''<div class="wave-section bottom-waves">'' (html tw @ s) =
       0 + occurrences ''<div class="wave-section bottom-waves">'' s\<close>
    and t3: \<open>\<And>s. occurrences ''<div class="content-section">'' (html tw @ s) =
       0 + occurrences ''<div class="content-section">'' s\<close>
    and t4: \<open>\<And>s. occurrences ''<slot>'' (html tw @ s) = 0 + occurrences ''<slot>'' s\<close>
    and b1: \<open>\<And>s. occurrences ''<div class="wave-section top-waves">'' (html bw @ s) =
       0 + occurrences ''<div class="wave-section top-waves">'' s\<close>
    and b2: \<open>\<And>s. occurrences ''<div class="wave-section bottom-waves">'' (html bw @ s) =
       (if position el = ''bottom'' \<or> position el = ''both'' then 1 else 0) +
       occurrences ''<div class="wave-section bottom-waves">'' s\<close>
    and b3: \<open>\<And>s. occurrences ''<div class="content-section">'' (html bw @ s) =
       0 + occurrences ''<div class="content-section">'' s\<close>
    and b4: \<open>\<And>s. occurrences ''<slot>'' (html bw @ s) = 0 + occurrences ''<slot>'' s\<close>
    and c1: \<open>\<And>s. occurrences ''<div class="wave-section top-waves">'' (cs @ s) =
       0 + occurrences ''<div class="wave-section top-waves">'' s\<close>
    and c2: \<open>\<And>s. occurrences ''<div class="wave-section bottom-waves">'' (cs @ s) =
       0 + occurrences ''<div class="wave-section bottom-waves">'' s\<close>
    and c3: \<open>\<And>s. occurrences ''<div class="content-section">'' (cs @ s) =
       (if position el = ''both'' then 1 else 0) + occurrences ''<div class="content-section">'' s\<close>
    and c4: \<open>\<And>s. occurrences ''<slot>'' (cs @ s) =
       (if position el = ''both'' then 1 else 0) + occurrences ''<slot>'' s\<close>
    by blast
  have h: "CHR ''<'' \<notin> set ch" using ch g(2) by simp
  note holes = h g(3) g(4) g(5) st
  show ?thesis
    unfolding section_counts_def o
    by (simp only: template_t_top [OF holes x1 t1 b1 c1] template_t_bottom [OF holes x2 t2 b2 c2]
        template_t_content [OF holes x3 t3 b3 c3] template_t_slot [OF holes x4 t4 b4 c4]
        add_0 add_0_right)
qed

lemma render_t_counts:
  assumes a: "attrs_avoid (CHR ''<'') el" and d: "decimal_output nts"
    and r: "render_t nts el rs = Inr (out, rs')"
  shows "section_counts out =
           (if position el = ''top'' \<or> position el = ''both'' then 1 else 0,
            if position el = ''bottom'' \<or> position el = ''both'' then 1 else 0,
            if position el = ''both'' then 1 else 0,
            if position el = ''both'' then 1 else 0)"
proof -
  note g = avoid_getters [OF a, simplified]
  note x = occurrences_skip0 [OF g(2)]
  show ?thesis
    using render_t_counts_gen [OF g(1) g(3-6) x x x x d r] by simp
qed

subsection \<open>Lengths\<close>

lemma len_or_default:
  "attrs_within k el \<Longrightarrow> length d \<le> k \<Longrightarrow> length (or_default (getAttribute el name) d) \<le> k"
  by (auto simp add: attrs_within_def or_default_def split: option.splits)

lemma len_getters:
  assumes "attrs_within 1000 el"
  shows "length (waveColor el) \<le> 1000" "length (backgroundColor el) \<le> 1000"
    "length (height el) \<le> 1000" "length (waveHeight el) \<le> 1000"
    "length (contentPadding el) \<le> 1000" "length (contentBackgroundColor el) \<le> 1000"
proof -
  show w: "length (waveColor el) \<le> 1000"
    unfolding waveColor_def by (intro len_or_default [OF assms]) simp
  show "length (backgroundColor el) \<le> 1000"
    unfolding backgroundColor_def by (intro len_or_default [OF assms]) simp
  show "length (height el) \<le> 1000"
    unfolding height_def by (intro len_or_default [OF assms]) simp
  show "length (waveHeight el) \<le> 1000"
    unfolding waveHeight_def by (intro len_or_default [OF assms]) simp
  show "length (contentPadding el) \<le> 1000"
    unfolding contentPadding_def by (intro len_or_default [OF assms]) simp
  show "length (contentBackgroundColor el) \<le> 1000"
    unfolding contentBackgroundColor_def by (intro len_or_default [OF assms] w)
qed

lemma len_num:
  assumes "decimal_output nts"
  shows "length (num_to_string nts x) \<le> 25"
  using assms by (cases x) (auto simp add: num_to_string_def decimal_output_def)

lemma len_show_index:
  assumes "decimal_output nts"
  shows "length (show_index nts xs i) \<le> 25"
  using len_num [OF assms] by (simp add: show_index_def)

lemma len_easing: "length (value_to_string (getEasing el)) \<le> 64"
proof -
  have v: "length (value_to_string x) \<le> 64"
    if "x \<in> set (map (Str \<circ> snd) easing_styles) \<union>
          set (map (NativeFunction \<circ> snd) object_prototype_functions) \<union> {PrototypeObject}" for x
    using that
    by (auto simp add: easing_styles_def object_prototype_functions_def value_to_string_def)
  have smooth: "get_property easing_styles ''smooth'' = Some (Str ''cubic-bezier(.4,0,.2,1)'')"
    by (simp add: get_property_def easing_styles_def)
  show ?thesis
  proof (cases "truthy (get_property easing_styles (animationStyle el))")
    case True
    then obtain x where x: "get_property easing_styles (animationStyle el) = Some x"
      by (auto simp add: truthy_def)
    with easing_values [of "animationStyle el"] have "x \<in> set (map (Str \<circ> snd) easing_styles) \<union>
          set (map (NativeFunction \<circ> snd) object_prototype_functions) \<union> {PrototypeObject}"
      by auto
    from v [OF this] True x show ?thesis by (simp add: getEasing_def)
  next
    case False
    then show ?thesis by (simp add: getEasing_def smooth value_to_string_def)
  qed
qed

lemma len_wave_style:
  assumes "length (waveColor el) \<le> 1000" "decimal_output nts"
  shows "length (wave_style nts el isBottom durations delays opacities i) \<le> 1500"
  using assms(1) len_num [OF assms(2), of "jadd (Fin (real (i mod 4))) (dbl 1)"]
    len_num [OF assms(2), of "jadd (Fin (real i)) (dbl 1)"]
    len_show_index [OF assms(2), of opacities i] len_show_index [OF assms(2), of durations i]
    len_show_index [OF assms(2), of delays i] len_easing [of el]
  by (simp add: wave_style_def Let_def)

lemma len_concat_map:
  "(\<And>x. x \<in> set xs \<Longrightarrow> length (f x) \<le> c) \<Longrightarrow> length (concat (map f xs)) \<le> length xs * c"
  by (induction xs) (simp_all add: add_mono)

lemma len_styles:
  assumes "length (waveColor el) \<le> 1000" "decimal_output nts"
  shows "length (concat (map (wave_style nts el isBottom durations delays opacities) [0..<m])) \<le> m * 1500"
  using len_concat_map [of "[0..<m]" "wave_style nts el isBottom durations delays opacities" 1500]
    len_wave_style [OF assms] by simp

lemma len_wave_use:
  assumes "decimal_output nts"
  shows "length (wave_use nts x y) \<le> 100"
  using len_num [OF assms, of x] len_num [OF assms, of y] by (simp add: wave_use_def)

lemma len_wave_elements:
  assumes "decimal_output nts"
  shows "length (concat (fst (wave_elements nts k i rs))) \<le> k * 100"
proof (induction k arbitrary: i rs)
  case 0
  show ?case by simp
next
  case (Suc k)
  show ?case
    using Suc [of "Suc i" "snd (random (snd (random rs)))"]
      len_wave_use [OF assms, of
        "jadd (dbl 48) (jmul (jsub (fst (random rs)) (dbl 0.5)) (dbl 20))"
        "jadd (jmul (Fin (real i)) (dbl 2)) (jmul (jsub (fst (random (snd (random rs)))) (dbl 0.5)) (dbl 4))"]
    by (simp add: Let_def split_beta)
qed

lemma len_section_html:
  "length (section_html b (if b then ''transform: rotate(180deg);'' else []) we) \<le> 1000 + length we"
  by (simp add: section_html_def)

lemma len_replace_runs:
  assumes "\<And>r. length (f r) \<le> c"
  shows "length (replace_runs f run s) \<le> c + (c + 1) * length s"
proof (induction s arbitrary: run)
  case Nil
  show ?case using assms [of run] by simp
next
  case (Cons a s)
  show ?case
    using Cons [of "run @ [a]"] Cons [of "[]"] assms [of run] by simp
qed

lemma len_heights:
  assumes "length (waveHeight el) \<le> 1000" "decimal_output nts"
  shows "case getResponsiveWaveHeight nts el of
           HeightString s \<Rightarrow> length s \<le> 1025
         | HeightObject h \<Rightarrow> length (mobile h) \<le> 1025 \<and> length (tablet h) \<le> 1025 \<and>
             length (desktop h) \<le> 1025"
proof -
  have f: "length (filter P (waveHeight el)) \<le> 1000" for P
    by (rule order_trans [OF length_filter_le assms(1)])
  show ?thesis
    using assms(1) f len_num [OF assms(2)]
    by (auto simp add: getResponsiveWaveHeight_def Let_def intro!: add_mono [of _ 25 _ 1000, simplified])
qed

lemma len_desktop:
  assumes "length (waveHeight el) \<le> 1000"
  shows "length (case getResponsiveWaveHeight nts el of HeightString s \<Rightarrow> s
     | HeightObject h \<Rightarrow> desktop h) \<le> 1000"
  using assms by (auto simp add: getResponsiveWaveHeight_def Let_def)

lemma len_responsive_block:
  assumes "length (waveHeight el) \<le> 1000" "length (contentPadding el) \<le> 1000"
    "decimal_output nts"
  shows "length (responsive_block nts el (getResponsiveWaveHeight nts el)) \<le> 60000"
proof -
  have r: "length (replace_digit_runs (\<lambda>match. num_to_string nts (g match)) (contentPadding el)) \<le> 26025" for g
  proof -
    have "length (replace_runs (\<lambda>match. num_to_string nts (g match)) [] (contentPadding el))
        \<le> 25 + (25 + 1) * length (contentPadding el)"
      by (rule len_replace_runs) (rule len_num [OF assms(3)])
    with assms(2) show ?thesis by (simp add: replace_digit_runs_def)
  qed
  show ?thesis
    using len_heights [OF assms(1,3)]
      r [of "\<lambda>match. jmax (jmul (parseInt match) (dbl 0.7)) (dbl 10)"]
      r [of "\<lambda>match. jmax (jmul (parseInt match) (dbl 0.5)) (dbl 8)"]
    by (simp add: responsive_block_def split: heights.splits)
qed

lemma len_template:
  assumes "length (backgroundColor el) \<le> 1000" "length ch \<le> 1000"
    "length (case rh of HeightString s \<Rightarrow> s | HeightObject h \<Rightarrow> desktop h) \<le> 1000"
    "length (contentPadding el) \<le> 1000" "length (contentBackgroundColor el) \<le> 1000"
    "length (responsive_block nts el rh) \<le> 60000" "length cs \<le> 1000"
  shows "length (render_template nts el pos tw bw cs ch rh) \<le>
           70000 + length (styles tw) + length (styles bw) + length (html tw) + length (html bw)"
proof -
  have m: "length (if pos = ''both'' then ''auto'' else ''100px'') \<le> 5" by simp
  show ?thesis
    using assms m unfolding render_template_def
    by (simp cong: if_cong heights.case_cong)
qed

lemma len_template_t:
  assumes "length (backgroundColor el) \<le> 1000" "length ch \<le> 1000"
    "length (waveHeight el) \<le> 1000"
    "length (contentPadding el) \<le> 1000" "length (contentBackgroundColor el) \<le> 1000"
    "length cs \<le> 1000"
  shows "length (render_template_t nts el pos tw bw cs ch) \<le>
           10000 + length (styles tw) + length (styles bw) + length (html tw) + length (html bw)"
proof -
  have m: "length (if pos = ''both'' then ''auto'' else ''100px'') \<le> 5" by simp
  show ?thesis
    using assms m unfolding render_template_t_def
    by (simp cong: if_cong)
qed

lemma len_wave_elements_t:
  assumes "decimal_output nts"
  shows "length (concat (fst (wave_elements_t nts vw vh k i rs))) \<le> k * 100"
proof (induction k arbitrary: i rs)
  case 0
  show ?case by simp
next
  case (Suc k)
  show ?case
    using Suc [of "Suc i" "snd (random (snd (random rs)))"] len_wave_use [OF assms]
    by (simp add: Let_def split_beta wave_use_t_eq add_mono [of _ 100, simplified])
qed

lemma len_section_html_t:
  assumes "decimal_output nts"
  shows "length (section_html_t nts b (if b then ''transform: rotate(180deg);'' else []) vw vh wb wa we)
           \<le> 3000 + length we"
proof -
  note n = len_num [OF assms]
  show ?thesis
    unfolding section_html_t_def
    using n [of vw] n [of vh] n [of wb] n [of wa] n [of "jsub vh wb"]
      n [of "jmul vw (dbl 2.13)"] n [of "jmul vw (dbl 0.2)"] n [of "jmul vw (dbl 0.39)"]
      n [of "jmul vw (dbl 0.59)"] n [of "jmul vw (dbl 4.69)"]
    by simp
qed

subsection \<open>When a section and a render are returned\<close>

lemma trips_array:
  assumes "loop_trips c = Some n"
  obtains m where "array_from_length c = Some m" "m \<le> n"
proof (cases c)
  case (Fin x)
  show ?thesis
  proof (cases "x < 1")
    case True
    then show ?thesis using that [of 0] Fin by simp
  next
    case False
    with assms Fin have n: "n = nat \<lceil>x\<rceil>" and le: "x \<le> real array_limit"
      by (auto split: if_splits)
    from le have "x \<le> real array_length_max" by (simp add: array_limit_def array_length_max_def)
    then have "\<lfloor>x\<rfloor> \<le> int array_length_max" by linarith
    moreover have "nat \<lfloor>x\<rfloor> \<le> nat \<lceil>x\<rceil>" by linarith
    ultimately show ?thesis using that [of "nat \<lfloor>x\<rfloor>"] Fin False n by simp
  qed
qed (use assms that [of 0] in auto)

lemma createWaveSection_returns:
  assumes "loop_trips (waveCount el) = Some n" "n \<le> 1000" "decimal_output nts"
    "length (waveColor el) \<le> 1000"
  shows "\<exists>sec rs'. createWaveSection nts el b rs = Inr (sec, rs') \<and>
           length (html sec) \<le> 101000 \<and> length (styles sec) \<le> 1500000"
proof -
  from trips_array [OF assms(1)] obtain m where
    m: "array_from_length (waveCount el) = Some m" "m \<le> n" by blast
  have lh: "length (section_html b (if b then ''transform: rotate(180deg);'' else [])
      (concat (fst (wave_elements nts m 0 r)))) \<le> 101000" for r
    using len_section_html [of b "concat (fst (wave_elements nts m 0 r))"]
      len_wave_elements [OF assms(3), of m 0 r] m(2) assms(2) by simp
  have ls: "length (concat (map (wave_style nts el b x y z) [0..<m])) \<le> 1500000" for x y z
    using len_styles [OF assms(4,3), of b x y z m] m(2) assms(2) by simp
  have lh': "length (section_html b (if b then ''transform: rotate(180deg);'' else [])
      (concat (fst (wave_elements nts m 0 r)))) \<le> string_limit" for r
    using lh [of r] by (simp add: string_limit_def)
  have ls': "length (concat (map (wave_style nts el b x y z) [0..<m])) \<le> string_limit" for x y z
    using ls [of x y z] by (simp add: string_limit_def)
  show ?thesis
    by (simp add: createWaveSection_def getAnimationDurations_def getAnimationDelays_def
        getOpacities_def Let_def split_beta assms(1) m(1) lh ls lh' ls' cong: if_cong)
qed

lemma section_or_empty:
  assumes "loop_trips (waveCount el) = Some n" "n \<le> 1000" "decimal_output nts"
    "length (waveColor el) \<le> 1000"
  shows "\<exists>sec rs'. (if c then createWaveSection nts el b rs else Inr (empty_section, rs)) =
             Inr (sec, rs') \<and>
           length (html sec) \<le> 101000 \<and> length (styles sec) \<le> 1500000"
  using createWaveSection_returns [OF assms, of b rs] by (simp add: empty_section_def)

lemma render_returns:
  assumes "loop_trips (waveCount el) = Some n" "n \<le> 1000" "decimal_output nts"
    "attrs_within 1000 el"
  shows "\<exists>out rs'. render nts el rs = Inr (out, rs')"
proof -
  note g = len_getters [OF assms(4)]
  note s = section_or_empty [OF assms(1-3) g(1)]
  from s obtain tw rs1 where t: "(if position el = ''top'' \<or> position el = ''both''
      then createWaveSection nts el False rs else Inr (empty_section, rs)) = Inr (tw, rs1)"
    and tl: "length (html tw) \<le> 101000" "length (styles tw) \<le> 1500000" by blast
  from s obtain bw rs2 where b: "(if position el = ''bottom'' \<or> position el = ''both''
      then createWaveSection nts el True rs1 else Inr (empty_section, rs1)) = Inr (bw, rs2)"
    and bl: "length (html bw) \<le> 101000" "length (styles bw) \<le> 1500000" by blast
  have ch: "length (if position el = ''both'' then ''auto'' else height el) \<le> 1000"
    using g(3) by simp
  have cs: "length (if position el = ''both'' then content_section else []) \<le> 1000"
    by (simp add: content_section_def)
  from len_template [OF g(2) ch len_desktop [OF g(4)] g(5) g(6)
      len_responsive_block [OF g(4) g(5) assms(3)] cs, of "position el" tw bw] tl bl
  have "length (render_template nts el (position el) tw bw
      (if position el = ''both'' then content_section else [])
      (if position el = ''both'' then ''auto'' else height el)
      (getResponsiveWaveHeight nts el)) \<le> string_limit"
    by (simp add: string_limit_def)
  then show ?thesis
    unfolding render_def Let_def t sum.case prod.case b by simp
qed

lemma createWaveSection_t_returns:
  assumes "loop_trips (waveCount el) = Some n" "n \<le> 1000" "decimal_output nts"
    "length (waveColor el) \<le> 1000"
  shows "\<exists>sec rs'. createWaveSection_t nts el b rs = Inr (sec, rs') \<and>
           length (html sec) \<le> 103000 \<and> length (styles sec) \<le> 1500000"
proof -
  from trips_array [OF assms(1)] obtain m where
    m: "array_from_length (waveCount el) = Some m" "m \<le> n" by blast
  have lh: "length (section_html_t nts b (if b then ''transform: rotate(180deg);'' else [])
      vw vh wb wa (concat (fst (wave_elements_t nts vw vh m 0 r)))) \<le> 103000" for r vw vh wb wa
    using len_section_html_t [OF assms(3), of b vw vh wb wa
        "concat (fst (wave_elements_t nts vw vh m 0 r))"]
      len_wave_elements_t [OF assms(3), of vw vh m 0 r] m(2) assms(2) by simp
  have ls: "length (concat (map (wave_style nts el b x y z) [0..<m])) \<le> 1500000" for x y z
    using len_styles [OF assms(4,3), of b x y z m] m(2) assms(2) by simp
  have lh': "length (section_html_t nts b (if b then ''transform: rotate(180deg);'' else [])
      vw vh wb wa (concat (fst (wave_elements_t nts vw vh m 0 r)))) \<le> string_limit"
    for r vw vh wb wa
    using lh [of vw vh wb wa r] by (simp add: string_limit_def)
  have ls': "length (concat (map (wave_style nts el b x y z) [0..<m])) \<le> string_limit" for x y z
    using ls [of x y z] by (simp add: string_limit_def)
  show ?thesis
    by (simp add: createWaveSection_t_def getAnimationDurations_t_def getAnimationDelays_t_def
        getOpacities_t_def Let_def split_beta assms(1) m(1) lh ls lh' ls' wave_style_t_eq
        cong: if_cong)
qed

lemma section_or_empty_t:
  assumes "loop_trips (waveCount el) = Some n" "n \<le> 1000" "decimal_output nts"
    "length (waveColor el) \<le> 1000"
  shows "\<exists>sec rs'. (if c then createWaveSection_t nts el b rs else Inr (empty_section, rs)) =
             Inr (sec, rs') \<and>
           length (html sec) \<le> 103000 \<and> length (styles sec) \<le> 1500000"
  using createWaveSection_t_returns [OF assms, of b rs] by (simp add: empty_section_def)

lemma render_t_returns:
  assumes "loop_trips (waveCount el) = Some n" "n \<le> 1000" "decimal_output nts"
    "attrs_within 1000 el"
  shows "\<exists>out rs'. render_t nts el rs = Inr (out, rs')"
proof -
  note g = len_getters [OF assms(4)]
  note s = section_or_empty_t [OF assms(1-3) g(1)]
  from s obtain tw rs1 where t: "(if position el = ''top'' \<or> position el = ''both''
      then createWaveSection_t nts el False rs else Inr (empty_section, rs)) = Inr (tw, rs1)"
    and tl: "length (html tw) \<le> 103000" "length (styles tw) \<le> 1500000" by blast
  from s obtain bw rs2 where b: "(if position el = ''bottom'' \<or> position el = ''both''
      then createWaveSection_t nts el True rs1 else Inr (empty_section, rs1)) = Inr (bw, rs2)"
    and bl: "length (html bw) \<le> 103000" "length (styles bw) \<le> 1500000" by blast
  have ch: "length (if position el = ''both'' then ''auto'' else height el) \<le> 1000"
    using g(3) by simp
  have cs: "length (if position el = ''both'' then content_section_t else []) \<le> 1000"
    by (simp add: content_section_t_def)
  from len_template_t [OF g(2) ch g(4) g(5) g(6) cs, of nts "position el" tw bw] tl bl
  have "length (render_template_t nts el (position el) tw bw
      (if position el = ''both'' then content_section_t else [])
      (if position el = ''both'' then ''auto'' else height el)) \<le> string_limit"
    by (simp add: string_limit_def)
  then show ?thesis
    unfolding render_t_def Let_def t sum.case prod.case b by simp
qed

lemma trips_within:
  assumes "\<not> jlt (Fin 1000) c"
  obtains n where "loop_trips c = Some n" "n \<le> 1000"
proof (cases c)
  case (Fin x)
  with assms have x: "x \<le> 1000" by (simp add: jlt_def)
  show ?thesis
  proof (cases "x \<le> 0")
    case True
    then show ?thesis using that [of 0] Fin by simp
  next
    case False
    have "\<lceil>x\<rceil> \<le> 1000" using x by (simp add: ceiling_le_iff)
    then have "nat \<lceil>x\<rceil> \<le> 1000" by simp
    moreover have "loop_trips c = Some (nat \<lceil>x\<rceil>)"
      using False x Fin by (simp add: array_limit_def)
    ultimately show ?thesis by (rule that [rotated])
  qed
qed (use assms that [of 0] in \<open>auto simp add: jlt_def\<close>)

lemma nts_one: "decimal_output (\<lambda>r. ''1'')"
  by (simp add: decimal_output_def)

subsection \<open>Breakpoint rules\<close>


subsection \<open>No waves\<close>






subsection \<open>A speed that is not a number\<close>

lemma durations_loop_nan: "fst (durations_loop NaN k i rs) = replicate k NaN"
  by (induction k arbitrary: i rs) (simp_all add: Let_def split_beta jdiv_def jmax_def)

lemma speed_nan:
  "getAttribute el ''speed'' = Some s \<Longrightarrow> s \<noteq> [] \<Longrightarrow> parseFloat s = NaN \<Longrightarrow> speed el = NaN"
  by (simp add: speed_def or_default_def)

lemma sublist_concat_mem:
  assumes "x \<in> set xs" "sublist p x"
  shows "sublist p (concat xs)"
proof -
  from assms(1) obtain as bs where "xs = as @ x # bs" by (auto simp add: in_set_conv_decomp)
  then have "concat xs = concat as @ x @ concat bs" by simp
  moreover from assms(2) obtain u v where "x = u @ p @ v" by (auto simp add: sublist_def)
  ultimately have "concat xs = (concat as @ u) @ p @ (v @ concat bs)" by simp
  then show ?thesis unfolding sublist_def by blast
qed

lemma sublist_concat_nth:
  assumes "Suc i < length L"
  shows "sublist (L ! i @ L ! Suc i) (concat L)"
proof -
  from assms have "L = take i L @ L ! i # L ! Suc i # drop (Suc (Suc i)) L"
    by (metis Cons_nth_drop_Suc Suc_lessD append_take_drop_id)
  then have "concat L = concat (take i L) @ (L ! i @ L ! Suc i) @ concat (drop (Suc (Suc i)) L)"
    by (metis append.assoc concat.simps(2) concat_append)
  then show ?thesis unfolding sublist_def by blast
qed

lemma wave_style_nan:
  assumes "i < length ds" "ds ! i = NaN"
  shows "sublist ''NaNs '' (wave_style nts el b ds dl ops i)"
proof -
  have s: "show_index nts ds i = ''NaN''"
    using assms by (simp add: show_index_def num_to_string_def)
  show ?thesis
    unfolding wave_style_def Let_def
    using sublist_concat_nth [of 15 "[''\<newline>'',
          ''        .'',
          (if b then ''bottom-waves'' else ''top-waves''),
          '' .parallax use:nth-child('',
          num_to_string nts (jadd (Fin (real i)) (dbl 1)),
          '') {\<newline>'',
          ''          fill: '',
          waveColor el,
          '';\<newline>'',
          ''          opacity: '',
          show_index nts ops i,
          '';\<newline>'',
          ''          animation: '',
          ''wave-animation-'' @ num_to_string nts (jadd (Fin (real (i mod 4))) (dbl 1)),
          '' '',
          show_index nts ds i,
          ''s '',
          value_to_string (getEasing el),
          '' infinite;\<newline>'',
          ''          animation-delay: '',
          show_index nts dl i,
          ''s;\<newline>'',
          ''        }\<newline>'',
          ''      '']"]
    by (simp add: s)
qed

lemma styles_nan:
  assumes "0 < m" "m \<le> n"
  shows "sublist ''NaNs ''
    (concat (map (wave_style nts el b (replicate n NaN) dl ops) [0..<m]))"
proof (rule sublist_concat_mem)
  show "wave_style nts el b (replicate n NaN) dl ops 0
      \<in> set (map (wave_style nts el b (replicate n NaN) dl ops) [0..<m])"
    using assms(1) by (simp add: image_iff) (metis atLeastLessThan_iff zero_le)
  show "sublist ''NaNs '' (wave_style nts el b (replicate n NaN) dl ops 0)"
    using assms by (intro wave_style_nan) simp_all
qed

lemma createWaveSection_styles:
  assumes "createWaveSection nts el b rs = Inr (sec, rs')"
  obtains n m dl ops where "loop_trips (waveCount el) = Some n"
    "array_from_length (waveCount el) = Some m"
    "styles sec = concat (map (wave_style nts el b (fst (durations_loop (speed el) n 0 rs)) dl ops)
       [0..<m])"
  using assms
  by (auto simp add: createWaveSection_def getAnimationDurations_def getAnimationDelays_def
      getOpacities_def Let_def split_beta
      split: sum.splits option.splits prod.splits if_splits)

lemma array_length_pos:
  assumes "jle (Fin 1) c" "array_from_length c = Some m"
  shows "0 < m"
proof (cases c)
  case (Fin x)
  with assms(1) have "1 \<le> x" by (simp add: jle_def)
  then have "1 \<le> \<lfloor>x\<rfloor>" by simp
  with assms(2) Fin \<open>1 \<le> x\<close> show ?thesis by (auto split: if_splits)
qed (use assms in \<open>auto simp add: jle_def\<close>)

lemma section_nan:
  assumes "createWaveSection nts el b rs = Inr (sec, rs')" "speed el = NaN"
    "jle (Fin 1) (waveCount el)"
  shows "sublist ''NaNs '' (styles sec)"
proof -
  from createWaveSection_styles [OF assms(1)] obtain n m dl ops where
    n: "loop_trips (waveCount el) = Some n" and m: "array_from_length (waveCount el) = Some m"
    and s: "styles sec = concat (map (wave_style nts el b
       (fst (durations_loop (speed el) n 0 rs)) dl ops) [0..<m])" by blast
  from trips_array [OF n] m have "m \<le> n" by auto
  with array_length_pos [OF assms(3) m] show ?thesis
    unfolding s assms(2) durations_loop_nan by (intro styles_nan)
qed

lemma template_styles:
  assumes "sublist p (styles tw) \<or> sublist p (styles bw)"
  shows "sublist p (render_template nts el pos tw bw cs ch rh)"
  using assms
proof
  assume "sublist p (styles tw)"
  then show ?thesis
    unfolding render_template_def by (rule sublist_concat_mem [rotated]) simp
next
  assume "sublist p (styles bw)"
  then show ?thesis
    unfolding render_template_def by (rule sublist_concat_mem [rotated]) simp
qed

lemma parseFloat_abc: "parseFloat ''abc'' = NaN"
  by (simp add: parseFloat_def is_ws_def parse_unsigned_def is_digit_def Let_def)

lemma render_nan:
  assumes r: "render nts el rs = Inr (out, rs')" and s: "speed el = NaN"
    and c: "jle (Fin 1) (waveCount el)"
    and p: "position el = ''top'' \<or> position el = ''bottom'' \<or> position el = ''both''"
  shows "sublist ''NaNs '' out"
proof -
  from render_Inr [OF r] obtain tw rs1 bw where
    t: "if position el = ''top'' \<or> position el = ''both''
     then createWaveSection nts el False rs = Inr (tw, rs1)
     else tw = empty_section \<and> rs1 = rs" and
    b: "if position el = ''bottom'' \<or> position el = ''both''
     then createWaveSection nts el True rs1 = Inr (bw, rs')
     else bw = empty_section \<and> rs' = rs1" and
    o: "out = render_template nts el (position el) tw bw
             (if position el = ''both'' then content_section else [])
             (if position el = ''both'' then ''auto'' else height el)
             (getResponsiveWaveHeight nts el)"
    by blast
  have "sublist ''NaNs '' (styles tw) \<or> sublist ''NaNs '' (styles bw)"
  proof (cases "position el = ''top'' \<or> position el = ''both''")
    case True
    with t have "createWaveSection nts el False rs = Inr (tw, rs1)" by simp
    from section_nan [OF this s c] show ?thesis by simp
  next
    case False
    with p have "position el = ''bottom''" by simp
    with b have "createWaveSection nts el True rs1 = Inr (bw, rs')" by simp
    from section_nan [OF this s c] show ?thesis by simp
  qed
  then show ?thesis unfolding o by (rule template_styles)
qed

subsection \<open>Too many style rules for one string\<close>

lemma len_concat_map_ge:
  "(\<And>x. x \<in> set xs \<Longrightarrow> c \<le> length (f x)) \<Longrightarrow> length xs * c \<le> length (concat (map f xs))"
  by (induction xs) (simp_all add: add_mono)

lemma len_wave_style_ge: "183 \<le> length (wave_style nts el b ds dl ops i)"
  by (cases b) (simp_all add: wave_style_def Let_def)

lemma createWaveSection_too_long:
  assumes "loop_trips (waveCount el) = Some n" "array_from_length (waveCount el) = Some m"
    "string_limit < m * 183"
  shows "createWaveSection nts el b rs = Inl RangeError"
proof -
  have "m * 183 \<le> length (concat (map (wave_style nts el b ds dl ops) [0..<m]))" for ds dl ops
    using len_concat_map_ge [of "[0..<m]" 183 "wave_style nts el b ds dl ops"]
      len_wave_style_ge [of nts el b ds dl ops] by simp
  with assms(3) have "\<not> length (concat (map (wave_style nts el b ds dl ops) [0..<m])) \<le> string_limit"
    for ds dl ops
    by (meson leD le_trans not_le_imp_less)
  then show ?thesis
    by (simp add: createWaveSection_def getAnimationDurations_def getAnimationDelays_def
        getOpacities_def Let_def split_beta assms(1,2) cong: if_cong)
qed

lemma parseInt_3000000: "parseInt ''3000000'' = Fin 3000000"
  by (simp add: parseInt_def is_ws_def parse_int_unsigned_def is_digit_def dec_value_def
      digit_val_def)

lemma render_too_long:
  "render nts (Map.empty(''speed'' \<mapsto> ''abc'', ''wave-count'' \<mapsto> ''3000000'')) rs = Inl RangeError"
proof -
  let ?el = "Map.empty(''speed'' \<mapsto> ''abc'', ''wave-count'' \<mapsto> ''3000000'')"
  have wc: "waveCount ?el = Fin 3000000"
    by (simp add: waveCount_def getAttribute_def or_default_def parseInt_3000000)
  have t: "loop_trips (waveCount ?el) = Some 3000000" unfolding wc by (simp add: array_limit_def)
  have a: "array_from_length (waveCount ?el) = Some 3000000"
    unfolding wc by (simp add: array_length_max_def)
  have l: "string_limit < 3000000 * 183" by (simp add: string_limit_def)
  have p: "position ?el = ''top''" by (simp add: position_def getAttribute_def or_default_def)
  show ?thesis
    by (simp add: render_def Let_def p createWaveSection_too_long [OF t a l])
qed

section \<open>Claims\<close>

text \<open>
  C1.  For a configuration with waveCount = 1, getOpacities does not raise, but its single
  element is \<open>NaN\<close>: the step is a division by \<open>count - 1 = 0\<close>, and the product of that
  quotient with the index \<open>0\<close> is \<open>NaN\<close> whatever the opacity range is.  The code is
  evaluated here at \<open>wave-count="1"\<close> with the default opacity range; the element is
  \<open>NaN\<close>, against the claim.
\<close>

theorem getOpacities_waveCount_one:
  "getOpacities (Map.empty(''wave-count'' \<mapsto> ''1'')) = Inr [NaN]"
  by (rule opacities_count_one) (simp add: waveCount_def getAttribute_def or_default_def parseInt_1)

text \<open>
  C4.  The claim puts every delay in the half-open interval \<open>[-30, 0)\<close> and promises a
  sequence for every wave count.  A draw of \<open>0\<close>, which \<open>Math.random\<close> may return, gives
  the delay \<open>-(0 * 30) = -0\<close>, and \<open>-0 < 0\<close> is false: with the default configuration
  and draws of \<open>0\<close> all four delays are \<open>-0\<close>.  And for \<open>wave-count="112813859"\<close> the loop
  raises at its last push, so no sequence is returned.
\<close>

theorem delays_zero_draw:
  "getAnimationDelays Map.empty (\<lambda>n. 0) = Inr ([NZ, NZ, NZ, NZ], \<lambda>n. 0) \<and> \<not> jlt NZ (Fin 0) \<and>
   getAnimationDelays (Map.empty(''wave-count'' \<mapsto> ''112813859'')) (\<lambda>n. 0) = Inl RangeError"
  by (simp add: getAnimationDelays_def waveCount_default loop_trips_4 random_zero jmul_zero_30
      jlt_def count_over loop_trips_over del: loop_trips.simps)

text \<open>
  C4, amended.  For a wave count \<open>n\<close> from \<open>1\<close> up to the array limit (112,813,858) and
  draws in \<open>[0, 1)\<close>, getAnimationDelays returns a sequence of length \<open>n\<close> whose elements
  all lie in the closed interval \<open>[-30, 0]\<close>.
\<close>

theorem delays_range:
  assumes "unit_draws rs" "waveCount el = Fin (real n)" "1 \<le> n" "n \<le> array_limit"
  shows "\<exists>ds rs'. getAnimationDelays el rs = Inr (ds, rs') \<and> length ds = n \<and>
           (\<forall>d\<in>set ds. jle (Fin (- 30)) d \<and> jle d (Fin 0))"
proof -
  have "loop_trips (waveCount el) = Some n" using assms(2-4) by simp
  then have "getAnimationDelays el rs = Inr (delays_loop n rs)"
    by (simp add: getAnimationDelays_def)
  with delays_loop_range [OF assms(1), of n] show ?thesis
    by (cases "delays_loop n rs") auto
qed

theorem delays_range_witness:
  "unit_draws (\<lambda>n. 1 / 2) \<and> waveCount Map.empty = Fin (real 4) \<and> (1::nat) \<le> 4 \<and>
   4 \<le> array_limit \<and>
   (\<exists>ds rs'. getAnimationDelays Map.empty (\<lambda>n. 1 / 2) = Inr (ds, rs') \<and> length ds = 4 \<and>
      (\<forall>d\<in>set ds. jle (Fin (- 30)) d \<and> jle d (Fin 0)))"
  using delays_range [of "\<lambda>n. 1 / 2" Map.empty 4]
  by (simp add: unit_draws_def waveCount_default array_limit_def)

text \<open>
  C5.  The five documented names map to five distinct non-empty strings, but not every
  other name maps to the string of \<open>smooth\<close>: \<open>styles[key]\<close> also finds what the object
  literal inherits from \<open>Object.prototype\<close>, and the fallback \<open>|| styles.smooth\<close> is taken
  only for a falsy result.  For \<open>animation-style="constructor"\<close> both variants return the
  built-in \<open>Object\<close> function, not the timing string of \<open>smooth\<close>.
\<close>

theorem getEasing_constructor:
  "getEasing (Map.empty(''animation-style'' \<mapsto> ''constructor'')) = NativeFunction ''Object'' \<and>
   getEasing_t (Map.empty(''animation-style'' \<mapsto> ''constructor'')) = NativeFunction ''Object'' \<and>
   getEasing (Map.empty(''animation-style'' \<mapsto> ''smooth'')) = Str ''cubic-bezier(.4,0,.2,1)''"
  by (simp add: getEasing_def getEasing_t_def animationStyle_def getAttribute_def or_default_def
      get_property_def easing_styles_def easing_styles_t_def object_prototype_functions_def
      truthy_def)

text \<open>
  C9.  The four parameter generators of test.ts return exactly what those of index.ts
  return, for the same attributes and the same random draws (results and remaining
  draws, errors included).
\<close>

theorem generators_agree:
  "getAnimationDurations_t el rs = getAnimationDurations el rs \<and>
   getAnimationDelays_t el rs = getAnimationDelays el rs \<and>
   getOpacities_t el = getOpacities el \<and>
   getEasing_t el = getEasing el"
  by (simp add: getAnimationDurations_t_def getAnimationDurations_def durations_loop_t_eq
      getAnimationDelays_t_def getAnimationDelays_def delays_loop_t_eq
      getOpacities_t_def getOpacities_def opacities_loop_t_eq
      getEasing_t_def getEasing_def easing_styles_t_def easing_styles_def
      split: option.splits)

text \<open>
  C3.  For a speed above \<open>0\<close>, draws in \<open>[0, 1)\<close> and a wave count \<open>n \<ge> 1\<close>:
  up to the array limit getAnimationDurations returns a sequence of length \<open>n\<close>, every
  element of which is at least \<open>10 / speed\<close>, and the element at index \<open>i\<close> is
  \<open>max(10 / speed, (15 + 8 * i + jitter) / speed)\<close> for the jitter \<open>(draw - 0.5) * 10\<close> of
  the \<open>i\<close>-th draw, which lies in \<open>[-5, 5]\<close>; above the array limit the loop raises and
  no sequence is returned.  Both sides are Numbers: the quotient, the sum and the
  comparison are those of the program's arithmetic.
\<close>

theorem durations_bound:
  assumes "unit_draws rs" "jlt (Fin 0) (speed el)" "waveCount el = Fin (real n)" "1 \<le> n"
  shows "(n \<le> array_limit \<longrightarrow>
      (\<exists>ds rs'. getAnimationDurations el rs = Inr (ds, rs') \<and> length ds = n \<and>
        (\<forall>i<n. jle (jdiv (dbl 10) (speed el)) (ds ! i) \<and>
           (\<exists>jitter. jitter = jmul (jsub (Fin (rs i)) (dbl 0.5)) (dbl 10) \<and>
              jle (Fin (- 5)) jitter \<and> jle jitter (Fin 5) \<and>
              ds ! i = jmax (jdiv (dbl 10) (speed el))
                (jdiv (jadd (jadd (dbl 15) (jmul (dbl 8) (Fin (real i)))) jitter) (speed el)))))) \<and>
    (array_limit < n \<longrightarrow> getAnimationDurations el rs = Inl RangeError)"
proof (intro conjI impI)
  assume over: "array_limit < n"
  then have "loop_trips (waveCount el) = None" using assms(3) by simp
  then show "getAnimationDurations el rs = Inl RangeError"
    by (simp add: getAnimationDurations_def)
next
  assume lim: "n \<le> array_limit"
  have trips: "loop_trips (waveCount el) = Some n" using assms(3,4) lim by simp
  define ds where "ds = fst (durations_loop (speed el) n 0 rs)"
  have g: "getAnimationDurations el rs = Inr (ds, snd (durations_loop (speed el) n 0 rs))"
    by (simp add: getAnimationDurations_def trips ds_def)
  have len: "length ds = n" by (simp add: ds_def durations_loop_length)
  have at: "jle (jdiv (dbl 10) (speed el)) (ds ! i) \<and>
       (\<exists>jitter. jitter = jmul (jsub (Fin (rs i)) (dbl 0.5)) (dbl 10) \<and>
          jle (Fin (- 5)) jitter \<and> jle jitter (Fin 5) \<and>
          ds ! i = jmax (jdiv (dbl 10) (speed el))
                     (jdiv (jadd (jadd (dbl 15) (jmul (dbl 8) (Fin (real i)))) jitter) (speed el)))"
    if "i < n" for i
  proof -
    from that lim have i: "i < n" "i < 2 ^ 32" by (simp_all add: array_limit_def)
    define jit where "jit = jmul (jsub (Fin (rs i)) (Fin (1 / 2))) (Fin 10)"
    have j: "is_fin jit \<and> - 5 \<le> val jit \<and> val jit \<le> 5"
      unfolding jit_def using unit_draws_head [OF assms(1), of i] by (intro jitter_range) simp_all
    have el: "ds ! i = jmax (jdiv (Fin 10) (speed el))
                (jdiv (jadd (jadd (Fin 15) (jmul (Fin (real i)) (Fin 8))) jit) (speed el))"
      using durations_loop_nth [OF i(1), of "speed el" 0 rs] by (simp add: ds_def jit_def)
    have num: "is_fin (jadd (jadd (Fin 15) (jmul (Fin (real i)) (Fin 8))) jit) \<and>
        0 < val (jadd (jadd (Fin 15) (jmul (Fin (real i)) (Fin 8))) jit)"
      unfolding base_duration [OF i(2)] using j by (intro numerator_pos i(2)) simp_all
    have a: "jdiv (Fin 10) (speed el) \<noteq> NaN"
      by (rule jdiv_pos_not_NaN [OF _ _ assms(2)]) simp_all
    have b: "jdiv (jadd (jadd (Fin 15) (jmul (Fin (real i)) (Fin 8))) jit) (speed el) \<noteq> NaN"
      using num by (intro jdiv_pos_not_NaN [OF _ _ assms(2)]) simp_all
    have "jle (jdiv (Fin 10) (speed el)) (ds ! i)"
      unfolding el by (rule jmax_ge_left [OF a b])
    moreover have "jle (Fin (- 5)) jit \<and> jle jit (Fin 5)"
      using j by (simp add: jle_Fin_iff)
    ultimately show ?thesis
      using el by (simp add: jmul_commute [of "Fin 8"] jit_def dbl_half)
  qed
  from g len at
  show "\<exists>ds rs'. getAnimationDurations el rs = Inr (ds, rs') \<and> length ds = n \<and>
        (\<forall>i<n. jle (jdiv (dbl 10) (speed el)) (ds ! i) \<and>
           (\<exists>jitter. jitter = jmul (jsub (Fin (rs i)) (dbl 0.5)) (dbl 10) \<and>
              jle (Fin (- 5)) jitter \<and> jle jitter (Fin 5) \<and>
              ds ! i = jmax (jdiv (dbl 10) (speed el))
                (jdiv (jadd (jadd (dbl 15) (jmul (dbl 8) (Fin (real i)))) jitter) (speed el))))"
    by blast
qed

theorem durations_bound_witness:
  "unit_draws (\<lambda>k. if k = 0 then 0 else 1 / 2) \<and>
   jlt (Fin 0) (speed (Map.empty(''speed'' \<mapsto> ''2'', ''wave-count'' \<mapsto> ''3''))) \<and>
   waveCount (Map.empty(''speed'' \<mapsto> ''2'', ''wave-count'' \<mapsto> ''3'')) = Fin (real 3) \<and>
   (1::nat) \<le> 3 \<and> 3 \<le> array_limit \<and>
   getAnimationDurations (Map.empty(''speed'' \<mapsto> ''2'', ''wave-count'' \<mapsto> ''3''))
     (\<lambda>k. if k = 0 then 0 else 1 / 2) = Inr ([Fin 5, Fin (23 / 2), Fin (31 / 2)], \<lambda>k. 1 / 2) \<and>
   jle (jdiv (dbl 10) (Fin 2)) (Fin 5) \<and> jle (jdiv (dbl 10) (Fin 2)) (Fin (23 / 2)) \<and>
   jle (jdiv (dbl 10) (Fin 2)) (Fin (31 / 2)) \<and>
   jlt (Fin 0) (speed (Map.empty(''wave-count'' \<mapsto> ''112813859''))) \<and>
   waveCount (Map.empty(''wave-count'' \<mapsto> ''112813859'')) = Fin (real 112813859) \<and>
   array_limit < 112813859 \<and>
   getAnimationDurations (Map.empty(''wave-count'' \<mapsto> ''112813859''))
     (\<lambda>k. if k = 0 then 0 else 1 / 2) = Inl RangeError"
proof -
  let ?el = "Map.empty(''speed'' \<mapsto> ''2'', ''wave-count'' \<mapsto> ''3'')"
  let ?big = "Map.empty(''wave-count'' \<mapsto> ''112813859'')"
  let ?rs = "\<lambda>k::nat. if k = 0 then 0 else 1 / 2 :: real"
  have h1: "unit_draws ?rs" by (simp add: unit_draws_def)
  have h2: "jlt (Fin 0) (speed ?el)" by (simp add: speed_2_count_3 jlt_def)
  have h3: "waveCount ?el = Fin (real 3)" by (simp add: speed_2_count_3)
  have h4: "(1::nat) \<le> 3" by simp
  have h5: "3 \<le> array_limit" by (simp add: array_limit_def)
  have b2: "jlt (Fin 0) (speed ?big)"
    by (simp add: speed_def getAttribute_def or_default_def parseFloat_1 jlt_def)
  have b3: "waveCount ?big = Fin (real 112813859)" by (simp add: count_over)
  have b4: "(1::nat) \<le> 112813859" by simp
  have b5: "array_limit < 112813859" by (simp add: array_limit_def)
  from durations_bound [OF h1 h2 h3 h4] h5 obtain ds rs' where
    g: "getAnimationDurations ?el ?rs = Inr (ds, rs')" and
    a: "\<forall>i<3. jle (jdiv (dbl 10) (speed ?el)) (ds ! i)"
    by blast
  from g have ds: "ds = [Fin 5, Fin (23 / 2), Fin (31 / 2)]" by (simp add: durations_speed_2)
  from a have "jle (jdiv (dbl 10) (speed ?el)) (ds ! 0)" "jle (jdiv (dbl 10) (speed ?el)) (ds ! 1)"
    "jle (jdiv (dbl 10) (speed ?el)) (ds ! 2)" by simp_all
  moreover from durations_bound [OF h1 b2 b3 b4] b5
  have "getAnimationDurations ?big ?rs = Inl RangeError" by blast
  ultimately show ?thesis
    using h1 h2 h3 h5 b2 b3 b5 durations_speed_2 by (simp add: ds speed_2_count_3)
qed

text \<open>
  C2.  The claim asks for a last element equal to max and for the element at index \<open>i\<close>
  equal to \<open>min + i * (max - min) / (n - 1)\<close>.  The code divides first and multiplies
  the rounded step by the index, so the last element is \<open>min + ((max - min) / (n - 1)) *
  (n - 1)\<close> in double arithmetic.  For \<open>wave-count="50"\<close> and \<open>opacity-range="0,1"\<close> that
  is \<open>(1 / 49) * 49 = 0.9999999999999999\<close> (the double below \<open>1\<close>), not \<open>1\<close>.  The claim
  also promises a sequence for every \<open>n \<ge> 2\<close>; for \<open>wave-count="112813859"\<close> the loop
  raises at its last push and no sequence is returned.
\<close>

theorem opacities_last_below_max:
  "map_sum id last
     (getOpacities (Map.empty(''wave-count'' \<mapsto> ''50'', ''opacity-range'' \<mapsto> ''0,1''))) =
     Inr (Fin (9007199254740991 / 9007199254740992)) \<and>
   maxOpacity_of
     (opacityRange (Map.empty(''wave-count'' \<mapsto> ''50'', ''opacity-range'' \<mapsto> ''0,1''))) = Fin 1 \<and>
   \<not> jeq (Fin (9007199254740991 / 9007199254740992)) (Fin 1) \<and>
   getOpacities (Map.empty(''wave-count'' \<mapsto> ''112813859'')) = Inl RangeError"
proof -
  let ?el = "Map.empty(''wave-count'' \<mapsto> ''50'', ''opacity-range'' \<mapsto> ''0,1'')"
  have g: "getOpacities ?el = Inr (opacities_loop (Fin 0) (Fin (5882252574524729 / 2 ^ 58)) 50 0)"
    unfolding getOpacities_def Let_def range_0_1 count_50
    by (simp add: minOpacity_of_def maxOpacity_of_def step_49 array_limit_def)
  have "last (opacities_loop (Fin 0) (Fin (5882252574524729 / 2 ^ 58)) 50 0) =
      opacities_loop (Fin 0) (Fin (5882252574524729 / 2 ^ 58)) 50 0 ! 49"
    by (subst last_conv_nth) (auto simp add: opacities_loop_length simp flip: length_0_conv)
  also have "\<dots> = Fin (9007199254740991 / 2 ^ 53)"
    using last_49 by (simp add: opacities_loop_nth)
  finally show ?thesis
    by (simp add: g range_0_1 maxOpacity_of_def jeq_def opacities_over)
qed

text \<open>
  C2, amended.  For a wave count \<open>n\<close> from \<open>2\<close> up to the array limit (112,813,858) and
  an opacity range of finite values \<open>min \<le> max\<close> of magnitude at most \<open>2^1000\<close>,
  getOpacities returns a sequence of length \<open>n\<close> whose element at index \<open>i\<close> is the double
  \<open>min + ((max - min) / (n - 1)) * i\<close> (quotient first, each operation rounded); the
  sequence is non-decreasing, its first element equals min, and its last element equals
  max up to rounding: it differs from max by at most \<open>(|min| + |max|) / 2^49 + n / 2^1072\<close>.
\<close>

theorem opacities_interpolation:
  fixes el :: element and n :: nat
  defines "mn \<equiv> minOpacity_of (opacityRange el)" and "mx \<equiv> maxOpacity_of (opacityRange el)"
  assumes wc: "waveCount el = Fin (real n)" and n: "2 \<le> n" "n \<le> array_limit"
    and le: "jle mn mx" and fin: "is_fin mn" "is_fin mx"
    and mag: "\<bar>val mn\<bar> \<le> 2 ^ 1000" "\<bar>val mx\<bar> \<le> 2 ^ 1000"
  shows "\<exists>ops. getOpacities el = Inr ops \<and> length ops = n \<and>
    (\<forall>i<n. ops ! i = jadd mn (jmul (jdiv (jsub mx mn) (Fin (real n - 1))) (Fin (real i)))) \<and>
    jeq (ops ! 0) mn \<and>
    (\<forall>i j. i \<le> j \<and> j < n \<longrightarrow> jle (ops ! i) (ops ! j)) \<and>
    is_fin (last ops) \<and>
    \<bar>val (last ops) - val mx\<bar> \<le> (\<bar>val mn\<bar> + \<bar>val mx\<bar>) / 2 ^ 49 + real n * 2 powi (- 1072)"
proof -
  define N where "N = real (n - 1)"
  define st where "st = jdiv (jsub mx mn) (Fin N)"
  define ops where "ops = opacities_loop mn st n 0"
  have N: "1 \<le> N" "N \<le> 2 ^ 32" "N = real n - 1"
    using n by (simp_all add: N_def array_limit_def of_nat_diff)
  have ab: "val mn \<le> val mx" using le fin by (simp add: jle_def is_fin_cls)
  note d = opacity_difference [OF fin ab mag]
  note s = opacity_step [OF d(1,2,4) N(1), folded st_def]
  have trips: "loop_trips (Fin (real n)) = Some n" using n by auto
  have g: "getOpacities el = Inr ops"
    unfolding getOpacities_def Let_def wc trips wave_count_minus_one [OF n]
    by (simp add: ops_def st_def N_def mn_def mx_def)
  have len: "length ops = n" by (simp add: ops_def opacities_loop_length)
  have nth: "ops ! i = jadd mn (jmul st (Fin (real i)))" if "i < n" for i
    using that by (simp add: ops_def opacities_loop_nth)
  have sN: "val st * N \<le> 2 ^ 1006"
  proof -
    have "val (jsub mx mn) / 2 ^ 53 \<le> val (jsub mx mn)" using d(2) by (simp add: field_simps)
    moreover have "N * 2 powi (- 1075) \<le> 2 ^ 32 * 1"
      using N eta_small by (intro mult_mono) simp_all
    ultimately have "val st * N \<le> 2 * val (jsub mx mn) + 2 ^ 32" using s(3) by argo
    with d(4) show ?thesis by simp
  qed
  have at: "is_fin (ops ! i) \<and> val (ops ! i) = val (fl (val mn + val (fl (val st * real i)))) \<and>
      \<bar>val mn + val (fl (val st * real i))\<bar> \<le> 2 ^ 1023 \<and> val st * real i \<le> 2 ^ 1006"
    if "i < n" for i
  proof -
    have x: "0 \<le> real i" by simp
    have "real i \<le> N" using that by (simp add: N_def)
    then have "val st * real i \<le> val st * N" using s(2) by (intro mult_left_mono)
    with sN have y: "val st * real i \<le> 2 ^ 1006" by simp
    note p = opacity_product [OF s(1,2) x y]
    note o = opacity_sum [OF fin(1) p(1) mag(1) p(3,4)]
    show ?thesis using o p(2) y by (simp add: nth [OF that])
  qed
  have fin_at: "is_fin (ops ! i)" if "i < n" for i using at [OF that] by simp
  have val_at: "val (ops ! i) = val (fl (val mn + val (fl (val st * real i))))" if "i < n" for i
    using at [OF that] by simp
  have first: "jeq (ops ! 0) mn"
  proof -
    have 0: "0 < n" using n by simp
    have "val (fl (val mn)) = val mn" using fin(1) minOpacity_double [of el "val mn"]
      by (cases mn) (simp_all add: mn_def)
    then have "val (ops ! 0) = val mn" using val_at [OF 0] by simp
    with fin_at [OF 0] fin(1) show ?thesis by (simp add: jeq_def is_fin_cls)
  qed
  have mono: "jle (ops ! i) (ops ! j)" if "i \<le> j" "j < n" for i j
  proof -
    from that have i: "i < n" by simp
    have "val st * real i \<le> val st * real j" using that s(2) by (intro mult_left_mono) simp_all
    then have "val (fl (val st * real i)) \<le> val (fl (val st * real j))"
      using at [OF i] at [OF that(2)] s(2) by (intro val_fl_mono) simp_all
    then have "val mn + val (fl (val st * real i)) \<le> val mn + val (fl (val st * real j))" by simp
    then have "val (ops ! i) \<le> val (ops ! j)"
      unfolding val_at [OF i] val_at [OF that(2)]
      using at [OF i] at [OF that(2)] by (intro val_fl_mono) simp_all
    with fin_at [OF i] fin_at [OF that(2)] show ?thesis by (simp add: jle_def is_fin_cls)
  qed
  have l: "n - 1 < n" "real (n - 1) = N" using n by (simp_all add: N_def)
  note atN = at [OF l(1), unfolded l(2)]
  have last: "last ops = ops ! (n - 1)"
    using len n by (subst last_conv_nth) auto
  have tol: "\<bar>val (ops ! (n - 1)) - val mx\<bar>
      \<le> (\<bar>val mn\<bar> + \<bar>val mx\<bar>) / 2 ^ 49 + (N + 1) * (8 * 2 powi (- 1075))"
  proof (rule interpolation_error [where vd = "val (jsub mx mn)" and sN = "val st * N"
        and vp = "val (fl (val st * N))"])
    show "val mn \<le> val mx" by (rule ab)
    show "0 \<le> (2::real) powi (- 1075)" by (rule eta_small)
    show "1 \<le> N" "N \<le> 2 ^ 32" by (rule N)+
    show "\<bar>val (jsub mx mn) - (val mx - val mn)\<bar> \<le> (val mx - val mn) / 2 ^ 53 + 2 powi (- 1075)"
      by (rule d(3))
    show "0 \<le> val (jsub mx mn)" by (rule d(2))
    show "\<bar>val st * N - val (jsub mx mn)\<bar> \<le> val (jsub mx mn) / 2 ^ 53 + N * 2 powi (- 1075)"
      by (rule s(3))
    show sn0: "0 \<le> val st * N" using s(2) N(1) by simp
    have sn1: "val st * N \<le> 2 ^ 1022" using sN by simp
    show "\<bar>val (fl (val st * N)) - val st * N\<bar> \<le> val st * N / 2 ^ 53 + 2 powi (- 1075)"
      by (rule val_fl_bounds(3) [OF sn0 sn1])
    show "0 \<le> val (fl (val st * N))" by (rule val_fl_bounds(2) [OF sn0 sn1])
    have "\<bar>val mn + val (fl (val st * N))\<bar> \<le> 2 ^ 1023"
      using atN by simp
    from fl_error [OF this] atN
    show "\<bar>val (ops ! (n - 1)) - (val mn + val (fl (val st * N)))\<bar>
        \<le> \<bar>val mn + val (fl (val st * N))\<bar> / 2 ^ 53 + 2 powi (- 1075)"
      by simp
  qed
  have "(N + 1) * (8 * 2 powi (- 1075)) = real n * 2 powi (- 1072)"
  proof -
    have "(2::real) powi (- 1072) = 2 powi 3 * 2 powi (- 1075)" by (subst p2_add [symmetric]) simp
    then show ?thesis using N(3) by simp
  qed
  with tol have tol': "\<bar>val (last ops) - val mx\<bar>
      \<le> (\<bar>val mn\<bar> + \<bar>val mx\<bar>) / 2 ^ 49 + real n * 2 powi (- 1072)"
    by (simp only: last)
  have "\<forall>i<n. ops ! i = jadd mn (jmul (jdiv (jsub mx mn) (Fin (real n - 1))) (Fin (real i)))"
    using nth by (simp add: st_def N(3))
  with g len first mono tol' fin_at [OF l(1)] last show ?thesis by auto
qed

theorem opacities_interpolation_witness:
  "waveCount (Map.empty(''wave-count'' \<mapsto> ''50'', ''opacity-range'' \<mapsto> ''0,1'')) = Fin (real 50) \<and>
   (2::nat) \<le> 50 \<and> 50 \<le> array_limit \<and>
   jle (Fin 0) (Fin 1) \<and> is_fin (Fin 0) \<and> is_fin (Fin 1) \<and>
   \<bar>val (Fin 0)\<bar> \<le> 2 ^ 1000 \<and> \<bar>val (Fin 1)\<bar> \<le> 2 ^ 1000 \<and>
   (\<exists>ops. getOpacities (Map.empty(''wave-count'' \<mapsto> ''50'', ''opacity-range'' \<mapsto> ''0,1'')) = Inr ops \<and>
      length ops = 50 \<and> jeq (ops ! 0) (Fin 0) \<and> jle (ops ! 0) (ops ! 49) \<and>
      \<bar>val (last ops) - 1\<bar> \<le> 1 / 2 ^ 49 + 50 * 2 powi (- 1072))"
proof -
  let ?el = "Map.empty(''wave-count'' \<mapsto> ''50'', ''opacity-range'' \<mapsto> ''0,1'')"
  have mn: "minOpacity_of (opacityRange ?el) = Fin 0" and mx: "maxOpacity_of (opacityRange ?el) = Fin 1"
    by (simp_all add: range_0_1 minOpacity_of_def maxOpacity_of_def)
  have h1: "waveCount ?el = Fin (real 50)" by (simp add: count_50)
  have h2: "(2::nat) \<le> 50" by simp
  have h3: "50 \<le> array_limit" by (simp add: array_limit_def)
  have h4: "jle (minOpacity_of (opacityRange ?el)) (maxOpacity_of (opacityRange ?el))"
    unfolding mn mx by (simp add: jle_def)
  have h5: "is_fin (minOpacity_of (opacityRange ?el))" unfolding mn by simp
  have h6: "is_fin (maxOpacity_of (opacityRange ?el))" unfolding mx by simp
  have h7: "\<bar>val (minOpacity_of (opacityRange ?el))\<bar> \<le> 2 ^ 1000" unfolding mn by simp
  have h8: "\<bar>val (maxOpacity_of (opacityRange ?el))\<bar> \<le> 2 ^ 1000" unfolding mx by simp
  from opacities_interpolation [OF h1 h2 h3 h4 h5 h6 h7 h8]
  obtain ops where o: "getOpacities ?el = Inr ops" "length ops = 50" "jeq (ops ! 0) (Fin 0)"
    "\<forall>i j. i \<le> j \<and> j < 50 \<longrightarrow> jle (ops ! i) (ops ! j)"
    "\<bar>val (last ops) - val (Fin 1)\<bar> \<le> (\<bar>val (Fin 0)\<bar> + \<bar>val (Fin 1)\<bar>) / 2 ^ 49 + real 50 * 2 powi (- 1072)"
    unfolding mn mx by blast
  from o(4) have "jle (ops ! 0) (ops ! 49)" by simp
  with o(1-3,5) h1 h3 show ?thesis by (simp add: jle_def del: power_int_minus)
qed



text \<open>
  C7.  The claim counts the sections of the output for every configuration.  The
  attributes are put into the text as they are, so a value that holds markup adds to it:
  with \<open>position="both"\<close> and a \<open>background-color\<close> that closes the style element and opens
  a content section with a slot, the output of either variant has two content sections
  and two slots.  (The counts do not depend on the digits of the Numbers in the output;
  they are printed here, and in the other examples below, by a stand-in that writes \<open>1\<close>
  for every Number.)
\<close>

theorem render_sections_markup:
  \<open>attrs_within 1000 (Map.empty(''position'' \<mapsto> ''both'',
       ''background-color'' \<mapsto> ''</style><div class="content-section"><slot></slot></div><style>'')) \<and>
   \<not> jlt (Fin 1000) (waveCount (Map.empty(''position'' \<mapsto> ''both'',
       ''background-color'' \<mapsto> ''</style><div class="content-section"><slot></slot></div><style>''))) \<and>
   position (Map.empty(''position'' \<mapsto> ''both'',
       ''background-color'' \<mapsto> ''</style><div class="content-section"><slot></slot></div><style>'')) = ''both'' \<and>
   map_sum id (section_counts \<circ> fst) (render (\<lambda>r. ''1'') (Map.empty(''position'' \<mapsto> ''both'',
       ''background-color'' \<mapsto> ''</style><div class="content-section"><slot></slot></div><style>''))
       (\<lambda>n. 1 / 2)) = Inr (1, 1, 2, 2) \<and>
   map_sum id (section_counts \<circ> fst) (render_t (\<lambda>r. ''1'') (Map.empty(''position'' \<mapsto> ''both'',
       ''background-color'' \<mapsto> ''</style><div class="content-section"><slot></slot></div><style>''))
       (\<lambda>n. 1 / 2)) = Inr (1, 1, 2, 2)\<close>
proof -
  let ?el = \<open>Map.empty(''position'' \<mapsto> ''both'',
       ''background-color'' \<mapsto> ''</style><div class="content-section"><slot></slot></div><style>'')\<close>
  have w: "attrs_within 1000 ?el"
    by (simp add: attrs_within_def getAttribute_def)
  have c: "\<not> jlt (Fin 1000) (waveCount ?el)"
    by (simp add: waveCount_def getAttribute_def or_default_def parseInt_4 jlt_def)
  have p: "position ?el = ''both''"
    by (simp add: position_def getAttribute_def or_default_def)
  have g: "CHR ''<'' \<notin> set (waveColor ?el)" "CHR ''<'' \<notin> set (height ?el)"
    "CHR ''<'' \<notin> set (waveHeight ?el)" "CHR ''<'' \<notin> set (contentPadding ?el)"
    "CHR ''<'' \<notin> set (contentBackgroundColor ?el)"
    by (simp_all add: waveColor_def height_def waveHeight_def contentPadding_def
        contentBackgroundColor_def getAttribute_def or_default_def)
  have bg: \<open>backgroundColor ?el = ''</style><div class="content-section"><slot></slot></div><style>''\<close>
    by (simp add: backgroundColor_def getAttribute_def or_default_def)
  have x1: \<open>occurrences ''<div class="wave-section top-waves">'' (backgroundColor ?el @ s) =
       0 + occurrences ''<div class="wave-section top-waves">'' s\<close> for s
    unfolding bg by (simp add: occ del: occurrences.simps(2))
  have x2: \<open>occurrences ''<div class="wave-section bottom-waves">'' (backgroundColor ?el @ s) =
       0 + occurrences ''<div class="wave-section bottom-waves">'' s\<close> for s
    unfolding bg by (simp add: occ del: occurrences.simps(2))
  have x3: \<open>occurrences ''<div class="content-section">'' (backgroundColor ?el @ s) =
       1 + occurrences ''<div class="content-section">'' s\<close> for s
    unfolding bg by (simp add: occ del: occurrences.simps(2))
  have x4: \<open>occurrences ''<slot>'' (backgroundColor ?el @ s) = 1 + occurrences ''<slot>'' s\<close> for s
    unfolding bg by (simp add: occ del: occurrences.simps(2))
  from trips_within [OF c] obtain n where
    n: "loop_trips (waveCount ?el) = Some n" "n \<le> 1000" by blast
  from render_returns [OF n nts_one w] obtain out rs' where
    r: "render (\<lambda>r. ''1'') ?el (\<lambda>n. 1 / 2) = Inr (out, rs')" by blast
  from render_t_returns [OF n nts_one w] obtain out_t rs_t where
    t: "render_t (\<lambda>r. ''1'') ?el (\<lambda>n. 1 / 2) = Inr (out_t, rs_t)" by blast
  have "section_counts out = (1, 1, 2, 2)"
    using render_counts_gen [OF g x1 x2 x3 x4 nts_one r] by (simp add: p)
  moreover have "section_counts out_t = (1, 1, 2, 2)"
    using render_t_counts_gen [OF g x1 x2 x3 x4 nts_one t] by (simp add: p)
  ultimately show ?thesis using w c p r t by simp
qed

text \<open>
  C7, amended.  When no attribute value holds the character \<open><\<close> (and Numbers are printed
  in decimal), every output that render returns, in either variant, has exactly one top
  wave section, one bottom wave section, one content section and one slot for
  \<open>position="both"\<close>, and exactly one top wave section and none of the others for
  \<open>position="top"\<close>.  An output is returned whenever the wave count is not above 1000 and
  no attribute value is longer than 1000 characters.
\<close>

theorem render_sections:
  assumes "attrs_avoid (CHR ''<'') el" and "decimal_output nts"
  shows "(\<forall>out rs'. render nts el rs = Inr (out, rs') \<longrightarrow>
            (position el = ''both'' \<longrightarrow> section_counts out = (1, 1, 1, 1)) \<and>
            (position el = ''top'' \<longrightarrow> section_counts out = (1, 0, 0, 0))) \<and>
         (\<forall>out rs'. render_t nts el rs = Inr (out, rs') \<longrightarrow>
            (position el = ''both'' \<longrightarrow> section_counts out = (1, 1, 1, 1)) \<and>
            (position el = ''top'' \<longrightarrow> section_counts out = (1, 0, 0, 0))) \<and>
         (attrs_within 1000 el \<and> \<not> jlt (Fin 1000) (waveCount el) \<longrightarrow>
            (\<exists>out rs'. render nts el rs = Inr (out, rs')) \<and>
            (\<exists>out rs'. render_t nts el rs = Inr (out, rs')))"
proof (intro conjI allI impI)
  fix out rs' assume "render nts el rs = Inr (out, rs')"
  from render_counts [OF assms this]
  show "position el = ''both'' \<Longrightarrow> section_counts out = (1, 1, 1, 1)"
    and "position el = ''top'' \<Longrightarrow> section_counts out = (1, 0, 0, 0)" by simp_all
next
  fix out rs' assume "render_t nts el rs = Inr (out, rs')"
  from render_t_counts [OF assms this]
  show "position el = ''both'' \<Longrightarrow> section_counts out = (1, 1, 1, 1)"
    and "position el = ''top'' \<Longrightarrow> section_counts out = (1, 0, 0, 0)" by simp_all
next
  assume h: "attrs_within 1000 el \<and> \<not> jlt (Fin 1000) (waveCount el)"
  from h trips_within obtain n where
    n: "loop_trips (waveCount el) = Some n" "n \<le> 1000" by blast
  from h render_returns [OF n assms(2)] show "\<exists>out rs'. render nts el rs = Inr (out, rs')"
    by blast
  from h render_t_returns [OF n assms(2)] show "\<exists>out rs'. render_t nts el rs = Inr (out, rs')"
    by blast
qed

theorem render_sections_witness:
  "attrs_avoid (CHR ''<'') (Map.empty(''position'' \<mapsto> ''both'')) \<and>
   attrs_within 1000 (Map.empty(''position'' \<mapsto> ''both'')) \<and>
   decimal_output (\<lambda>r. ''1'') \<and>
   \<not> jlt (Fin 1000) (waveCount (Map.empty(''position'' \<mapsto> ''both''))) \<and>
   position (Map.empty(''position'' \<mapsto> ''both'')) = ''both'' \<and>
   (\<exists>out rs'. render (\<lambda>r. ''1'') (Map.empty(''position'' \<mapsto> ''both'')) (\<lambda>n. 1 / 2) = Inr (out, rs') \<and>
      section_counts out = (1, 1, 1, 1)) \<and>
   (\<exists>out rs'. render_t (\<lambda>r. ''1'') (Map.empty(''position'' \<mapsto> ''both'')) (\<lambda>n. 1 / 2) = Inr (out, rs') \<and>
      section_counts out = (1, 1, 1, 1)) \<and>
   attrs_avoid (CHR ''<'') Map.empty \<and> attrs_within 1000 Map.empty \<and>
   \<not> jlt (Fin 1000) (waveCount Map.empty) \<and> position Map.empty = ''top'' \<and>
   (\<exists>out rs'. render (\<lambda>r. ''1'') Map.empty (\<lambda>n. 1 / 2) = Inr (out, rs') \<and>
      section_counts out = (1, 0, 0, 0)) \<and>
   (\<exists>out rs'. render_t (\<lambda>r. ''1'') Map.empty (\<lambda>n. 1 / 2) = Inr (out, rs') \<and>
      section_counts out = (1, 0, 0, 0))"
proof -
  let ?b = "Map.empty(''position'' \<mapsto> ''both'')"
  let ?t = "Map.empty :: element"
  have a: "attrs_avoid (CHR ''<'') ?b" "attrs_avoid (CHR ''<'') ?t"
    by (simp_all add: attrs_avoid_def getAttribute_def)
  have w: "attrs_within 1000 ?b" "attrs_within 1000 ?t"
    by (simp_all add: attrs_within_def getAttribute_def)
  have c: "\<not> jlt (Fin 1000) (waveCount ?b)" "\<not> jlt (Fin 1000) (waveCount ?t)"
    by (simp_all add: waveCount_def getAttribute_def or_default_def parseInt_4 jlt_def)
  have p: "position ?b = ''both''" "position ?t = ''top''"
    by (simp_all add: position_def getAttribute_def or_default_def)
  note b = render_sections [OF a(1) nts_one, of "\<lambda>n. 1 / 2"]
  note t = render_sections [OF a(2) nts_one, of "\<lambda>n. 1 / 2"]
  from b w(1) c(1) obtain ob rb obt rbt where
    rb: "render (\<lambda>r. ''1'') ?b (\<lambda>n. 1 / 2) = Inr (ob, rb)"
      "render_t (\<lambda>r. ''1'') ?b (\<lambda>n. 1 / 2) = Inr (obt, rbt)" by blast
  from t w(2) c(2) obtain ot rt ott rtt where
    rt: "render (\<lambda>r. ''1'') ?t (\<lambda>n. 1 / 2) = Inr (ot, rt)"
      "render_t (\<lambda>r. ''1'') ?t (\<lambda>n. 1 / 2) = Inr (ott, rtt)" by blast
  from b rb p(1) have "section_counts ob = (1, 1, 1, 1)" "section_counts obt = (1, 1, 1, 1)"
    by blast+
  moreover from t rt p(2) have "section_counts ot = (1, 0, 0, 0)" "section_counts ott = (1, 0, 0, 0)"
    by blast+
  ultimately show ?thesis using a w c p nts_one rb rt by simp
qed




text \<open>
  C6.  The claim says that render never raises when the speed is not a number.  It does
  for \<open>speed="abc"\<close> and \<open>wave-count="112813859"\<close>: the loop of getAnimationDurations pushes
  \<open>NaN\<close> until the engine raises \<open>RangeError: Invalid array length\<close>.  It also does for
  \<open>wave-count="3000000"\<close>: the three million style rules, of more than 183 characters
  each, do not fit into one string, and joining them raises \<open>RangeError: Invalid string
  length\<close>.  And the empty string, which \<open>parseFloat\<close> cannot read either, does not reach
  it: \<open>speed=""\<close> gives the default speed \<open>1\<close>, so no \<open>NaN\<close> arises.
\<close>

theorem render_speed_nan_overflow:
  "getAttribute (Map.empty(''speed'' \<mapsto> ''abc'', ''wave-count'' \<mapsto> ''112813859'')) ''speed'' =
     Some ''abc'' \<and>
   parseFloat ''abc'' = NaN \<and>
   render (\<lambda>r. ''1'') (Map.empty(''speed'' \<mapsto> ''abc'', ''wave-count'' \<mapsto> ''112813859''))
     (\<lambda>n. 1 / 2) = Inl RangeError \<and>
   render (\<lambda>r. ''1'') (Map.empty(''speed'' \<mapsto> ''abc'', ''wave-count'' \<mapsto> ''3000000''))
     (\<lambda>n. 1 / 2) = Inl RangeError \<and>
   parseFloat '''' = NaN \<and> speed (Map.empty(''speed'' \<mapsto> '''')) = Fin 1"
proof -
  let ?el = "Map.empty(''speed'' \<mapsto> ''abc'', ''wave-count'' \<mapsto> ''112813859'')"
  have wc: "waveCount ?el = Fin 112813859"
    by (simp add: waveCount_def getAttribute_def or_default_def parseInt_over)
  have d: "getAnimationDurations ?el rs = Inl RangeError" for rs
    by (simp add: getAnimationDurations_def Let_def wc loop_trips_over del: loop_trips.simps)
  have p: "position ?el = ''top''" by (simp add: position_def getAttribute_def or_default_def)
  have "render (\<lambda>r. ''1'') ?el (\<lambda>n. 1 / 2) = Inl RangeError"
    by (simp add: render_def Let_def p createWaveSection_def d)
  moreover have "parseFloat '''' = NaN" by (simp add: parseFloat_def)
  moreover have "speed (Map.empty(''speed'' \<mapsto> '''')) = Fin 1"
    by (simp add: speed_def getAttribute_def or_default_def parseFloat_1)
  ultimately show ?thesis by (simp add: getAttribute_def parseFloat_abc render_too_long)
qed

text \<open>
  C6, amended.  Let the speed attribute be a non-empty string that \<open>parseFloat\<close> cannot
  read (the empty string counts as absent and gives the default \<open>1\<close>).  Then every
  duration that getAnimationDurations returns is \<open>NaN\<close>; every output that render returns
  has \<open>NaNs\<close> as a duration in its style text when a wave is drawn (a wave count of at
  least \<open>1\<close> and a position \<open>top\<close>, \<open>bottom\<close> or \<open>both\<close>); and render does return an output,
  without raising, whenever the wave count is not above 1000 and no attribute value is
  longer than 1000 characters (Numbers being printed in decimal).
\<close>

theorem render_speed_nan:
  assumes "getAttribute el ''speed'' = Some s" and "s \<noteq> []" and "parseFloat s = NaN"
  shows "(\<forall>n. loop_trips (waveCount el) = Some n \<longrightarrow>
            (\<exists>rs1. getAnimationDurations el rs = Inr (replicate n NaN, rs1))) \<and>
         (\<forall>out rs'. render nts el rs = Inr (out, rs') \<and> jle (Fin 1) (waveCount el) \<and>
              (position el = ''top'' \<or> position el = ''bottom'' \<or> position el = ''both'') \<longrightarrow>
            sublist ''NaNs '' out) \<and>
         (attrs_within 1000 el \<and> decimal_output nts \<and> \<not> jlt (Fin 1000) (waveCount el) \<longrightarrow>
            (\<exists>out rs'. render nts el rs = Inr (out, rs')))"
proof (intro conjI allI impI)
  note sp = speed_nan [OF assms]
  fix n assume "loop_trips (waveCount el) = Some n"
  then have "getAnimationDurations el rs =
      Inr (fst (durations_loop NaN n 0 rs), snd (durations_loop NaN n 0 rs))"
    by (simp add: getAnimationDurations_def sp)
  then show "\<exists>rs1. getAnimationDurations el rs = Inr (replicate n NaN, rs1)"
    unfolding durations_loop_nan by blast
next
  fix out rs'
  assume "render nts el rs = Inr (out, rs') \<and> jle (Fin 1) (waveCount el) \<and>
    (position el = ''top'' \<or> position el = ''bottom'' \<or> position el = ''both'')"
  then show "sublist ''NaNs '' out"
    using render_nan [OF _ speed_nan [OF assms]] by blast
next
  assume h: "attrs_within 1000 el \<and> decimal_output nts \<and> \<not> jlt (Fin 1000) (waveCount el)"
  from h trips_within obtain n where
    n: "loop_trips (waveCount el) = Some n" "n \<le> 1000" by blast
  from h render_returns [OF n] show "\<exists>out rs'. render nts el rs = Inr (out, rs')" by blast
qed

theorem render_speed_nan_witness:
  "getAttribute (Map.empty(''speed'' \<mapsto> ''abc'')) ''speed'' = Some ''abc'' \<and> ''abc'' \<noteq> [] \<and>
   parseFloat ''abc'' = NaN \<and>
   loop_trips (waveCount (Map.empty(''speed'' \<mapsto> ''abc''))) = Some 4 \<and>
   jle (Fin 1) (waveCount (Map.empty(''speed'' \<mapsto> ''abc''))) \<and>
   position (Map.empty(''speed'' \<mapsto> ''abc'')) = ''top'' \<and>
   attrs_within 1000 (Map.empty(''speed'' \<mapsto> ''abc'')) \<and> decimal_output (\<lambda>r. ''1'') \<and>
   \<not> jlt (Fin 1000) (waveCount (Map.empty(''speed'' \<mapsto> ''abc''))) \<and>
   (\<exists>rs1. getAnimationDurations (Map.empty(''speed'' \<mapsto> ''abc'')) (\<lambda>n. 1 / 2) =
      Inr ([NaN, NaN, NaN, NaN], rs1)) \<and>
   (\<exists>out rs'. render (\<lambda>r. ''1'') (Map.empty(''speed'' \<mapsto> ''abc'')) (\<lambda>n. 1 / 2) = Inr (out, rs') \<and>
      sublist ''NaNs '' out)"
proof -
  let ?el = "Map.empty(''speed'' \<mapsto> ''abc'')"
  have a: "getAttribute ?el ''speed'' = Some ''abc''" by (simp add: getAttribute_def)
  have b: "''abc'' \<noteq> []" by simp
  have wc: "waveCount ?el = Fin 4"
    by (simp add: waveCount_def getAttribute_def or_default_def parseInt_4)
  have t: "loop_trips (waveCount ?el) = Some 4" by (simp add: wc array_limit_def)
  have c: "jle (Fin 1) (waveCount ?el)" "\<not> jlt (Fin 1000) (waveCount ?el)"
    by (simp_all add: wc jle_def jlt_def)
  have p: "position ?el = ''top''" by (simp add: position_def getAttribute_def or_default_def)
  have w: "attrs_within 1000 ?el" by (simp add: attrs_within_def getAttribute_def)
  note th = render_speed_nan [OF a b parseFloat_abc, of "\<lambda>n. 1 / 2" "\<lambda>r. ''1''"]
  from th t have d: "\<exists>rs1. getAnimationDurations ?el (\<lambda>n. 1 / 2) = Inr (replicate 4 NaN, rs1)"
    by blast
  have r4: "replicate 4 NaN = [NaN, NaN, NaN, NaN]" by (simp add: numeral_eq_Suc)
  from th w nts_one c(2) obtain out rs' where
    r: "render (\<lambda>r. ''1'') ?el (\<lambda>n. 1 / 2) = Inr (out, rs')" by blast
  with th c(1) p have "sublist ''NaNs '' out" by blast
  with r d a b parseFloat_abc t c p w nts_one show ?thesis unfolding r4 by blast
qed

end
